(* ===== verification/Prelude.thy ===== *)
theory Prelude
  imports Main "HOL-Library.Word" "HOL-Library.Multiset"
begin

text \<open>
  Prelude of the development: the names of the model's basic types, the Python exceptions
  the code raises or catches, the two effect types every component uses (results that may
  raise, and state-passing computations that may raise), and the list facts about indexed
  reads and writes that the image components share.

  \<^item> \<open>bytes\<close> is a Python \<^verbatim>\<open>bytes\<close> object, a list of 8-bit words;
    a numpy \<^verbatim>\<open>uint8\<close> array has the same type.
  \<^item> \<open>'a res\<close> is the result of code with no side effect: \<open>Inl\<close> of the exception
    or \<open>Inr\<close> of the value.
  \<^item> \<open>('s, 'a) py\<close> is code with side effects on a state \<open>'s\<close>. A raised
    exception keeps the state changes made before it, as in Python.
\<close>

section \<open>Types\<close>

type_synonym byte = "8 word"
type_synonym bytes = "byte list"

text \<open>A Python \<^verbatim>\<open>str\<close> as its list of Unicode code points.\<close>

type_synonym pystr = "nat list"

text \<open>
  The exceptions. A constructor carries the message or the machine code where the source's
  callers could see it. \<open>HTTPException\<close> is FastAPI's, with status code and detail.
\<close>

datatype exn =
    EnvelopeError string
  | CapacityError string
  | DecryptionError
  | ExtractionError string
  | FileValidationError string
  | TokenError
  | ReplayDetected
  | InvalidRefreshToken string
  | AuthorizationError string
  | HTTPException nat string
  | IntegrityError
  | ValueError
  | UnicodeEncodeError
  | UnidentifiedImageError
  | OSError
  | SyntaxError
  | DecompressionBombError
  | StructError
  | IndexError
  | KeyError
  | TypeError
  | AttributeError
  | MemoryError
  | OverflowError
  | InvalidTag
  | VerifyMismatchError
  | VerificationError
  | InvalidHashError
  | PyJWTError

text \<open>
  What \<^verbatim>\<open>except ValueError\<close> catches: \<^verbatim>\<open>UnicodeEncodeError\<close> is a subclass.
  \<^verbatim>\<open>except OSError\<close> also catches Pillow's \<^verbatim>\<open>UnidentifiedImageError\<close>.
\<close>

definition is_value_error :: "exn \<Rightarrow> bool" where
  "is_value_error e \<longleftrightarrow> e \<in> {ValueError, UnicodeEncodeError}"

type_synonym 'a res = "exn + 'a"
type_synonym ('s, 'a) py = "'s \<Rightarrow> 'a res \<times> 's"

named_theorems py_simps \<open>evaluation rules of the result and the state-passing combinators\<close>
named_theorems len_simps \<open>lengths of encodings, regions and slices\<close>
named_theorems component_defs \<open>definitions of the modelled operations\<close>

section \<open>Results that may raise\<close>

definition bindR :: "'a res \<Rightarrow> ('a \<Rightarrow> 'b res) \<Rightarrow> 'b res" where
  "bindR r f = (case r of Inl e \<Rightarrow> Inl e | Inr x \<Rightarrow> f x)"

text \<open>\<open>catchR r h\<close> is \<^verbatim>\<open>try: r / except ...\<close>: the handler gets every exception and
  raises again those that its \<^verbatim>\<open>except\<close> clauses do not name.\<close>

definition catchR :: "'a res \<Rightarrow> (exn \<Rightarrow> 'a res) \<Rightarrow> 'a res" where
  "catchR r h = (case r of Inl e \<Rightarrow> h e | Inr x \<Rightarrow> Inr x)"

lemma bindR_simps [simp]:
  "bindR (Inr x) f = f x"
  "bindR (Inl e) f = Inl e"
  by (simp_all add: bindR_def)

lemma catchR_simps [simp]:
  "catchR (Inr x) h = Inr x"
  "catchR (Inl e) h = h e"
  by (simp_all add: catchR_def)

lemma bindR_Inr_iff: "bindR r f = Inr y \<longleftrightarrow> (\<exists>x. r = Inr x \<and> f x = Inr y)"
  by (cases r) auto

lemma bindR_Inl_iff: "bindR r f = Inl e \<longleftrightarrow> r = Inl e \<or> (\<exists>x. r = Inr x \<and> f x = Inl e)"
  by (cases r) auto

lemma catchR_Inr_iff: "catchR r h = Inr y \<longleftrightarrow> r = Inr y \<or> (\<exists>e. r = Inl e \<and> h e = Inr y)"
  by (cases r) auto

section \<open>State-passing code that may raise\<close>

definition ret :: "'a \<Rightarrow> ('s, 'a) py" where
  "ret x = (\<lambda>s. (Inr x, s))"

definition raise :: "exn \<Rightarrow> ('s, 'a) py" where
  "raise e = (\<lambda>s. (Inl e, s))"

definition bindM :: "('s, 'a) py \<Rightarrow> ('a \<Rightarrow> ('s, 'b) py) \<Rightarrow> ('s, 'b) py" where
  "bindM m f = (\<lambda>s. case m s of (Inl e, s') \<Rightarrow> (Inl e, s') | (Inr x, s') \<Rightarrow> f x s')"

definition thenM :: "('s, 'a) py \<Rightarrow> ('s, 'b) py \<Rightarrow> ('s, 'b) py" where
  "thenM m k = bindM m (\<lambda>_. k)"

definition catchM :: "('s, 'a) py \<Rightarrow> (exn \<Rightarrow> ('s, 'a) py) \<Rightarrow> ('s, 'a) py" where
  "catchM m h = (\<lambda>s. case m s of (Inl e, s') \<Rightarrow> h e s' | (Inr x, s') \<Rightarrow> (Inr x, s'))"

text \<open>\<open>finallyM m k\<close> is \<^verbatim>\<open>try: m / finally: k\<close> for a \<open>k\<close> that does not raise.\<close>

definition finallyM :: "('s, 'a) py \<Rightarrow> ('s \<Rightarrow> 's) \<Rightarrow> ('s, 'a) py" where
  "finallyM m k = (\<lambda>s. case m s of (r, s') \<Rightarrow> (r, k s'))"

definition liftR :: "'a res \<Rightarrow> ('s, 'a) py" where
  "liftR r = (\<lambda>s. (r, s))"

definition gets :: "('s \<Rightarrow> 'a) \<Rightarrow> ('s, 'a) py" where
  "gets f = (\<lambda>s. (Inr (f s), s))"

definition modify :: "('s \<Rightarrow> 's) \<Rightarrow> ('s, unit) py" where
  "modify f = (\<lambda>s. (Inr (), f s))"

definition skip :: "('s, unit) py" where
  "skip = ret ()"

definition whenM :: "bool \<Rightarrow> ('s, unit) py \<Rightarrow> ('s, unit) py" where
  "whenM b m = (if b then m else skip)"

lemma bindM_apply [py_simps]:
  "bindM m f s = (case m s of (Inl e, s') \<Rightarrow> (Inl e, s') | (Inr x, s') \<Rightarrow> f x s')"
  by (simp add: bindM_def)

lemma thenM_apply [py_simps]:
  "thenM m k s = (case m s of (Inl e, s') \<Rightarrow> (Inl e, s') | (Inr _, s') \<Rightarrow> k s')"
  by (simp add: thenM_def bindM_def)

lemma catchM_apply [py_simps]:
  "catchM m h s = (case m s of (Inl e, s') \<Rightarrow> h e s' | (Inr x, s') \<Rightarrow> (Inr x, s'))"
  by (simp add: catchM_def)

lemma finallyM_apply [py_simps]: "finallyM m k s = (case m s of (r, s') \<Rightarrow> (r, k s'))"
  by (simp add: finallyM_def)

lemma prim_apply [simp]:
  "ret x s = (Inr x, s)"
  "raise e s = (Inl e, s)"
  "liftR r s = (r, s)"
  "gets f s = (Inr (f s), s)"
  "modify g s = (Inr (), g s)"
  "skip s = (Inr (), s)"
  by (simp_all add: ret_def raise_def liftR_def gets_def modify_def skip_def)

lemma whenM_apply [py_simps]: "whenM b m s = (if b then m s else (Inr (), s))"
  by (simp add: whenM_def)

section \<open>Indexed reads and writes on arrays\<close>

text \<open>
  numpy's fancy-index assignment \<^verbatim>\<open>xs[ts] = vs\<close> for equally long \<open>ts\<close> and \<open>vs\<close>:
  the writes happen from left to right.
\<close>

fun assign :: "'a list \<Rightarrow> nat list \<Rightarrow> 'a list \<Rightarrow> 'a list" where
  "assign xs (t # ts) (v # vs) = assign (xs[t := v]) ts vs"
| "assign xs ts vs = xs"

lemma length_assign [simp, len_simps]: "length (assign xs ts vs) = length xs"
  by (induction xs ts vs rule: assign.induct) auto

lemma assign_other: "i \<notin> set ts \<Longrightarrow> assign xs ts vs ! i = xs ! i"
  by (induction xs ts vs rule: assign.induct) auto

lemma assign_read_back:
  assumes "distinct ts" "\<forall>t \<in> set ts. t < length xs" "length vs = length ts"
  shows "map ((!) (assign xs ts vs)) ts = vs"
  using assms
proof (induction xs ts vs rule: assign.induct)
  case (1 xs t ts v vs)
  have "assign (xs[t := v]) ts vs ! t = v"
    using 1 by (simp add: assign_other)
  with 1 show ?case by simp
qed auto

lemma assign_at:
  assumes "distinct ts" "\<forall>t \<in> set ts. t < length xs" "length vs = length ts" "k < length ts"
  shows "assign xs ts vs ! (ts ! k) = vs ! k"
  using arg_cong [OF assign_read_back [OF assms(1-3)], of "\<lambda>l. l ! k"] assms(4) by simp

lemma take_assign_ge:
  assumes "\<forall>t \<in> set ts. n \<le> t"
  shows "take n (assign xs ts vs) = take n xs"
proof (rule nth_equalityI)
  fix i assume "i < length (take n (assign xs ts vs))"
  then have "i < n" and "i \<notin> set ts" using assms by auto
  then show "take n (assign xs ts vs) ! i = take n xs ! i" by (simp add: assign_other)
qed simp

lemma map_take_upt: "n \<le> length xs \<Longrightarrow> map f (take n xs) = map (\<lambda>i. f (xs ! i)) [0..<n]"
  by (rule nth_equalityI) auto

lemma set_take_mset:
  assumes "mset ys = mset xs" shows "set (take n ys) \<subseteq> set xs"
  using assms by (metis mset_eq_setD set_take_subset)

end
