(* ===== verification/ByteCodec.thy ===== *)
theory ByteCodec
  imports Prelude
begin

unbundle bit_operations_syntax

text \<open>
  Byte-level encodings: the big-endian integers and fixed-width byte strings of Python's
  \<^verbatim>\<open>struct\<close> module, and the bit vectors of numpy's \<^verbatim>\<open>unpackbits\<close> and
  \<^verbatim>\<open>packbits\<close> (most significant bit first, bits as \<^verbatim>\<open>uint8\<close> values 0 and 1).
  The locale \<open>codec\<close> is their common interface, a fixed-width encoding with a decoder that
  undoes it; \<open>exact_codec\<close> adds that every word of the right width is an encoding.
\<close>

section \<open>The interface of a fixed-width encoding\<close>

locale codec =
  fixes enc :: "'a \<Rightarrow> 'b list" and dec :: "'b list \<Rightarrow> 'a"
    and ok :: "'a \<Rightarrow> bool" and width :: nat
  assumes dec_enc: "ok x \<Longrightarrow> dec (enc x) = x"
    and length_enc: "ok x \<Longrightarrow> length (enc x) = width"
begin

lemma enc_inj: "ok x \<Longrightarrow> ok y \<Longrightarrow> enc x = enc y \<Longrightarrow> x = y"
  by (metis dec_enc)

lemma dec_field:
  "ok x \<Longrightarrow> length pre = n \<Longrightarrow> dec (take width (drop n (pre @ enc x @ post))) = x"
  by (simp add: dec_enc length_enc)

lemma skip_field:
  "ok x \<Longrightarrow> drop (n + width) (enc x @ post) = drop n post"
  by (simp add: length_enc)

end

locale exact_codec = codec +
  assumes enc_dec: "length ys = width \<Longrightarrow> enc (dec ys) = ys"
    and ok_dec: "length ys = width \<Longrightarrow> ok (dec ys)"
begin

lemma dec_inj: "length xs = width \<Longrightarrow> length ys = width \<Longrightarrow> dec xs = dec ys \<Longrightarrow> xs = ys"
  by (metis enc_dec)

lemma enc_surj: "length ys = width \<Longrightarrow> \<exists>x. ok x \<and> enc x = ys"
  using enc_dec ok_dec by blast

end

section \<open>Big-endian unsigned integers\<close>

fun be_bytes :: "nat \<Rightarrow> nat \<Rightarrow> bytes" where
  "be_bytes 0 n = []"
| "be_bytes (Suc k) n = be_bytes k (n div 256) @ [word_of_nat (n mod 256)]"

definition be_nat :: "bytes \<Rightarrow> nat" where
  "be_nat bs = foldl (\<lambda>a b. a * 256 + unat b) 0 bs"

lemma length_be_bytes [simp, len_simps]: "length (be_bytes k n) = k"
  by (induction k arbitrary: n) auto

lemma be_nat_snoc [simp]: "be_nat (bs @ [b]) = be_nat bs * 256 + unat b"
  by (simp add: be_nat_def)

lemma be_nat_Nil [simp]: "be_nat [] = 0"
  by (simp add: be_nat_def)

lemma unat_byte_lt [simp]: "unat (b :: byte) < 256"
  using unsigned_less [of b] by simp

lemma unat_byte_of_nat: "n < 256 \<Longrightarrow> unat (word_of_nat n :: byte) = n"
  by (simp add: unat_of_nat)

lemma be_nat_be_bytes: "n < 256 ^ k \<Longrightarrow> be_nat (be_bytes k n) = n"
proof (induction k arbitrary: n)
  case (Suc k)
  then have "n div 256 < 256 ^ k" by (simp add: less_mult_imp_div_less mult.commute)
  then show ?case using Suc.IH by (simp add: unat_byte_of_nat)
qed simp

lemma be_nat_lt: "be_nat bs < 256 ^ length bs"
proof (induction bs rule: rev_induct)
  case (snoc b bs)
  have "be_nat bs * 256 + unat b < be_nat bs * 256 + 256" by simp
  also have "\<dots> = (be_nat bs + 1) * 256" by simp
  also have "\<dots> \<le> 256 ^ length bs * 256" using snoc by (intro mult_right_mono) auto
  finally show ?case by (simp add: mult.commute)
qed simp

lemma be_bytes_be_nat: "length bs = k \<Longrightarrow> be_bytes k (be_nat bs) = bs"
proof (induction bs arbitrary: k rule: rev_induct)
  case (snoc b bs)
  then show ?case by (cases k) (auto simp: unat_byte_of_nat)
qed simp

declare be_bytes.simps [simp del]

interpretation be: exact_codec "be_bytes k" be_nat "\<lambda>n. n < 256 ^ k" k for k
  by unfold_locales (auto simp: be_nat_be_bytes be_bytes_be_nat be_nat_lt)

section \<open>struct fields\<close>

text \<open>
  Format characters \<^verbatim>\<open>B\<close>, \<^verbatim>\<open>H\<close>, \<^verbatim>\<open>I\<close> in big-endian mode: an unsigned
  integer of 1, 2, 4 bytes; \<^verbatim>\<open>struct.pack\<close> raises \<^verbatim>\<open>struct.error\<close> out of range.
  \<^verbatim>\<open>Ns\<close>: a byte string cut or padded with zero bytes to length \<open>N\<close>.
\<close>

definition pack_uint :: "nat \<Rightarrow> int \<Rightarrow> bytes res" where
  "pack_uint k v =
     (if 0 \<le> v \<and> v < 256 ^ k then Inr (be_bytes k (nat v)) else Inl StructError)"

definition unpack_uint :: "bytes \<Rightarrow> int" where
  "unpack_uint bs = int (be_nat bs)"

definition pack_str :: "nat \<Rightarrow> bytes \<Rightarrow> bytes" where
  "pack_str k bs = take k (bs @ replicate k 0)"

definition slice :: "nat \<Rightarrow> nat \<Rightarrow> 'a list \<Rightarrow> 'a list" where
  "slice i k xs = take k (drop i xs)"

definition uint_fits :: "nat \<Rightarrow> int \<Rightarrow> bool" where
  "uint_fits k v \<longleftrightarrow> 0 \<le> v \<and> v < 256 ^ k"

lemma length_pack_str [simp, len_simps]: "length (pack_str k bs) = k"
  by (simp add: pack_str_def)

lemma pack_str_id: "length bs = k \<Longrightarrow> pack_str k bs = bs"
  by (simp add: pack_str_def)

lemma pack_uint_Inr: "uint_fits k v \<Longrightarrow> pack_uint k v = Inr (be_bytes k (nat v))"
  by (simp add: pack_uint_def uint_fits_def)

lemma pack_uint_Inl: "\<not> uint_fits k v \<Longrightarrow> pack_uint k v = Inl StructError"
  by (auto simp: pack_uint_def uint_fits_def)

lemma uint_fits_of_nat: "n < 256 ^ k \<Longrightarrow> uint_fits k (int n)"
  unfolding uint_fits_def by (metis of_nat_0_le_iff of_nat_less_iff of_nat_numeral of_nat_power)

lemma uint_fits_nat: "uint_fits k v \<Longrightarrow> nat v < 256 ^ k"
  unfolding uint_fits_def
  by (metis nat_less_iff of_nat_numeral of_nat_power)

interpretation uint: exact_codec "\<lambda>v. be_bytes k (nat v)" unpack_uint "uint_fits k" k for k
proof unfold_locales
  fix v assume "uint_fits k v"
  then show "unpack_uint (be_bytes k (nat v)) = v"
    using uint_fits_nat [of k v] by (simp add: unpack_uint_def be_nat_be_bytes uint_fits_def)
next
  fix ys :: bytes assume l: "length ys = k"
  show "be_bytes k (nat (unpack_uint ys)) = ys" using l by (simp add: unpack_uint_def be_bytes_be_nat)
  show "uint_fits k (unpack_uint ys)"
    using be_nat_lt [of ys] l by (simp add: unpack_uint_def uint_fits_of_nat)
qed simp

interpretation str: exact_codec "pack_str k" "\<lambda>bs. bs" "\<lambda>bs. length bs = k" k for k
  by unfold_locales (simp_all add: pack_str_id)

section \<open>Bit vectors\<close>

definition unpack_byte :: "byte \<Rightarrow> bytes" where
  "unpack_byte b = map (\<lambda>i. of_bool (bit b (7 - i))) [0..<8]"

definition unpackbits :: "bytes \<Rightarrow> bytes" where
  "unpackbits bs = concat (map unpack_byte bs)"

text \<open>\<^verbatim>\<open>packbits\<close> reads any non-zero value as a one and pads the last byte with zeros.\<close>

definition pack_byte :: "bytes \<Rightarrow> byte" where
  "pack_byte xs = foldl (\<lambda>a x. push_bit 1 a OR of_bool (x \<noteq> 0)) 0 xs"

fun packbits :: "bytes \<Rightarrow> bytes" where
  "packbits xs =
     (if xs = [] then []
      else pack_byte (take 8 (xs @ replicate 7 0)) # packbits (drop 8 xs))"

declare packbits.simps [simp del]

definition bits :: "bytes \<Rightarrow> bool" where
  "bits xs \<longleftrightarrow> set xs \<subseteq> {0, 1}"

lemma bits_nth: "bits xs \<Longrightarrow> i < length xs \<Longrightarrow> xs ! i \<in> {0, 1}"
  unfolding bits_def by (meson nth_mem subsetD)

lemma packbits_Nil [simp]: "packbits [] = []"
  by (simp add: packbits.simps)

lemma length_unpack_byte [simp, len_simps]: "length (unpack_byte b) = 8"
  by (simp add: unpack_byte_def)

lemma length_unpackbits [simp, len_simps]: "length (unpackbits bs) = 8 * length bs"
  by (induction bs) (simp_all add: unpackbits_def)

lemma bits_unpackbits [simp]: "bits (unpackbits bs)"
  by (auto simp: bits_def unpackbits_def unpack_byte_def)

lemma bit_pack_byte: "i < 8 \<Longrightarrow> bit (pack_byte xs) i \<longleftrightarrow> i < length xs \<and> rev xs ! i \<noteq> 0"
proof (induction xs arbitrary: i rule: rev_induct)
  case (snoc x xs)
  have *: "pack_byte (xs @ [x]) = push_bit 1 (pack_byte xs) OR of_bool (x \<noteq> 0)"
    by (simp add: pack_byte_def)
  show ?case
  proof (cases i)
    case 0
    then show ?thesis using * by (cases "x = 0") (simp_all add: bit_0 even_or_iff)
  next
    case (Suc j)
    then show ?thesis using snoc by (simp add: * bit_simps del: push_bit_Suc)
  qed
qed (simp add: pack_byte_def)

lemma unpack_byte_nth: "i < 8 \<Longrightarrow> unpack_byte b ! i = of_bool (bit b (7 - i))"
  by (simp add: unpack_byte_def del: upt_Suc)

lemma pack_unpack_byte: "pack_byte (unpack_byte b) = b"
proof (rule bit_word_eqI)
  fix i assume "i < LENGTH(8)"
  then show "bit (pack_byte (unpack_byte b)) i \<longleftrightarrow> bit b i"
    by (simp add: bit_pack_byte rev_nth unpack_byte_nth)
qed

lemma unpack_pack_byte:
  assumes "length xs = 8" "bits xs" shows "unpack_byte (pack_byte xs) = xs"
proof (rule nth_equalityI)
  fix i assume "i < length (unpack_byte (pack_byte xs))"
  then have i: "i < 8" by simp
  then have "xs ! i \<in> {0, 1}" using assms by (force simp: bits_def)
  then show "unpack_byte (pack_byte xs) ! i = xs ! i"
    using i assms by (auto simp: unpack_byte_nth bit_pack_byte rev_nth)
qed (simp add: assms)

lemma packbits_unpackbits: "packbits (unpackbits bs) = bs"
proof (induction bs)
  case (Cons b bs)
  have "packbits (unpack_byte b @ unpackbits bs) = b # packbits (unpackbits bs)"
    by (subst packbits.simps) (simp add: pack_unpack_byte flip: length_0_conv)
  with Cons show ?case by (simp add: unpackbits_def)
qed (simp add: unpackbits_def)

lemma length_packbits: "length (packbits xs) = (length xs + 7) div 8"
proof (induction xs rule: packbits.induct)
  case (1 xs)
  have "Suc ((length xs - 8 + 7) div 8) = (length xs + 7) div 8" if "xs \<noteq> []"
    using that by (cases "length xs \<le> 8") (auto simp: le_div_geq Suc_le_eq div_eq_dividend_iff
        intro: div_nat_eqI [symmetric])
  with 1 show ?case by (subst packbits.simps) simp
qed

lemma unpackbits_packbits: "length xs = 8 * n \<Longrightarrow> bits xs \<Longrightarrow> unpackbits (packbits xs) = xs"
proof (induction xs arbitrary: n rule: packbits.induct)
  case (1 xs)
  show ?case
  proof (cases n)
    case (Suc m)
    then have l: "xs \<noteq> []" "length (take 8 xs) = 8" "length (drop 8 xs) = 8 * m"
      using "1.prems"(1) by auto
    have b: "bits (take 8 xs)" "bits (drop 8 xs)"
      using "1.prems"(2) by (auto simp: bits_def dest: in_set_takeD in_set_dropD)
    have "packbits xs = pack_byte (take 8 xs) # packbits (drop 8 xs)"
      using l by (subst packbits.simps) simp
    then show ?thesis
      using "1.IH" [OF l(1,3) b(2)] l b by (simp add: unpackbits_def unpack_pack_byte)
  qed (use "1.prems" in \<open>simp add: unpackbits_def\<close>)
qed

interpretation bitvec: codec unpackbits packbits "\<lambda>bs. length bs = n" "8 * n" for n
  by unfold_locales (simp_all add: packbits_unpackbits)

end
