(* ===== verification/Uuid.thy ===== *)
theory Uuid
  imports Prelude
begin

text \<open>
  The parts of Python's standard library that turn identifiers into text and back:
  \<^verbatim>\<open>str(uuid)\<close> and \<^verbatim>\<open>uuid.UUID(text)\<close> with the \<^verbatim>\<open>int(text, 16)\<close> it calls,
  \<^verbatim>\<open>bytes.hex\<close> and the URL-safe base 64 of \<^verbatim>\<open>secrets.token_urlsafe\<close>. Texts are
  lists of 8-bit characters (HTTP paths, headers and JWT claims); a UUID is its 128-bit integer.
\<close>

type_synonym uuid = nat

section \<open>Hexadecimal digits\<close>

definition hex_char :: "nat \<Rightarrow> char" where
  "hex_char d = ''0123456789abcdef'' ! d"

definition hex_value :: "char \<Rightarrow> nat option" where
  "hex_value c =
     (let n = (of_char c :: nat) in
      if 48 \<le> n \<and> n < 58 then Some (n - 48)
      else if 97 \<le> n \<and> n < 103 then Some (n - 87)
      else if 65 \<le> n \<and> n < 71 then Some (n - 55)
      else None)"

fun hex_digits :: "nat \<Rightarrow> nat \<Rightarrow> string" where
  "hex_digits 0 n = []"
| "hex_digits (Suc k) n = hex_digits k (n div 16) @ [hex_char (n mod 16)]"

definition hexdigest :: "byte list \<Rightarrow> string" where
  "hexdigest bs = concat (map (\<lambda>b. hex_digits 2 (unat b)) bs)"

lemma hex_digits_2: "hex_digits 2 n = [hex_char (n div 16 mod 16), hex_char (n mod 16)]"
  by (simp add: numeral_2_eq_2)

section \<open>str(uuid)\<close>

definition str_uuid :: "uuid \<Rightarrow> string" where
  "str_uuid u =
     (let h = hex_digits 32 u in
      take 8 h @ ''-'' @ take 4 (drop 8 h) @ ''-'' @ take 4 (drop 12 h) @ ''-'' @
      take 4 (drop 16 h) @ ''-'' @ drop 20 h)"

section \<open>uuid.UUID(text)\<close>

text \<open>\<^verbatim>\<open>text.replace(pat, "")\<close>: leftmost non-overlapping occurrences.\<close>

fun remove_all :: "string \<Rightarrow> string \<Rightarrow> string" where
  "remove_all pat [] = []"
| "remove_all pat (c # s) =
     (if pat \<noteq> [] \<and> take (length pat) (c # s) = pat then remove_all pat (drop (length pat - 1) s)
      else c # remove_all pat s)"

definition strip_set :: "char set \<Rightarrow> string \<Rightarrow> string" where
  "strip_set cs s = rev (dropWhile (\<lambda>c. c \<in> cs) (rev (dropWhile (\<lambda>c. c \<in> cs) s)))"

text \<open>\<^verbatim>\<open>str.isspace\<close> on 8-bit characters.\<close>

definition py_space :: "char \<Rightarrow> bool" where
  "py_space c \<longleftrightarrow>
     (let n = (of_char c :: nat) in 9 \<le> n \<and> n \<le> 13 \<or> 28 \<le> n \<and> n \<le> 32 \<or> n = 133 \<or> n = 160)"

definition py_strip :: "string \<Rightarrow> string" where
  "py_strip s = rev (dropWhile py_space (rev (dropWhile py_space s)))"

text \<open>
  The digits of \<^verbatim>\<open>int(text, 16)\<close>: at least one, single underscores allowed between
  two digits. The boolean says whether the previous character was a digit.
\<close>

fun hex_number :: "bool \<Rightarrow> nat \<Rightarrow> string \<Rightarrow> nat option" where
  "hex_number d a [] = (if d then Some a else None)"
| "hex_number d a (c # s) =
     (case hex_value c of
        Some v \<Rightarrow> hex_number True (a * 16 + v) s
      | None \<Rightarrow> if c = CHR ''_'' \<and> d then hex_number False a s else None)"

text \<open>Sign, then an optional \<^verbatim>\<open>0x\<close> that one underscore may follow.\<close>

definition drop_prefix :: "string \<Rightarrow> string" where
  "drop_prefix s =
     (if take 2 s = ''0x'' \<or> take 2 s = ''0X''
      then (if take 1 (drop 2 s) = ''_'' then drop 3 s else drop 2 s) else s)"

definition int_base16 :: "string \<Rightarrow> int res" where
  "int_base16 text =
     (let s = py_strip text;
          neg = (take 1 s = ''-'');
          t = (if take 1 s = ''-'' \<or> take 1 s = ''+'' then drop 1 s else s)
      in case hex_number False 0 (drop_prefix t) of
           None \<Rightarrow> Inl ValueError
         | Some n \<Rightarrow> Inr (if neg then - int n else int n))"

definition parse_uuid :: "string \<Rightarrow> uuid res" where
  "parse_uuid text =
     (let h0 = remove_all ''uuid:'' (remove_all ''urn:'' text);
          h = remove_all ''-'' (strip_set {CHR ''{'', CHR ''}''} h0)
      in if length h \<noteq> 32 then Inl ValueError
         else bindR (int_base16 h) (\<lambda>n. if 0 \<le> n \<and> n < 2 ^ 128 then Inr (nat n) else Inl ValueError))"

lemma parse_uuid_Inl: "parse_uuid s = Inl e \<Longrightarrow> e = ValueError"
  by (auto simp: parse_uuid_def int_base16_def Let_def split: if_splits option.splits)

section \<open>The round trip\<close>

definition is_hex :: "char \<Rightarrow> bool" where
  "is_hex c \<longleftrightarrow> c \<in> set ''0123456789abcdef''"

lemma less16_cases: "d < 16 \<Longrightarrow> P 0 \<Longrightarrow> P 1 \<Longrightarrow> P 2 \<Longrightarrow> P 3 \<Longrightarrow> P 4 \<Longrightarrow> P 5 \<Longrightarrow> P 6 \<Longrightarrow> P 7 \<Longrightarrow>
    P 8 \<Longrightarrow> P 9 \<Longrightarrow> P 10 \<Longrightarrow> P 11 \<Longrightarrow> P 12 \<Longrightarrow> P 13 \<Longrightarrow> P 14 \<Longrightarrow> P (15::nat) \<Longrightarrow> P d"
  by (simp add: less_Suc_eq numeral_eq_Suc) metis

lemma hex_char_facts: "d < 16 \<Longrightarrow> hex_value (hex_char d) = Some d \<and> is_hex (hex_char d)"
  by (erule less16_cases) (simp_all add: hex_char_def hex_value_def is_hex_def)

lemma length_hex_digits [simp]: "length (hex_digits k n) = k"
  by (induction k arbitrary: n) auto

lemma hex_digits_hex: "\<forall>c \<in> set (hex_digits k n). is_hex c"
  by (induction k arbitrary: n) (auto simp: hex_char_facts)

lemma hex_number_snoc:
  "\<forall>c \<in> set s. is_hex c \<Longrightarrow> hex_value c = Some v \<Longrightarrow>
     hex_number d a (s @ [c]) = map_option (\<lambda>n. n * 16 + v) (if s = [] then Some a else hex_number d a s)"
proof (induction s arbitrary: d a)
  case (Cons x s)
  from Cons.prems(1) have "is_hex x" by simp
  then obtain w where "hex_value x = Some w"
    by (auto simp: is_hex_def hex_value_def)
  with Cons show ?case by (cases s) auto
qed simp

lemma hex_number_digits: "n < 16 ^ k \<Longrightarrow> 0 < k \<Longrightarrow> hex_number d 0 (hex_digits k n) = Some n"
proof (induction k arbitrary: n)
  case (Suc k)
  have *: "hex_number d 0 (hex_digits k (n div 16) @ [hex_char (n mod 16)]) =
      map_option (\<lambda>m. m * 16 + n mod 16)
        (if hex_digits k (n div 16) = [] then Some 0 else hex_number d 0 (hex_digits k (n div 16)))"
    by (rule hex_number_snoc) (simp_all add: hex_digits_hex hex_char_facts)
  show ?case
  proof (cases k)
    case 0
    with Suc.prems * show ?thesis by simp
  next
    case (Suc j)
    have "n div 16 < 16 ^ k" using Suc.prems(1) by (simp add: less_mult_imp_div_less mult.commute)
    moreover have "hex_digits k (n div 16) \<noteq> []" using Suc by (metis length_hex_digits list.size(3) nat.simps(3))
    ultimately show ?thesis using Suc.IH [of "n div 16"] * Suc by simp
  qed
qed simp

lemma hex_not:
  "is_hex c \<Longrightarrow> c \<noteq> CHR ''u'' \<and> c \<noteq> CHR ''-'' \<and> c \<noteq> CHR ''{'' \<and> c \<noteq> CHR ''}'' \<and> \<not> py_space c \<and>
     c \<noteq> CHR ''+'' \<and> c \<noteq> CHR ''x'' \<and> c \<noteq> CHR ''X''"
  by (auto simp: is_hex_def py_space_def)

lemma remove_all_absent: "p \<notin> set s \<Longrightarrow> remove_all (p # ps) s = s"
  by (induction s) auto

lemma remove_dash: "remove_all ''-'' s = filter (\<lambda>c. c \<noteq> CHR ''-'') s"
  by (induction s) auto

lemma dropWhile_none: "\<forall>c \<in> set s. \<not> P c \<Longrightarrow> dropWhile P s = s"
  by (induction s) auto

lemma int_base16_digits:
  assumes "n < 16 ^ k" "1 < k" shows "int_base16 (hex_digits k n) = Inr (int n)"
proof -
  let ?s = "hex_digits k n"
  have hex: "\<And>c. c \<in> set ?s \<Longrightarrow> is_hex c" using hex_digits_hex by blast
  have strip: "py_strip ?s = ?s"
    using hex by (simp add: py_strip_def dropWhile_none hex_not)
  have "length ?s = k" by simp
  with assms(2) obtain c1 c2 r where s: "?s = c1 # c2 # r"
    by (cases ?s; cases "tl ?s") auto
  then have "is_hex c1" "is_hex c2" using hex by auto
  then have "c1 \<noteq> CHR ''-''" "c1 \<noteq> CHR ''+''" "c2 \<noteq> CHR ''x''" "c2 \<noteq> CHR ''X''"
    using hex_not by auto
  moreover have "hex_number False 0 ?s = Some n" using assms by (simp add: hex_number_digits)
  ultimately show ?thesis using s strip
    by (simp add: int_base16_def drop_prefix_def Let_def)
qed

lemma take_drop_step: "take n (drop m xs) @ drop (m + n) xs = drop m xs"
  by (metis add.commute append_take_drop_id drop_drop)

lemma parse_str_uuid: "u < 2 ^ 128 \<Longrightarrow> parse_uuid (str_uuid u) = Inr u"
proof -
  assume u: "u < 2 ^ 128"
  let ?h = "hex_digits 32 u" and ?s = "str_uuid u"
  have hex: "\<And>c. c \<in> set ?h \<Longrightarrow> is_hex c" using hex_digits_hex by blast
  have cs: "c \<in> set ?s \<Longrightarrow> is_hex c \<or> c = CHR ''-''" for c
    using hex by (auto simp: str_uuid_def Let_def dest: in_set_takeD in_set_dropD)
  have absent: "CHR ''u'' \<notin> set ?s" using cs hex_not by force
  have "\<forall>c \<in> set ?s. c \<notin> {CHR ''{'', CHR ''}''}" using cs hex_not by fastforce
  then have strip: "strip_set {CHR ''{'', CHR ''}''} ?s = ?s"
    unfolding strip_set_def by (simp only: dropWhile_none set_rev rev_rev_ident)
  have keep: "filter (\<lambda>c. c \<noteq> CHR ''-'') x = x" if "set x \<subseteq> set ?h" for x
    using that hex hex_not by (intro filter_True) blast
  have split: "take 8 ?h @ take 4 (drop 8 ?h) @ take 4 (drop 12 ?h) @ take 4 (drop 16 ?h) @ drop 20 ?h = ?h"
    using take_drop_step [of 4 16 ?h] take_drop_step [of 4 12 ?h] take_drop_step [of 4 8 ?h]
      append_take_drop_id [of 8 ?h] by simp
  have sub: "set (take n (drop m ?h)) \<subseteq> set ?h" for n m
    by (meson set_drop_subset set_take_subset subset_trans)
  have "filter (\<lambda>c. c \<noteq> CHR ''-'') ?s = ?h"
    unfolding str_uuid_def Let_def filter_append
    using split keep [OF sub [of 4 8]] keep [OF sub [of 4 12]] keep [OF sub [of 4 16]]
      keep [OF set_take_subset [of 8 ?h]] keep [OF set_drop_subset [of 20 ?h]] by simp
  moreover have "int_base16 ?h = Inr (int u)" using u by (intro int_base16_digits) simp_all
  ultimately show ?thesis using u
    by (simp add: parse_uuid_def Let_def remove_all_absent absent strip remove_dash)
qed

lemma str_uuid_inj: "u < 2 ^ 128 \<Longrightarrow> v < 2 ^ 128 \<Longrightarrow> str_uuid u = str_uuid v \<Longrightarrow> u = v"
  by (metis parse_str_uuid sum.inject(2))

end
