(* ===== verification/Runtime.thy ===== *)
theory Runtime
  imports ByteCodec Uuid
begin

text \<open>
  What the code runs on. Python's own part is modelled: UTF-8 encoding of strings and the
  entropy that \<^verbatim>\<open>os.urandom\<close> consumes. The third-party packages (cryptography,
  numpy, Pillow, hashlib's C digest) are not under \<^verbatim>\<open>src/\<close>: they are the fields of
  the record \<open>lib\<close>, an argument of every definition that calls them, and
  what the code relies on is stated by the \<open>..._spec\<close> predicates below, which are
  hypotheses of the theorems that need them.
\<close>

section \<open>UTF-8\<close>

text \<open>
  \<^verbatim>\<open>str.encode("utf-8")\<close> of one code point: lone surrogates raise
  \<^verbatim>\<open>UnicodeEncodeError\<close>; a Python string has no code point beyond \<^verbatim>\<open>0x10FFFF\<close>.
\<close>

definition utf8_char :: "nat \<Rightarrow> bytes res" where
  "utf8_char c =
     (if c < 0x80 then Inr [word_of_nat c]
      else if c < 0x800 then
        Inr [word_of_nat (0xC0 + c div 64), word_of_nat (0x80 + c mod 64)]
      else if 0xD800 \<le> c \<and> c < 0xE000 then Inl UnicodeEncodeError
      else if c < 0x10000 then
        Inr [word_of_nat (0xE0 + c div 4096), word_of_nat (0x80 + c div 64 mod 64),
             word_of_nat (0x80 + c mod 64)]
      else if c < 0x110000 then
        Inr [word_of_nat (0xF0 + c div 262144), word_of_nat (0x80 + c div 4096 mod 64),
             word_of_nat (0x80 + c div 64 mod 64), word_of_nat (0x80 + c mod 64)]
      else Inl UnicodeEncodeError)"

fun utf8_encode :: "pystr \<Rightarrow> bytes res" where
  "utf8_encode [] = Inr []"
| "utf8_encode (c # cs) =
     bindR (utf8_char c) (\<lambda>b. bindR (utf8_encode cs) (\<lambda>bs. Inr (b @ bs)))"

definition encodable :: "pystr \<Rightarrow> bool" where
  "encodable s \<longleftrightarrow> (\<forall>c \<in> set s. c < 0x110000 \<and> \<not> (0xD800 \<le> c \<and> c < 0xE000))"

text \<open>A Latin-1 text as the Python string it is.\<close>

definition text_of :: "string \<Rightarrow> pystr" where
  "text_of s = map of_char s"

lemma encodable_text [simp]: "encodable (text_of s)"
proof -
  have "n < 256" if "n \<in> set (text_of s)" for n using that by (auto simp: text_of_def)
  then show ?thesis unfolding encodable_def by force
qed

lemma utf8_char_cases:
  "(\<exists>b. utf8_char c = Inr b \<and> b \<noteq> [] \<and> length b \<le> 4) \<or> utf8_char c = Inl UnicodeEncodeError"
  by (simp add: utf8_char_def)

lemma utf8_encode_total: "encodable s \<Longrightarrow> \<exists>b. utf8_encode s = Inr b"
proof (induction s)
  case (Cons c s)
  then have "\<exists>b. utf8_char c = Inr b" by (auto simp: encodable_def utf8_char_def)
  with Cons show ?case by (auto simp: encodable_def)
qed simp

lemma utf8_encode_Inl: "utf8_encode s = Inl e \<Longrightarrow> e = UnicodeEncodeError"
proof (induction s)
  case (Cons c s)
  then show ?case using utf8_char_cases [of c] by (auto simp: bindR_Inl_iff)
qed simp

lemma utf8_encode_Inr: "utf8_encode s = Inr b \<Longrightarrow> encodable s"
proof (induction s arbitrary: b)
  case (Cons c s)
  then obtain x y where "utf8_char c = Inr x" "utf8_encode s = Inr y" by (auto simp: bindR_Inr_iff)
  moreover have "c < 0x110000 \<and> \<not> (0xD800 \<le> c \<and> c < 0xE000)"
    using \<open>utf8_char c = Inr x\<close> by (simp add: utf8_char_def split: if_splits)
  ultimately show ?case using Cons.IH by (simp add: encodable_def)
qed (simp add: encodable_def)

section \<open>Entropy\<close>

text \<open>
  \<^verbatim>\<open>os.urandom\<close> as a cursor over the bytes the operating system will deliver: a call
  for \<open>n\<close> bytes returns the next \<open>n\<close> and moves the cursor past them.
\<close>

record entropy =
  source :: "nat \<Rightarrow> byte"
  cursor :: nat

definition window :: "entropy \<Rightarrow> nat \<Rightarrow> nat \<Rightarrow> bytes" where
  "window E i n = map (source E) [i..<i + n]"

definition urandom :: "nat \<Rightarrow> (entropy, bytes) py" where
  "urandom n E = (Inr (window E (cursor E) n), E\<lparr>cursor := cursor E + n\<rparr>)"

lemma length_window [simp, len_simps]: "length (window E i n) = n"
  by (simp add: window_def)

lemma window_cursor [simp]: "window (E\<lparr>cursor := c\<rparr>) i n = window E i n"
  by (simp add: window_def)

section \<open>Images\<close>

text \<open>
  A decoded Pillow image: its mode, its size and its channel samples in row-major order
  (what \<^verbatim>\<open>np.asarray(image, dtype=np.uint8).reshape(-1)\<close> yields).
\<close>

record image =
  img_mode :: string
  img_width :: nat
  img_height :: nat
  img_samples :: bytes

definition mode_channels :: "string \<Rightarrow> nat" where
  "mode_channels m = (if m = ''RGBA'' then 4 else 3)"

text \<open>A decoded colour image: the sample array has the size the mode and the dimensions say.\<close>

definition colour_image :: "image \<Rightarrow> bool" where
  "colour_image im \<longleftrightarrow>
     (img_mode im = ''RGB'' \<or> img_mode im = ''RGBA'') \<and> 0 < img_width im \<and> 0 < img_height im \<and>
     length (img_samples im) = img_width im * img_height im * mode_channels (img_mode im)"

section \<open>Third-party functions\<close>

text \<open>The claims of a JWT, a Python dictionary as the list of its items in insertion order; the
  values the code stores are strings and integers.\<close>

datatype jval = JStr string | JInt int

type_synonym claims = "(string \<times> jval) list"

record lib =
  sha256 :: "bytes \<Rightarrow> bytes"
  rng_permutation :: "nat \<Rightarrow> nat list \<Rightarrow> nat list"
  aesgcm_encrypt :: "bytes \<Rightarrow> bytes \<Rightarrow> bytes \<Rightarrow> bytes res"
  aesgcm_decrypt :: "bytes \<Rightarrow> bytes \<Rightarrow> bytes \<Rightarrow> bytes res"
  scrypt_init :: "bytes \<Rightarrow> nat \<Rightarrow> int \<Rightarrow> int \<Rightarrow> int \<Rightarrow> unit res"
  scrypt_derive :: "bytes \<Rightarrow> nat \<Rightarrow> int \<Rightarrow> int \<Rightarrow> int \<Rightarrow> bytes \<Rightarrow> bytes res"
  pil_convert :: "image \<Rightarrow> string \<Rightarrow> image"
  png_save :: "image \<Rightarrow> bytes"
  pil_open :: "int \<Rightarrow> bytes \<Rightarrow> string res"
  pil_verify :: "int \<Rightarrow> bytes \<Rightarrow> unit res"
  pil_load :: "int \<Rightarrow> bytes \<Rightarrow> image res"
  argon2_hash :: "bytes \<Rightarrow> pystr \<Rightarrow> string res"
  argon2_verify :: "string \<Rightarrow> pystr \<Rightarrow> bool res"
  argon2_check_needs_rehash :: "string \<Rightarrow> bool res"
  jwt_encode :: "claims \<Rightarrow> string \<Rightarrow> string"
  jwt_decode :: "string \<Rightarrow> string \<Rightarrow> int \<Rightarrow> claims res"

text \<open>
  \<^item> \<open>sha256\<close>: \<^verbatim>\<open>hashlib.sha256(data).digest()\<close>.
  \<^item> \<open>rng_permutation seed xs\<close>: \<^verbatim>\<open>np.random.default_rng(seed).permutation(xs)\<close>.
  \<^item> \<open>aesgcm_encrypt key nonce data\<close>, \<open>aesgcm_decrypt\<close>: the methods of
    \<^verbatim>\<open>AESGCM(key)\<close> with no associated data.
  \<^item> \<open>scrypt_init salt length n r p\<close>: the constructor \<^verbatim>\<open>Scrypt(...)\<close>, which validates
    the cost parameters; \<open>scrypt_derive\<close> its \<^verbatim>\<open>derive\<close>.
  \<^item> \<open>pil_convert\<close>: \<^verbatim>\<open>Image.convert\<close> of a loaded image, which has a conversion to RGB from
    every mode a PNG decodes to; \<open>png_save\<close>: the bytes
    \<^verbatim>\<open>Image.fromarray(..).save(buffer, format="PNG")\<close> writes.
  \<^item> \<open>pil_open limit data\<close>: the \<^verbatim>\<open>format\<close> that
    \<^verbatim>\<open>Image.open(io.BytesIO(data))\<close> detects while
    \<^verbatim>\<open>Image.MAX_IMAGE_PIXELS\<close> is \<open>limit\<close>; \<open>pil_verify\<close> and
    \<open>pil_load\<close> the methods of the opened image.
  \<^item> \<open>argon2_hash salt password\<close>, \<open>argon2_verify hash password\<close>,
    \<open>argon2_check_needs_rehash\<close>: argon2-cffi's \<^verbatim>\<open>PasswordHasher\<close>, with the random salt
    it draws as an argument.
  \<^item> \<open>jwt_encode claims key\<close> and \<open>jwt_decode token key now\<close>: PyJWT with HS256 and the
    required claims \<^verbatim>\<open>exp\<close>, \<^verbatim>\<open>sub\<close>, \<^verbatim>\<open>role\<close>; \<open>now\<close> is the
    time in microseconds at which it checks the expiry.
\<close>

definition permutation_spec :: "lib \<Rightarrow> bool" where
  "permutation_spec L \<longleftrightarrow> (\<forall>seed xs. mset (rng_permutation L seed xs) = mset xs)"

text \<open>
  AES-256-GCM with a 12-byte nonce: encryption returns the ciphertext with the 16-byte tag
  appended (data of \<open>2 ^ 31\<close> bytes and more are refused); decryption returns the plaintext
  of exactly the ciphertexts that encryption produces under the same key and nonce, and
  otherwise raises \<^verbatim>\<open>InvalidTag\<close> or \<^verbatim>\<open>ValueError\<close>.
\<close>

definition aead_spec :: "lib \<Rightarrow> bool" where
  "aead_spec L \<longleftrightarrow>
     (\<forall>k n x. length k = 32 \<and> length n = 12 \<and> length x < 2 ^ 31 \<longrightarrow>
        (\<exists>c. aesgcm_encrypt L k n x = Inr c \<and> length c = length x + 16)) \<and>
     (\<forall>k n x c. aesgcm_encrypt L k n x = Inr c \<longrightarrow> aesgcm_decrypt L k n c = Inr x) \<and>
     (\<forall>k n x c. aesgcm_decrypt L k n c = Inr x \<longrightarrow> aesgcm_encrypt L k n x = Inr c) \<and>
     (\<forall>k n c e. aesgcm_decrypt L k n c = Inl e \<longrightarrow> e = InvalidTag \<or> e = ValueError)"

text \<open>scrypt: valid cost parameters yield a key of the requested length.\<close>

definition scrypt_spec :: "lib \<Rightarrow> int \<Rightarrow> int \<Rightarrow> int \<Rightarrow> bool" where
  "scrypt_spec L n r p \<longleftrightarrow>
     (\<forall>s len b. length s = 16 \<longrightarrow> scrypt_init L s len n r p = Inr () \<and>
        (\<exists>k. scrypt_derive L s len n r p b = Inr k \<and> length k = len))"

text \<open>
  Pillow: conversion to RGB yields a colour image of the same dimensions, and returns: the
  conversion of a decoded PNG image has no documented exception (running out of memory in it is not
  modelled). A colour image
  saved as PNG is opened as PNG, verified and loaded unchanged (PNG is lossless) as long as
  the decompression-bomb limit admits its pixel count.
\<close>

definition convert_spec :: "lib \<Rightarrow> bool" where
  "convert_spec L \<longleftrightarrow>
     (\<forall>im. 0 < img_width im \<and> 0 < img_height im \<longrightarrow> colour_image (pil_convert L im ''RGB'') \<and>
        img_mode (pil_convert L im ''RGB'') = ''RGB'' \<and>
        img_width (pil_convert L im ''RGB'') = img_width im \<and>
        img_height (pil_convert L im ''RGB'') = img_height im)"

definition PNG_MAGIC :: bytes where
  "PNG_MAGIC = [0x89, 0x50, 0x4E, 0x47, 0x0D, 0x0A, 0x1A, 0x0A]"

definition png_spec :: "lib \<Rightarrow> bool" where
  "png_spec L \<longleftrightarrow>
     (\<forall>im mx. colour_image im \<and> int (img_width im * img_height im) \<le> mx \<longrightarrow>
        take 8 (png_save L im) = PNG_MAGIC \<and>
        pil_open L mx (png_save L im) = Inr ''PNG'' \<and>
        pil_verify L mx (png_save L im) = Inr () \<and>
        pil_load L mx (png_save L im) = Inr im)"

text \<open>
  argon2-cffi: a password that can be encoded is hashed, verification accepts the hash of the
  same password and raises one of three exceptions on any other outcome.
\<close>

definition argon2_spec :: "lib \<Rightarrow> bool" where
  "argon2_spec L \<longleftrightarrow>
     (\<forall>s pw. encodable pw \<longrightarrow>
        (\<exists>h. argon2_hash L s pw = Inr h \<and> argon2_verify L h pw = Inr True)) \<and>
     (\<forall>h pw e. encodable pw \<and> argon2_verify L h pw = Inl e \<longrightarrow>
        e \<in> {VerifyMismatchError, VerificationError, InvalidHashError}) \<and>
     (\<forall>h pw b. argon2_verify L h pw = Inr b \<longrightarrow> b)"

text \<open>
  PyJWT: a token carries no surrounding white space; one made from claims like those the
  application builds (\<^verbatim>\<open>sub\<close>, \<^verbatim>\<open>role\<close>, \<^verbatim>\<open>iat\<close>, \<^verbatim>\<open>exp\<close> and
  \<^verbatim>\<open>jti\<close>; none of the others PyJWT checks, such as \<^verbatim>\<open>aud\<close> and \<^verbatim>\<open>nbf\<close>)
  decodes to them from its \<^verbatim>\<open>iat\<close> until its \<^verbatim>\<open>exp\<close> (in seconds) and is rejected from then on; what
  decodes has the required claims, \<^verbatim>\<open>sub\<close> being a string, and is not expired; every
  rejection is a \<^verbatim>\<open>PyJWTError\<close>.
\<close>

definition jwt_spec :: "lib \<Rightarrow> bool" where
  "jwt_spec L \<longleftrightarrow>
     (\<forall>c key. py_strip (jwt_encode L c key) = jwt_encode L c key) \<and>
     (\<forall>c key i x s r now. map_of c ''exp'' = Some (JInt x) \<and> map_of c ''sub'' = Some (JStr s) \<and>
        map_of c ''role'' = Some r \<and> map_of c ''iat'' = Some (JInt i) \<and> i \<le> now div 1000000 \<and>
        fst ` set c \<subseteq> {''sub'', ''role'', ''iat'', ''exp'', ''jti''} \<and>
        (\<forall>v. map_of c ''jti'' = Some v \<longrightarrow> (\<exists>j. v = JStr j)) \<longrightarrow>
        jwt_decode L (jwt_encode L c key) key now =
          (if now div 1000000 < x then Inr c else Inl PyJWTError)) \<and>
     (\<forall>tok key now c. jwt_decode L tok key now = Inr c \<longrightarrow>
        (\<exists>x s r. map_of c ''exp'' = Some (JInt x) \<and> now div 1000000 < x \<and>
           map_of c ''sub'' = Some (JStr s) \<and> map_of c ''role'' = Some r)) \<and>
     (\<forall>tok key now e. jwt_decode L tok key now = Inl e \<longrightarrow> e = PyJWTError)"

end
