(* ===== verification/Models.thy ===== *)
theory Models
  imports Runtime
begin

text \<open>
  The application's state: the settings (\<^verbatim>\<open>app/core/config.py\<close>), the rows of the three tables
  (\<^verbatim>\<open>app/db/models.py\<close>), the database session of a request (\<^verbatim>\<open>app/db/session.py\<close>)
  and the world a request runs in.

  A table is the list of its rows in insertion order (the code never asks for an order). The
  storage operations are SQLAlchemy's as the code uses them: lookup by primary key or by a unique
  column, an insert that a unique constraint may refuse with \<^verbatim>\<open>IntegrityError\<close>, the
  update and the deletion of rows. Both dialects store instants (microseconds since the epoch, in
  UTC); what they differ in is the value a loaded column has, \<open>col_dt\<close>.
\<close>

section \<open>Settings\<close>

record settings =
  app_env :: string
  database_url :: string
  redis_url :: string
  jwt_signing_key :: string
  password_min_length :: int
  password_max_length :: int
  max_failed_logins :: int
  lockout_minutes :: int
  access_token_lifetime_minutes :: int
  refresh_token_lifetime_days :: int
  max_upload_bytes :: int
  max_image_dimension :: int
  max_decoded_pixels :: int
  cfg_max_payload_bytes :: int
  stego_retention_minutes :: int
  plaintext_retention_minutes :: int
  tmp_storage_dir :: string
  log_level :: string

definition default_settings :: settings where
  "default_settings =
     \<lparr>app_env = ''local'', database_url = ''sqlite:///./steg.db'', redis_url = '''',
      jwt_signing_key = ''dev-only-insecure-key-change-me'',
      password_min_length = 12, password_max_length = 128, max_failed_logins = 10,
      lockout_minutes = 15, access_token_lifetime_minutes = 15, refresh_token_lifetime_days = 7,
      max_upload_bytes = 10 * 1024 * 1024, max_image_dimension = 4096,
      max_decoded_pixels = 16000000, cfg_max_payload_bytes = 64 * 1024,
      stego_retention_minutes = 30, plaintext_retention_minutes = 5,
      tmp_storage_dir = ''/tmp/steg-artifacts'', log_level = ''INFO''\<rparr>"

text \<open>\<^verbatim>\<open>url.startswith("sqlite")\<close>: which of the two dialects the engine is for.\<close>

definition is_sqlite :: "settings \<Rightarrow> bool" where
  "is_sqlite cfg \<longleftrightarrow> take 6 (database_url cfg) = ''sqlite''"

section \<open>Datetimes\<close>

text \<open>An instant in microseconds; a \<^verbatim>\<open>datetime\<close> with or without a time zone (always UTC).\<close>

type_synonym instant = int

datatype datetime = Naive instant | Aware instant

fun aware :: "datetime \<Rightarrow> datetime" where
  "aware (Aware t) = Aware t"
| "aware (Naive t) = Aware t"

text \<open>Comparing a naive with an aware \<^verbatim>\<open>datetime\<close> raises.\<close>

fun dt_le :: "datetime \<Rightarrow> datetime \<Rightarrow> bool res" where
  "dt_le (Aware a) (Aware b) = Inr (a \<le> b)"
| "dt_le (Naive a) (Naive b) = Inr (a \<le> b)"
| "dt_le _ _ = Inl TypeError"

definition col_dt :: "settings \<Rightarrow> instant \<Rightarrow> datetime" where
  "col_dt cfg t = (if is_sqlite cfg then Naive t else Aware t)"

lemma aware_col_dt [simp]: "aware (col_dt cfg t) = Aware t"
  by (simp add: col_dt_def)

definition minutes :: "int \<Rightarrow> int" where
  "minutes n = n * 60 * 1000000"

definition days :: "int \<Rightarrow> int" where
  "days n = n * 24 * 60 * 60 * 1000000"

section \<open>Rows\<close>

definition ROLE_USER :: string where "ROLE_USER = ''user''"
definition ROLE_ADMIN :: string where "ROLE_ADMIN = ''admin''"
definition STATUS_ACTIVE :: string where "STATUS_ACTIVE = ''active''"
definition STATUS_DISABLED :: string where "STATUS_DISABLED = ''disabled''"
definition JOB_EMBED :: string where "JOB_EMBED = ''EMBED''"
definition JOB_EXTRACT :: string where "JOB_EXTRACT = ''EXTRACT''"
definition JOB_VERIFY :: string where "JOB_VERIFY = ''VERIFY''"
definition JOB_PENDING :: string where "JOB_PENDING = ''PENDING''"
definition JOB_SUCCEEDED :: string where "JOB_SUCCEEDED = ''SUCCEEDED''"

lemma constants_distinct [simp]:
  "ROLE_USER \<noteq> ROLE_ADMIN" "ROLE_ADMIN \<noteq> ROLE_USER"
  "STATUS_ACTIVE \<noteq> STATUS_DISABLED" "STATUS_DISABLED \<noteq> STATUS_ACTIVE"
  by (simp_all add: ROLE_USER_def ROLE_ADMIN_def STATUS_ACTIVE_def STATUS_DISABLED_def)

record user =
  u_id :: uuid
  u_email :: string
  u_password_hash :: string
  u_role :: string
  u_status :: string
  u_mfa_enabled :: bool
  u_mfa_secret_encrypted :: "string option"
  u_created_at :: instant
  u_updated_at :: instant
  u_last_login_at :: "instant option"
  u_failed_login_count :: int
  u_locked_until :: "instant option"

record session =
  s_id :: uuid
  s_user_id :: uuid
  s_hash :: string
  s_family :: uuid
  s_issued_at :: instant
  s_expires_at :: instant
  s_revoked_at :: "instant option"
  s_replaced_by :: "uuid option"
  s_user_agent :: "string option"
  s_ip_hash :: "string option"

record job =
  j_id :: uuid
  j_user_id :: uuid
  j_type :: string
  j_status :: string
  j_source_filename_hash :: "string option"
  j_input_size :: "int option"
  j_output_size :: "int option"
  j_payload_size :: "int option"
  j_capacity_utilization :: "int option"
  j_algorithm_version :: "int option"
  j_artifact_storage_key :: "string option"
  j_artifact_checksum :: "string option"
  j_processing_time_ms :: "int option"
  j_created_at :: instant
  j_expires_at :: "instant option"
  j_deleted_at :: "instant option"
  j_failure_category :: "string option"

section \<open>Column lengths\<close>

text \<open>
  The declared lengths of the \<^verbatim>\<open>String\<close> columns. SQLite does not enforce them;
  PostgreSQL refuses a longer value with an error that no handler expects.
\<close>

definition within :: "nat \<Rightarrow> string option \<Rightarrow> bool" where
  "within n column \<longleftrightarrow> (case column of None \<Rightarrow> True | Some s \<Rightarrow> length s \<le> n)"

lemma within_simps [simp]: "within n None" "within n (Some s) \<longleftrightarrow> length s \<le> n"
  by (simp_all add: within_def)

definition user_fits :: "user \<Rightarrow> bool" where
  "user_fits u \<longleftrightarrow>
     length (u_email u) \<le> 320 \<and> length (u_password_hash u) \<le> 255 \<and> length (u_role u) \<le> 16 \<and>
     length (u_status u) \<le> 16 \<and> within 512 (u_mfa_secret_encrypted u)"

definition session_fits :: "session \<Rightarrow> bool" where
  "session_fits s \<longleftrightarrow>
     length (s_hash s) \<le> 64 \<and> within 256 (s_user_agent s) \<and> within 64 (s_ip_hash s)"

definition job_fits :: "job \<Rightarrow> bool" where
  "job_fits j \<longleftrightarrow>
     length (j_type j) \<le> 16 \<and> length (j_status j) \<le> 16 \<and> within 64 (j_source_filename_hash j) \<and>
     within 128 (j_artifact_storage_key j) \<and> within 64 (j_artifact_checksum j) \<and>
     within 32 (j_failure_category j)"

text \<open>What the columns rely on: SHA-256 digests have 32 bytes, and argon2-cffi's encoded hashes at
  most 255 characters.\<close>

definition columns_spec :: "lib \<Rightarrow> bool" where
  "columns_spec L \<longleftrightarrow>
     (\<forall>bs. length (sha256 L bs) = 32) \<and> (\<forall>salt pw h. argon2_hash L salt pw = Inr h \<longrightarrow> length h \<le> 255)"

lemma length_hexdigest: "columns_spec L \<Longrightarrow> length (hexdigest (sha256 L bs)) = 64"
proof -
  have "length (hexdigest xs) = 2 * length xs" for xs
    by (induction xs) (simp_all add: hexdigest_def hex_digits_2)
  then show "columns_spec L \<Longrightarrow> ?thesis" by (simp add: columns_spec_def)
qed

section \<open>Tables\<close>

definition row_get :: "('r \<Rightarrow> 'k) \<Rightarrow> 'k \<Rightarrow> 'r list \<Rightarrow> 'r option" where
  "row_get key k rows = find (\<lambda>r. key r = k) rows"

definition row_insert :: "('r \<Rightarrow> 'k) \<Rightarrow> ('r \<Rightarrow> 'u) \<Rightarrow> 'r \<Rightarrow> 'r list \<Rightarrow> 'r list res" where
  "row_insert key uniq r rows =
     (if key r \<in> key ` set rows \<or> uniq r \<in> uniq ` set rows
      then Inl IntegrityError else Inr (rows @ [r]))"

definition row_update :: "('r \<Rightarrow> 'k) \<Rightarrow> 'r \<Rightarrow> 'r list \<Rightarrow> 'r list" where
  "row_update key r rows = map (\<lambda>x. if key x = key r then r else x) rows"

definition row_wf :: "('r \<Rightarrow> 'k) \<Rightarrow> ('r \<Rightarrow> 'u) \<Rightarrow> 'r list \<Rightarrow> bool" where
  "row_wf key uniq rows \<longleftrightarrow> distinct (map key rows) \<and> distinct (map uniq rows)"

text \<open>
  What the code relies on when it reads and writes a table: the primary key and one further
  unique column.
\<close>

locale keyed_table =
  fixes key :: "'r \<Rightarrow> 'k" and uniq :: "'r \<Rightarrow> 'u"
    and get :: "'k \<Rightarrow> 't \<Rightarrow> 'r option" and lookup :: "'u \<Rightarrow> 't \<Rightarrow> 'r option"
    and insert :: "'r \<Rightarrow> 't \<Rightarrow> 't res" and update :: "'r \<Rightarrow> 't \<Rightarrow> 't" and wf :: "'t \<Rightarrow> bool"
  assumes get_key: "get k t = Some r \<Longrightarrow> key r = k"
    and lookup_uniq: "lookup u t = Some r \<Longrightarrow> uniq r = u"
    and lookup_iff_get: "wf t \<Longrightarrow> lookup (uniq r) t = Some r \<longleftrightarrow> get (key r) t = Some r"
    and insert_outcome: "insert r t = Inl e \<Longrightarrow>
        e = IntegrityError \<and> (get (key r) t \<noteq> None \<or> lookup (uniq r) t \<noteq> None)"
    and insert_fresh: "insert r t = Inr t' \<Longrightarrow> get (key r) t = None \<and> lookup (uniq r) t = None"
    and insert_wf: "wf t \<Longrightarrow> insert r t = Inr t' \<Longrightarrow> wf t'"
    and insert_get: "insert r t = Inr t' \<Longrightarrow> get k t' = (if k = key r then Some r else get k t)"
    and update_wf: "wf t \<Longrightarrow> get (key r) t = Some r0 \<Longrightarrow> uniq r = uniq r0 \<Longrightarrow> wf (update r t)"
    and update_get: "get k (update r t) = (if k = key r \<and> get k t \<noteq> None then Some r else get k t)"
begin

lemma lookup_get: "wf t \<Longrightarrow> lookup u t = Some r \<Longrightarrow> get (key r) t = Some r"
  using lookup_uniq lookup_iff_get by metis

lemma insert_lookup: "wf t \<Longrightarrow> insert r t = Inr t' \<Longrightarrow> lookup (uniq r) t' = Some r"
  by (simp add: insert_get insert_wf lookup_iff_get)

lemma insert_lookup_all:
  assumes "wf t" "insert r t = Inr t'"
  shows "lookup u t' = (if u = uniq r then Some r else lookup u t)"
proof -
  have "lookup u t' = Some x \<longleftrightarrow> (if u = uniq r then Some r else lookup u t) = Some x" for x
  proof (cases "u = uniq x")
    case True
    have "get (key r) t = None" "lookup (uniq r) t = None" using insert_fresh [OF assms(2)] by auto
    then show ?thesis
      using True lookup_iff_get [OF assms(1), of x] lookup_iff_get [OF insert_wf [OF assms], of x]
        insert_get [OF assms(2), of "key x"] by (auto dest: get_key)
  qed (use lookup_uniq [of u _ x] insert_lookup [OF assms] in \<open>auto split: if_splits\<close>)
  then show ?thesis by (metis not_None_eq)
qed

lemma update_lookup:
  assumes "wf t" "get (key r) t = Some r0" "uniq r = uniq r0"
  shows "lookup u (update r t) = (if u = uniq r then Some r else lookup u t)"
proof -
  have "lookup u (update r t) = Some x \<longleftrightarrow> (if u = uniq r then Some r else lookup u t) = Some x" for x
  proof (cases "u = uniq x")
    case True
    have r0: "key r0 = key r" "lookup (uniq r) t = Some r0"
      using get_key [OF assms(2)] lookup_iff_get [OF assms(1), of r0] assms(2,3) by auto
    have new: "lookup (uniq x) (update r t) = Some x \<longleftrightarrow> get (key x) (update r t) = Some x"
      and old: "lookup (uniq x) t = Some x \<longleftrightarrow> get (key x) t = Some x"
      using lookup_iff_get update_wf [OF assms] assms(1) by blast+
    show ?thesis
    proof (cases "key x = key r")
      case True
      then have "get (key x) (update r t) = Some r" "get (key x) t = Some r0"
        using assms(2) by (simp_all add: update_get)
      then show ?thesis using new old \<open>u = uniq x\<close> assms(3) by auto
    next
      case False
      then show ?thesis using new old \<open>u = uniq x\<close> r0 by (auto simp: update_get)
    qed
  qed (use lookup_uniq [of u _ x] in \<open>auto split: if_splits\<close>)
  then show ?thesis by (metis not_None_eq)
qed

text \<open>Insert a row, then rewrite an older one without touching its unique column: both are found
  by either key, every other row is as before.\<close>

lemma insert_update:
  assumes "wf t" "get (key r) t = Some r0" "uniq r = uniq r0" "insert n t = Inr t'"
  shows "wf (update r t')" "get (key n) (update r t') = Some n" "get (key r) (update r t') = Some r"
    "lookup (uniq n) (update r t') = Some n" "lookup (uniq r) (update r t') = Some r"
    "k \<noteq> key n \<Longrightarrow> k \<noteq> key r \<Longrightarrow> get k (update r t') = get k t"
proof -
  have ne: "key n \<noteq> key r" using insert_fresh [OF assms(4)] assms(2) by auto
  have t': "wf t'" "get (key r) t' = Some r0"
    using assms insert_wf insert_get ne by auto
  then show wf: "wf (update r t')" using update_wf assms(3) by blast
  show n: "get (key n) (update r t') = Some n"
    using ne by (simp add: update_get insert_get [OF assms(4)])
  show r: "get (key r) (update r t') = Some r" using t' by (simp add: update_get)
  show "lookup (uniq n) (update r t') = Some n" using n by (simp add: lookup_iff_get wf)
  show "lookup (uniq r) (update r t') = Some r" using r by (simp add: lookup_iff_get wf)
  show "k \<noteq> key n \<Longrightarrow> k \<noteq> key r \<Longrightarrow> get k (update r t') = get k t"
    by (simp add: update_get insert_get [OF assms(4)])
qed

end

lemma find_key_iff: "distinct (map key rows) \<Longrightarrow>
    find (\<lambda>x. key x = k) rows = Some r \<longleftrightarrow> r \<in> set rows \<and> key r = k"
  by (induction rows) (auto simp: image_iff)

lemma find_None_iff_key: "find (\<lambda>x. key x = k) rows = None \<longleftrightarrow> k \<notin> key ` set rows"
  by (auto simp: find_None_iff)

lemma row_update_key: "map key (row_update key r rows) = map key rows"
  by (auto simp: row_update_def)

lemma row_update_get:
  "row_get key k (row_update key r rows) =
     (if k = key r \<and> row_get key k rows \<noteq> None then Some r else row_get key k rows)"
  by (induction rows) (auto simp: row_get_def row_update_def)

lemma row_update_uniq:
  assumes "distinct (map key rows)" "row_get key (key r) rows = Some r0" "uniq r = uniq r0"
  shows "map uniq (row_update key r rows) = map uniq rows"
proof -
  have r0: "r0 \<in> set rows" "key r0 = key r"
    using assms by (auto simp: row_get_def find_key_iff)
  have "uniq x = uniq r" if "x \<in> set rows" "key x = key r" for x
    using inj_onD [of key "set rows" x r0] that r0 assms(1,3) by (simp add: distinct_map)
  then show ?thesis by (auto simp: row_update_def)
qed

lemma row_get_append:
  "row_get key k (rows @ [r]) =
     (case row_get key k rows of Some x \<Rightarrow> Some x | None \<Rightarrow> if k = key r then Some r else None)"
  by (induction rows) (auto simp: row_get_def)

lemma rows_keyed_table:
  "keyed_table key uniq (row_get key) (row_get uniq) (row_insert key uniq) (row_update key)
     (row_wf key uniq)"
proof
  show "row_get key k t = Some r \<Longrightarrow> key r = k" for k t r
    by (auto simp: row_get_def find_Some_iff)
  show "row_get uniq k t = Some r \<Longrightarrow> uniq r = k" for k t r
    by (auto simp: row_get_def find_Some_iff)
  show "row_get uniq (uniq r) t = Some r \<longleftrightarrow> row_get key (key r) t = Some r"
    if "row_wf key uniq t" for r t
    using that by (simp add: row_wf_def row_get_def find_key_iff)
  show "e = IntegrityError \<and> (row_get key (key r) t \<noteq> None \<or> row_get uniq (uniq r) t \<noteq> None)"
    if "row_insert key uniq r t = Inl e" for r t e
    using that unfolding row_insert_def row_get_def find_None_iff_key by (auto split: if_splits)
  show "row_get key (key r) t = None \<and> row_get uniq (uniq r) t = None"
    if "row_insert key uniq r t = Inr t'" for r t t'
    using that unfolding row_insert_def row_get_def find_None_iff_key by (auto split: if_splits)
  show "row_wf key uniq t'" if "row_wf key uniq t" "row_insert key uniq r t = Inr t'" for r t t'
    using that by (auto simp: row_wf_def row_insert_def split: if_splits)
  show "row_get key k t' = (if k = key r then Some r else row_get key k t)"
    if "row_insert key uniq r t = Inr t'" for r t t' k
    using that find_None_iff_key [of key "key r" t]
    by (auto simp: row_insert_def row_get_append split: if_splits option.split)
      (simp_all add: row_get_def)
  show "row_wf key uniq (row_update key r t)"
    if "row_wf key uniq t" "row_get key (key r) t = Some r0" "uniq r = uniq r0" for r t r0
    using that row_update_uniq [of key t r r0 uniq] by (simp add: row_wf_def row_update_key)
  show "row_get key k (row_update key r t) =
      (if k = key r \<and> row_get key k t \<noteq> None then Some r else row_get key k t)" for k r t
    by (rule row_update_get)
qed

interpretation users: keyed_table u_id u_email "row_get u_id" "row_get u_email"
  "row_insert u_id u_email" "row_update u_id" "row_wf u_id u_email"
  by (rule rows_keyed_table)

interpretation sessions: keyed_table s_id s_hash "row_get s_id" "row_get s_hash"
  "row_insert s_id s_hash" "row_update s_id" "row_wf s_id s_hash"
  by (rule rows_keyed_table)

interpretation jobs: keyed_table j_id j_id "row_get j_id" "row_get j_id"
  "row_insert j_id j_id" "row_update j_id" "row_wf j_id j_id"
  by (rule rows_keyed_table)

end
