(* ===== verification/World.thy ===== *)
theory World
  imports Models
begin

text \<open>
  The world a request runs in and its effects: the database session of the request and what is
  committed (\<^verbatim>\<open>app/db/session.py\<close>), the process-wide metric counters
  (\<^verbatim>\<open>app/core/metrics.py\<close>), the clocks, the operating system's entropy and Pillow's
  decompression-bomb limit. \<open>with_db\<close> is a request's life cycle; \<open>safe\<close> and the locale
  \<open>table_order\<close> are how properties of single storage operations carry over to whole requests.
\<close>

section \<open>The world\<close>

record tables =
  t_users :: "user list"
  t_sessions :: "session list"
  t_jobs :: "job list"

text \<open>
  \<open>db\<close> is what the request's transaction sees, \<open>disk\<close> what is committed. \<open>wall\<close> and
  \<open>perf\<close> are the readings of \<^verbatim>\<open>datetime.now\<close> (microseconds) and
  \<^verbatim>\<open>time.perf_counter\<close> (nanoseconds), numbered by \<open>ticks\<close>.
\<close>

record world =
  db :: tables
  disk :: tables
  counters :: "string \<Rightarrow> int option"
  wall :: "nat \<Rightarrow> instant"
  perf :: "nat \<Rightarrow> int"
  ticks :: nat
  rnd :: entropy
  bomb_limit :: int

definition now :: "(world, instant) py" where
  "now w = (Inr (wall w (ticks w)), w\<lparr>ticks := Suc (ticks w)\<rparr>)"

definition perf_counter :: "(world, int) py" where
  "perf_counter w = (Inr (perf w (ticks w)), w\<lparr>ticks := Suc (ticks w)\<rparr>)"

definition on_entropy :: "(entropy, 'a) py \<Rightarrow> (world, 'a) py" where
  "on_entropy m w = (case m (rnd w) of (r, E) \<Rightarrow> (r, w\<lparr>rnd := E\<rparr>))"

definition on_limit :: "(int, 'a) py \<Rightarrow> (world, 'a) py" where
  "on_limit m w = (case m (bomb_limit w) of (r, l) \<Rightarrow> (r, w\<lparr>bomb_limit := l\<rparr>))"

text \<open>\<^verbatim>\<open>uuid.uuid4()\<close>: 16 random bytes with the variant and version bits set.\<close>

unbundle bit_operations_syntax

definition uuid4_of :: "bytes \<Rightarrow> uuid" where
  "uuid4_of bs =
     (let w = word_of_nat (be_nat bs) :: 128 word;
          v = (w AND NOT (push_bit 48 0xC000)) OR push_bit 48 0x8000
      in unat ((v AND NOT (push_bit 64 0xF000)) OR push_bit 76 4))"

definition uuid4 :: "(world, uuid) py" where
  "uuid4 = bindM (on_entropy (urandom 16)) (\<lambda>bs. ret (uuid4_of bs))"

lemma uuid4_of_lt: "uuid4_of bs < 2 ^ 128"
  unfolding uuid4_of_def Let_def by (rule order_less_le_trans [OF unsigned_less]) simp

text \<open>The version field makes every generated identifier large.\<close>

lemma uuid4_of_large: "2 ^ 78 \<le> uuid4_of bs"
proof -
  have "bit (uuid4_of bs) 78"
    by (simp add: uuid4_of_def Let_def bit_simps bit_unsigned_iff)
  then have "uuid4_of bs div 2 ^ 78 \<noteq> 0" by (metis bit_iff_odd even_zero)
  then show ?thesis by (metis div_less not_le)
qed

lemma small_not_uuid4: "n < 2 ^ 78 \<Longrightarrow> uuid4_of bs \<noteq> n"
  using uuid4_of_large [of bs] by linarith

section \<open>Metrics\<close>

definition LOGIN_FAILURE :: string where "LOGIN_FAILURE = ''login_failure_count''"
definition AUTHORIZATION_DENIAL :: string where
  "AUTHORIZATION_DENIAL = ''authorization_denial_count''"
definition REFRESH_REPLAY :: string where "REFRESH_REPLAY = ''refresh_token_replay_count''"
definition INVALID_UPLOAD :: string where "INVALID_UPLOAD = ''invalid_upload_count''"
definition CRYPTO_AUTH_FAILURE :: string where
  "CRYPTO_AUTH_FAILURE = ''crypto_authentication_failure_count''"
definition EMBED_JOB :: string where "EMBED_JOB = ''embed_job_count''"
definition EXTRACT_JOB :: string where "EXTRACT_JOB = ''extract_job_count''"
definition VERIFY_JOB :: string where "VERIFY_JOB = ''verify_job_count''"

text \<open>The counters are a \<^verbatim>\<open>defaultdict(int)\<close>: reading a missing one creates it.\<close>

definition counter :: "string \<Rightarrow> world \<Rightarrow> int" where
  "counter name w = (case counters w name of Some n \<Rightarrow> n | None \<Rightarrow> 0)"

definition increment :: "string \<Rightarrow> int \<Rightarrow> (world, unit) py" where
  "increment name amount =
     modify (\<lambda>w. w\<lparr>counters := (counters w)(name \<mapsto> counter name w + amount)\<rparr>)"

definition get_metric :: "string \<Rightarrow> (world, int) py" where
  "get_metric name =
     bindM (gets (counter name)) (\<lambda>n.
     thenM (modify (\<lambda>w. w\<lparr>counters := (counters w)(name \<mapsto> n)\<rparr>)) (ret n))"

definition snapshot :: "(world, string \<Rightarrow> int option) py" where
  "snapshot = gets counters"

definition reset :: "(world, unit) py" where
  "reset = modify (\<lambda>w. w\<lparr>counters := (\<lambda>_. None)\<rparr>)"

section \<open>The database session\<close>

text \<open>
  \<^verbatim>\<open>get_db\<close>: the session starts from what is committed and is closed in a
  \<^verbatim>\<open>finally\<close>, which rolls back what was not committed.
\<close>

definition with_db :: "(world, 'a) py \<Rightarrow> (world, 'a) py" where
  "with_db m =
     finallyM (thenM (modify (\<lambda>w. w\<lparr>db := disk w\<rparr>)) m) (\<lambda>w. w\<lparr>db := disk w\<rparr>)"

definition commit :: "(world, unit) py" where
  "commit = modify (\<lambda>w. w\<lparr>disk := db w\<rparr>)"

text \<open>A table operation on the session's view.\<close>

definition with_tables :: "(tables \<Rightarrow> tables res) \<Rightarrow> (world, unit) py" where
  "with_tables f w =
     (case f (db w) of Inl e \<Rightarrow> (Inl e, w) | Inr t \<Rightarrow> (Inr (), w\<lparr>db := t\<rparr>))"

definition find_user_by_email :: "string \<Rightarrow> (world, user option) py" where
  "find_user_by_email email = gets (\<lambda>w. row_get u_email email (t_users (db w)))"

definition get_user :: "uuid \<Rightarrow> (world, user option) py" where
  "get_user i = gets (\<lambda>w. row_get u_id i (t_users (db w)))"

definition find_session_by_hash :: "string \<Rightarrow> (world, session option) py" where
  "find_session_by_hash h = gets (\<lambda>w. row_get s_hash h (t_sessions (db w)))"

definition get_session :: "uuid \<Rightarrow> (world, session option) py" where
  "get_session i = gets (\<lambda>w. row_get s_id i (t_sessions (db w)))"

definition get_job_row :: "uuid \<Rightarrow> (world, job option) py" where
  "get_job_row i = gets (\<lambda>w. row_get j_id i (t_jobs (db w)))"

text \<open>
  \<^verbatim>\<open>db.add(row)\<close> and the flush that inserts it. The column defaults
  (\<^verbatim>\<open>_uuid\<close>, \<^verbatim>\<open>_now\<close>) are evaluated in column order at the flush.
\<close>

definition insert_user :: "(uuid \<Rightarrow> instant \<Rightarrow> instant \<Rightarrow> user) \<Rightarrow> (world, user) py" where
  "insert_user mk =
     bindM uuid4 (\<lambda>i. bindM now (\<lambda>created. bindM now (\<lambda>updated.
       let u = mk i created updated in
       thenM (with_tables (\<lambda>t.
                bindR (row_insert u_id u_email u (t_users t)) (\<lambda>us. Inr (t\<lparr>t_users := us\<rparr>))))
             (ret u))))"

definition insert_session :: "(uuid \<Rightarrow> session) \<Rightarrow> (world, session) py" where
  "insert_session mk =
     bindM uuid4 (\<lambda>i.
       let s = mk i in
       thenM (with_tables (\<lambda>t.
                bindR (row_insert s_id s_hash s (t_sessions t)) (\<lambda>ss. Inr (t\<lparr>t_sessions := ss\<rparr>))))
             (ret s))"

definition insert_job :: "(uuid \<Rightarrow> instant \<Rightarrow> job) \<Rightarrow> (world, job) py" where
  "insert_job mk =
     bindM uuid4 (\<lambda>i. bindM now (\<lambda>created.
       let j = mk i created in
       thenM (with_tables (\<lambda>t.
                bindR (row_insert j_id j_id j (t_jobs t)) (\<lambda>js. Inr (t\<lparr>t_jobs := js\<rparr>))))
             (ret j)))"

text \<open>
  Assignments to the attributes of a loaded row and the flush that writes them: the row with this
  id changes, and a user's \<^verbatim>\<open>updated_at\<close> is stamped (\<^verbatim>\<open>onupdate=_now\<close>) if
  the row is really different.
\<close>

definition modify_row :: "('r \<Rightarrow> uuid) \<Rightarrow> uuid \<Rightarrow> ('r \<Rightarrow> 'r) \<Rightarrow> 'r list \<Rightarrow> 'r list" where
  "modify_row key i f rows =
     (case row_get key i rows of None \<Rightarrow> rows | Some r \<Rightarrow> row_update key (f r) rows)"

definition update_user :: "uuid \<Rightarrow> (user \<Rightarrow> user) \<Rightarrow> (world, unit) py" where
  "update_user i f =
     bindM (get_user i) (\<lambda>u.
       if map_option f u = u then skip
       else bindM now (\<lambda>n. modify (\<lambda>w. w\<lparr>db := (db w)\<lparr>t_users :=
              modify_row u_id i (\<lambda>r. (f r)\<lparr>u_updated_at := n\<rparr>) (t_users (db w))\<rparr>\<rparr>)))"

definition update_session :: "uuid \<Rightarrow> (session \<Rightarrow> session) \<Rightarrow> (world, unit) py" where
  "update_session i f =
     modify (\<lambda>w. w\<lparr>db := (db w)\<lparr>t_sessions := modify_row s_id i f (t_sessions (db w))\<rparr>\<rparr>)"

definition update_job :: "uuid \<Rightarrow> (job \<Rightarrow> job) \<Rightarrow> (world, unit) py" where
  "update_job i f =
     modify (\<lambda>w. w\<lparr>db := (db w)\<lparr>t_jobs := modify_row j_id i f (t_jobs (db w))\<rparr>\<rparr>)"

text \<open>
  \<^verbatim>\<open>db.delete(user)\<close>: the relationships' \<^verbatim>\<open>cascade="all, delete-orphan"\<close>
  deletes the user's sessions and jobs with the row.
\<close>

definition drop_user :: "uuid \<Rightarrow> tables \<Rightarrow> tables" where
  "drop_user i t =
     t\<lparr>t_users := filter (\<lambda>u. u_id u \<noteq> i) (t_users t),
       t_sessions := filter (\<lambda>s. s_user_id s \<noteq> i) (t_sessions t),
       t_jobs := filter (\<lambda>j. j_user_id j \<noteq> i) (t_jobs t)\<rparr>"

definition delete_user :: "uuid \<Rightarrow> (world, unit) py" where
  "delete_user i = modify (\<lambda>w. w\<lparr>db := drop_user i (db w)\<rparr>)"

section \<open>Carrying properties of storage operations to requests\<close>

text \<open>
  \<open>D base t\<close> is a relation between the committed tables a request starts from and later
  ones. \<open>safe D m\<close>: running \<open>m\<close> keeps both the session's view and the committed tables
  related to the start. \<open>readonly m\<close>: \<open>m\<close> changes neither.
\<close>

definition keeps :: "('s \<Rightarrow> bool) \<Rightarrow> ('s, 'a) py \<Rightarrow> bool" where
  "keeps P m \<longleftrightarrow> (\<forall>w. P w \<longrightarrow> P (snd (m w)))"

definition safe :: "(tables \<Rightarrow> tables \<Rightarrow> bool) \<Rightarrow> (world, 'a) py \<Rightarrow> bool" where
  "safe D m \<longleftrightarrow> (\<forall>base. keeps (\<lambda>w. D base (db w) \<and> D base (disk w)) m)"

definition readonly :: "(world, 'a) py \<Rightarrow> bool" where
  "readonly m \<longleftrightarrow> (\<forall>a b. keeps (\<lambda>w. db w = a \<and> disk w = b) m)"

named_theorems safe_rules \<open>structural rules for safe\<close>
named_theorems readonly_rules \<open>structural rules for readonly\<close>

lemma keeps_bind:
  assumes "keeps P m" "\<And>x. keeps P (f x)" shows "keeps P (bindM m f)"
  unfolding keeps_def
proof (intro allI impI)
  fix w assume "P w"
  obtain r w' where m: "m w = (r, w')" by (cases "m w")
  then have "P w'" using assms(1) \<open>P w\<close> by (force simp: keeps_def)
  then show "P (snd (bindM m f w))"
    using assms(2) m by (cases r) (simp_all add: keeps_def bindM_def)
qed

lemma keeps_catch:
  assumes "keeps P m" "\<And>e. keeps P (h e)" shows "keeps P (catchM m h)"
  unfolding keeps_def
proof (intro allI impI)
  fix w assume "P w"
  obtain r w' where m: "m w = (r, w')" by (cases "m w")
  then have "P w'" using assms(1) \<open>P w\<close> by (force simp: keeps_def)
  then show "P (snd (catchM m h w))"
    using assms(2) m by (cases r) (simp_all add: keeps_def catchM_def)
qed

lemma readonlyD: "readonly m \<Longrightarrow> db (snd (m w)) = db w \<and> disk (snd (m w)) = disk w"
  by (simp add: readonly_def keeps_def)

lemma readonlyI: "(\<And>w. db (snd (m w)) = db w \<and> disk (snd (m w)) = disk w) \<Longrightarrow> readonly m"
  by (simp add: readonly_def keeps_def)

lemma readonly_safe: "readonly m \<Longrightarrow> safe D m"
  by (simp add: safe_def keeps_def readonlyD)

lemma safe_bind [safe_rules]: "safe D m \<Longrightarrow> (\<And>x. safe D (f x)) \<Longrightarrow> safe D (bindM m f)"
  unfolding safe_def by (blast intro: keeps_bind)

lemma safe_then [safe_rules]: "safe D m \<Longrightarrow> safe D k \<Longrightarrow> safe D (thenM m k)"
  unfolding thenM_def by (rule safe_bind)

lemma safe_catch [safe_rules]: "safe D m \<Longrightarrow> (\<And>e. safe D (h e)) \<Longrightarrow> safe D (catchM m h)"
  unfolding safe_def by (blast intro: keeps_catch)

lemma safe_if [safe_rules]: "safe D m \<Longrightarrow> safe D n \<Longrightarrow> safe D (if b then m else n)"
  by simp

lemma safe_option [safe_rules]:
  "safe D m \<Longrightarrow> (\<And>x. safe D (g x)) \<Longrightarrow> safe D (case y of None \<Rightarrow> m | Some x \<Rightarrow> g x)"
  by (cases y) simp_all

lemma safe_sum [safe_rules]:
  "(\<And>e. safe D (h e)) \<Longrightarrow> (\<And>x. safe D (k x)) \<Longrightarrow> safe D (case r of Inl e \<Rightarrow> h e | Inr x \<Rightarrow> k x)"
  by (cases r) simp_all

lemma safe_pair [safe_rules]:
  "(\<And>a b. safe D (p a b)) \<Longrightarrow> safe D (case q of (a, b) \<Rightarrow> p a b)"
  by (cases q) simp

lemma safe_let [safe_rules]: "safe D (l z) \<Longrightarrow> safe D (Let z l)"
  by simp

lemma safe_when [safe_rules]: "safe D u \<Longrightarrow> safe D (whenM b u)"
  by (simp add: whenM_def readonly_safe readonlyI)

lemma safe_commit [safe_rules]: "safe D commit"
  by (simp add: safe_def keeps_def commit_def)

lemma readonly_bind [readonly_rules]:
  "readonly m \<Longrightarrow> (\<And>x. readonly (f x)) \<Longrightarrow> readonly (bindM m f)"
  unfolding readonly_def by (blast intro: keeps_bind)

lemma readonly_then [readonly_rules]: "readonly m \<Longrightarrow> readonly k \<Longrightarrow> readonly (thenM m k)"
  unfolding thenM_def by (rule readonly_bind)

lemma readonly_catch [readonly_rules]:
  "readonly m \<Longrightarrow> (\<And>e. readonly (h e)) \<Longrightarrow> readonly (catchM m h)"
  unfolding readonly_def by (blast intro: keeps_catch)

lemma readonly_if [readonly_rules]: "readonly m \<Longrightarrow> readonly n \<Longrightarrow> readonly (if b then m else n)"
  by simp

lemma readonly_option [readonly_rules]:
  "readonly m \<Longrightarrow> (\<And>x. readonly (g x)) \<Longrightarrow> readonly (case y of None \<Rightarrow> m | Some x \<Rightarrow> g x)"
  by (cases y) simp_all

lemma readonly_sum [readonly_rules]:
  "(\<And>e. readonly (h e)) \<Longrightarrow> (\<And>x. readonly (k x)) \<Longrightarrow>
     readonly (case r of Inl e \<Rightarrow> h e | Inr x \<Rightarrow> k x)"
  by (cases r) simp_all

lemma readonly_let [readonly_rules]: "readonly (l z) \<Longrightarrow> readonly (Let z l)"
  by simp

lemma readonly_when [readonly_rules]: "readonly u \<Longrightarrow> readonly (whenM b u)"
  by (simp add: whenM_def readonlyI)

lemma readonly_prims [readonly_rules]:
  "readonly (ret x)" "readonly (raise e)" "readonly (liftR r)" "readonly (gets g)" "readonly skip"
  "readonly now" "readonly perf_counter" "readonly (on_entropy m)" "readonly (on_limit l)"
  "readonly (increment c a)" "readonly (get_metric c)" "readonly snapshot" "readonly reset"
  by (rule readonlyI, simp add: now_def perf_counter_def on_entropy_def on_limit_def
      increment_def get_metric_def snapshot_def reset_def bindM_def thenM_def split: prod.split)+

lemma readonly_uuid4 [readonly_rules]: "readonly uuid4"
  unfolding uuid4_def by (intro readonly_rules)

lemma readonly_queries [readonly_rules]:
  "readonly (find_user_by_email a)" "readonly (get_user i)" "readonly (find_session_by_hash h)"
  "readonly (get_session i)" "readonly (get_job_row i)"
  by (simp_all add: find_user_by_email_def get_user_def find_session_by_hash_def get_session_def
      get_job_row_def readonly_prims)

lemmas safe_prims [safe_rules] = readonly_prims [THEN readonly_safe]
  readonly_queries [THEN readonly_safe] readonly_uuid4 [THEN readonly_safe]

lemma with_db_run:
  "with_db m w = (fst (m (w\<lparr>db := disk w\<rparr>)),
     (snd (m (w\<lparr>db := disk w\<rparr>)))\<lparr>db := disk (snd (m (w\<lparr>db := disk w\<rparr>)))\<rparr>)"
  by (simp add: with_db_def py_simps split: prod.split)

locale table_order =
  fixes D :: "tables \<Rightarrow> tables \<Rightarrow> bool"
  assumes refl: "D t t" and trans: "D a b \<Longrightarrow> D b c \<Longrightarrow> D a c"
begin

lemma safe_modify: "(\<And>t. D t (f t)) \<Longrightarrow> safe D (modify (\<lambda>w. w\<lparr>db := f (db w)\<rparr>))"
  unfolding safe_def keeps_def using trans by auto

lemma safe_with_tables: "(\<And>t t'. f t = Inr t' \<Longrightarrow> D t t') \<Longrightarrow> safe D (with_tables f)"
  unfolding safe_def keeps_def with_tables_def using trans by (auto split: sum.split)

lemma safe_insert_user:
  assumes "\<And>i c n t us. row_insert u_id u_email (mk i c n) (t_users t) = Inr us \<Longrightarrow>
      D t (t\<lparr>t_users := us\<rparr>)"
  shows "safe D (insert_user mk)"
  unfolding insert_user_def
  by (intro safe_rules safe_with_tables) (use assms in \<open>auto simp: bindR_Inr_iff\<close>)

lemma safe_insert_session:
  assumes "\<And>i t ss. row_insert s_id s_hash (mk i) (t_sessions t) = Inr ss \<Longrightarrow>
      D t (t\<lparr>t_sessions := ss\<rparr>)"
  shows "safe D (insert_session mk)"
  unfolding insert_session_def
  by (intro safe_rules safe_with_tables) (use assms in \<open>auto simp: bindR_Inr_iff\<close>)

lemma safe_insert_job:
  assumes "\<And>i c t js. row_insert j_id j_id (mk i c) (t_jobs t) = Inr js \<Longrightarrow>
      D t (t\<lparr>t_jobs := js\<rparr>)"
  shows "safe D (insert_job mk)"
  unfolding insert_job_def
  by (intro safe_rules safe_with_tables) (use assms in \<open>auto simp: bindR_Inr_iff\<close>)

lemma safe_update_user:
  assumes "\<And>n t. D t (t\<lparr>t_users := modify_row u_id i (\<lambda>r. (f r)\<lparr>u_updated_at := n\<rparr>) (t_users t)\<rparr>)"
  shows "safe D (update_user i f)"
  unfolding update_user_def using assms by (intro safe_rules safe_modify)

lemma safe_update_session:
  assumes "\<And>t. D t (t\<lparr>t_sessions := modify_row s_id i f (t_sessions t)\<rparr>)"
  shows "safe D (update_session i f)"
  unfolding update_session_def using assms by (intro safe_modify)

lemma safe_update_job:
  assumes "\<And>t. D t (t\<lparr>t_jobs := modify_row j_id i f (t_jobs t)\<rparr>)"
  shows "safe D (update_job i f)"
  unfolding update_job_def using assms by (intro safe_modify)

lemma safe_delete_user: "(\<And>t. D t (drop_user i t)) \<Longrightarrow> safe D (delete_user i)"
  unfolding delete_user_def by (rule safe_modify)

text \<open>A whole request: whatever it does, its commits relate the committed tables.\<close>

lemma with_db_committed: "safe D m \<Longrightarrow> D (disk w) (disk (snd (with_db m w)))"
  using refl [of "disk w"] by (simp add: with_db_run safe_def keeps_def)

end

lemma with_db_readonly: "readonly m \<Longrightarrow> disk (snd (with_db m w)) = disk w"
  by (simp add: with_db_run readonlyD)

end
