(* ===== verification/Demo.thy ===== *)
theory Demo
  imports Runtime
begin

text \<open>
  One concrete choice of the third-party functions, small enough to compute with. It satisfies
  every \<open>..._spec\<close> predicate of \<open>Runtime\<close>, so the hypotheses of the theorems can hold
  together; the witnesses use it. Nothing else in the development depends on it. Its
  cipher appends a tag made of the key, its PNG writes dimensions in unary and its
  permutation reverses.
\<close>

definition demo_tag :: "bytes \<Rightarrow> bytes" where
  "demo_tag k = take 16 (k @ replicate 16 0)"

definition demo_encrypt :: "bytes \<Rightarrow> bytes \<Rightarrow> bytes \<Rightarrow> bytes res" where
  "demo_encrypt k n x = Inr (x @ demo_tag k)"

definition demo_decrypt :: "bytes \<Rightarrow> bytes \<Rightarrow> bytes \<Rightarrow> bytes res" where
  "demo_decrypt k n c =
     (let m = length c - 16 in
      if 16 \<le> length c \<and> drop m c = demo_tag k then Inr (take m c) else Inl InvalidTag)"

definition demo_scrypt_init :: "bytes \<Rightarrow> nat \<Rightarrow> int \<Rightarrow> int \<Rightarrow> int \<Rightarrow> unit res" where
  "demo_scrypt_init s len n r p =
     (if 2 \<le> n \<and> n mod 2 = 0 \<and> 1 \<le> r \<and> 1 \<le> p then Inr () else Inl ValueError)"

definition demo_scrypt_derive :: "bytes \<Rightarrow> nat \<Rightarrow> int \<Rightarrow> int \<Rightarrow> int \<Rightarrow> bytes \<Rightarrow> bytes res" where
  "demo_scrypt_derive s len n r p b =
     (if 2 ^ 24 < n * r then Inl MemoryError else Inr (take len (b @ s @ replicate len 0)))"

definition demo_convert :: "image \<Rightarrow> string \<Rightarrow> image" where
  "demo_convert im m =
     (if img_mode im = m \<and> colour_image im then im
      else im\<lparr>img_mode := m, img_samples := replicate (img_width im * img_height im * 3) 0\<rparr>)"

definition demo_save :: "image \<Rightarrow> bytes" where
  "demo_save im =
     PNG_MAGIC @ (if img_mode im = ''RGBA'' then 1 else 0) # replicate (img_width im) 1 @ [0] @
     replicate (img_height im) 1 @ [0] @ img_samples im"

definition demo_open :: "int \<Rightarrow> bytes \<Rightarrow> string res" where
  "demo_open mx d = (if take 8 d = PNG_MAGIC then Inr ''PNG'' else Inl UnidentifiedImageError)"

definition demo_verify :: "int \<Rightarrow> bytes \<Rightarrow> unit res" where
  "demo_verify mx d = Inr ()"

definition demo_load :: "int \<Rightarrow> bytes \<Rightarrow> image res" where
  "demo_load mx d =
     (let w = length (takeWhile (\<lambda>b. b = 1) (drop 9 d));
          d1 = drop (Suc w) (drop 9 d);
          h = length (takeWhile (\<lambda>b. b = 1) d1);
          mode = (if d ! 8 = 1 then ''RGBA'' else ''RGB'')
      in if 2 * mx < int (w * h) then Inl DecompressionBombError
         else if w * h = 0 \<or> length (drop (Suc h) d1) \<noteq> w * h * mode_channels mode then Inl OSError
         else Inr \<lparr>img_mode = mode, img_width = w, img_height = h, img_samples = drop (Suc h) d1\<rparr>)"

text \<open>A password hash that writes the password in unary, and tokens that write the key and the
  claims with every length in unary.\<close>

definition demo_argon2 :: "bytes \<Rightarrow> pystr \<Rightarrow> string" where
  "demo_argon2 s pw = concat (map (\<lambda>c. replicate c CHR ''1'' @ ''.'') pw)"

definition demo_argon2_verify :: "string \<Rightarrow> pystr \<Rightarrow> bool res" where
  "demo_argon2_verify h pw = (if h = demo_argon2 [] pw then Inr True else Inl VerifyMismatchError)"

definition put_nat :: "nat \<Rightarrow> string" where
  "put_nat n = replicate n CHR ''1'' @ ''0''"

definition get_nat :: "string \<Rightarrow> nat \<times> string" where
  "get_nat s = (let n = length (takeWhile (\<lambda>c. c = CHR ''1'') s) in (n, drop (Suc n) s))"

definition put_str :: "string \<Rightarrow> string" where
  "put_str s = put_nat (length s) @ s"

definition get_str :: "string \<Rightarrow> string \<times> string" where
  "get_str s = (case get_nat s of (n, r) \<Rightarrow> (take n r, drop n r))"

fun put_val :: "jval \<Rightarrow> string" where
  "put_val (JStr s) = put_nat 0 @ put_str s"
| "put_val (JInt i) = put_nat (if i < 0 then 1 else 2) @ put_nat (nat \<bar>i\<bar>)"

definition get_val :: "string \<Rightarrow> jval \<times> string" where
  "get_val s =
     (case get_nat s of (k, r) \<Rightarrow>
        if k = 0 then (case get_str r of (x, r') \<Rightarrow> (JStr x, r'))
        else (case get_nat r of (n, r') \<Rightarrow> (JInt (if k = 1 then - int n else int n), r')))"

fun put_claims :: "claims \<Rightarrow> string" where
  "put_claims [] = []"
| "put_claims ((k, v) # c) = put_str k @ put_val v @ put_claims c"

fun get_claims :: "nat \<Rightarrow> string \<Rightarrow> claims" where
  "get_claims 0 s = []"
| "get_claims (Suc n) s =
     (case get_str s of (k, r) \<Rightarrow> case get_val r of (v, r') \<Rightarrow> (k, v) # get_claims n r')"

definition demo_jwt_encode :: "claims \<Rightarrow> string \<Rightarrow> string" where
  "demo_jwt_encode c key = put_str key @ put_nat (length c) @ put_claims c @ ''.''"

definition demo_jwt_decode :: "string \<Rightarrow> string \<Rightarrow> int \<Rightarrow> claims res" where
  "demo_jwt_decode tok key now =
     (case get_str tok of (k, r) \<Rightarrow> case get_nat r of (n, r') \<Rightarrow>
        let c = get_claims n r' in
        case (map_of c ''exp'', map_of c ''sub'') of
          (Some (JInt x), Some (JStr s)) \<Rightarrow>
            if k = key \<and> now div 1000000 < x \<and> map_of c ''role'' \<noteq> None
            then Inr c else Inl PyJWTError
        | _ \<Rightarrow> Inl PyJWTError)"

definition demo_lib :: lib where
  "demo_lib =
     \<lparr>sha256 = (\<lambda>b. take 32 (b @ replicate 32 0)),
      rng_permutation = (\<lambda>seed xs. rev xs),
      aesgcm_encrypt = demo_encrypt, aesgcm_decrypt = demo_decrypt,
      scrypt_init = demo_scrypt_init, scrypt_derive = demo_scrypt_derive,
      pil_convert = demo_convert, png_save = demo_save,
      pil_open = demo_open, pil_verify = demo_verify, pil_load = demo_load,
      argon2_hash = (\<lambda>s pw. Inr (demo_argon2 s pw)), argon2_verify = demo_argon2_verify,
      argon2_check_needs_rehash = (\<lambda>h. Inr False),
      jwt_encode = demo_jwt_encode, jwt_decode = demo_jwt_decode\<rparr>"

lemma length_demo_tag [simp]: "length (demo_tag k) = 16"
  by (simp add: demo_tag_def)

lemma demo_permutation: "permutation_spec demo_lib"
  by (simp add: permutation_spec_def demo_lib_def)

lemma demo_aead: "aead_spec demo_lib"
  by (auto simp: aead_spec_def demo_lib_def demo_encrypt_def demo_decrypt_def Let_def split: if_splits)
     (metis append_take_drop_id)

lemma demo_scrypt: "2 \<le> n \<Longrightarrow> n mod 2 = 0 \<Longrightarrow> 1 \<le> r \<Longrightarrow> 1 \<le> p \<Longrightarrow> n * r \<le> 2 ^ 24 \<Longrightarrow>
    scrypt_spec demo_lib n r p"
  by (auto simp: scrypt_spec_def demo_lib_def demo_scrypt_init_def demo_scrypt_derive_def)

lemma demo_converts: "convert_spec demo_lib"
  by (simp add: convert_spec_def demo_lib_def demo_convert_def colour_image_def mode_channels_def)

lemma takeWhile_ones: "takeWhile (\<lambda>b. b = (1 :: byte)) (replicate n 1 @ 0 # xs) = replicate n 1"
  by (induction n) auto

lemma get_put_nat [simp]: "get_nat (put_nat n @ r) = (n, r)"
proof -
  have "takeWhile (\<lambda>c. c = CHR ''1'') (replicate n CHR ''1'' @ CHR ''0'' # r) = replicate n CHR ''1''"
    by (induction n) auto
  then show ?thesis by (simp add: get_nat_def put_nat_def)
qed

lemma get_put_str [simp]: "get_str (put_str s @ r) = (s, r)"
  by (simp add: get_str_def put_str_def)

lemma get_put_val [simp]: "get_val (put_val v @ r) = (v, r)"
  by (cases v) (auto simp: get_val_def)

lemma get_put_claims: "get_claims (length c) (put_claims c @ r) = c"
  by (induction c) auto

lemma py_strip_ends:
  "\<not> py_space a \<Longrightarrow> \<not> py_space b \<Longrightarrow> py_strip (a # s @ [b]) = a # s @ [b]"
  by (simp add: py_strip_def)

lemma demo_jwt_strip: "py_strip (demo_jwt_encode c key) = demo_jwt_encode c key"
proof -
  obtain a s where "put_str key = a # s" "a = CHR ''1'' \<or> a = CHR ''0''"
    by (cases key) (auto simp: put_str_def put_nat_def)
  then have "demo_jwt_encode c key = a # (s @ put_nat (length c) @ put_claims c) @ ''.''" "\<not> py_space a"
    by (auto simp: demo_jwt_encode_def py_space_def)
  then show ?thesis by (simp add: py_strip_ends py_space_def del: append_assoc)
qed

lemma demo_jwt_Inr:
  "demo_jwt_decode tok key now = Inr c \<Longrightarrow>
     \<exists>x s r. map_of c ''exp'' = Some (JInt x) \<and> now div 1000000 < x \<and>
       map_of c ''sub'' = Some (JStr s) \<and> map_of c ''role'' = Some r"
  by (auto simp: demo_jwt_decode_def Let_def split: prod.splits option.splits jval.splits if_splits)

lemma demo_jwt: "jwt_spec demo_lib"
proof -
  have "demo_jwt_decode (demo_jwt_encode c key) key now =
      (if now div 1000000 < x then Inr c else Inl PyJWTError)"
    if "map_of c ''exp'' = Some (JInt x)" "map_of c ''sub'' = Some (JStr s)" "map_of c ''role'' = Some r"
    for c key x s r now
    using that get_put_claims [of c "''.''"] by (simp add: demo_jwt_decode_def demo_jwt_encode_def)
  moreover have "demo_jwt_decode tok key now = Inl e \<Longrightarrow> e = PyJWTError" for tok key now e
    by (auto simp: demo_jwt_decode_def Let_def split: prod.splits option.splits jval.splits if_splits)
  ultimately show ?thesis
    using demo_jwt_Inr demo_jwt_strip by (simp add: jwt_spec_def demo_lib_def)
qed

lemma demo_argon2_ok: "argon2_spec demo_lib"
  by (auto simp: argon2_spec_def demo_lib_def demo_argon2_verify_def demo_argon2_def split: if_splits)

lemma demo_png: "png_spec demo_lib"
  unfolding png_spec_def
proof (intro allI impI)
  fix im :: image and mx :: int
  assume a: "colour_image im \<and> int (img_width im * img_height im) \<le> mx"
  then have "(if img_mode im = ''RGBA'' then ''RGBA'' else ''RGB'') = img_mode im"
    by (auto simp: colour_image_def)
  moreover have "\<not> 2 * mx < int (img_width im * img_height im)"
    using a by linarith
  ultimately have "demo_load mx (demo_save im) = Inr im"
    using a
    by (cases im) (auto simp: demo_load_def demo_save_def PNG_MAGIC_def takeWhile_ones Let_def
        colour_image_def mode_channels_def)
  then show "take 8 (png_save demo_lib im) = PNG_MAGIC \<and>
      pil_open demo_lib mx (png_save demo_lib im) = Inr ''PNG'' \<and>
      pil_verify demo_lib mx (png_save demo_lib im) = Inr () \<and>
      pil_load demo_lib mx (png_save demo_lib im) = Inr im"
    by (simp add: demo_lib_def demo_open_def demo_verify_def demo_save_def PNG_MAGIC_def)
qed

text \<open>A black 20 by 20 RGB image, an entropy source and a passphrase.\<close>

definition demo_image :: image where
  "demo_image =
     \<lparr>img_mode = ''RGB'', img_width = 20, img_height = 20, img_samples = replicate 1200 0\<rparr>"

definition demo_entropy :: entropy where
  "demo_entropy = \<lparr>source = (\<lambda>i. word_of_nat i), cursor = 0\<rparr>"

definition demo_pass :: pystr where
  "demo_pass = [104, 117, 110, 116, 101, 114, 50]"

lemma demo_image_colour [simp]: "colour_image demo_image"
  by (simp add: demo_image_def colour_image_def mode_channels_def)

lemma demo_pass_encodable [simp]: "encodable demo_pass"
  by (simp add: encodable_def demo_pass_def)

end
