(* ===== verification/DemoWorld.thy ===== *)
theory DemoWorld
  imports World Demo
begin

text \<open>
  A concrete world for the witnesses: two accounts (an ordinary user and an administrator), one
  live session of the user, one job, a clock that advances by a second per reading.
\<close>

definition demo_user :: user where
  "demo_user =
     \<lparr>u_id = 7, u_email = ''a@b.c'', u_password_hash = demo_argon2 [] demo_pass,
      u_role = ROLE_USER, u_status = STATUS_ACTIVE, u_mfa_enabled = False,
      u_mfa_secret_encrypted = None, u_created_at = 0, u_updated_at = 0, u_last_login_at = None,
      u_failed_login_count = 0, u_locked_until = None\<rparr>"

definition demo_admin :: user where
  "demo_admin = demo_user\<lparr>u_id := 8, u_email := ''root@b.c'', u_role := ROLE_ADMIN\<rparr>"

definition demo_token :: pystr where "demo_token = [97]"

definition demo_session :: session where
  "demo_session =
     \<lparr>s_id = 9, s_user_id = 7, s_hash = hexdigest (97 # replicate 31 0), s_family = 10,
      s_issued_at = 0, s_expires_at = days 7, s_revoked_at = None, s_replaced_by = None,
      s_user_agent = None, s_ip_hash = None\<rparr>"

definition demo_job :: job where
  "demo_job =
     \<lparr>j_id = 11, j_user_id = 7, j_type = JOB_VERIFY, j_status = JOB_SUCCEEDED,
      j_source_filename_hash = None, j_input_size = None, j_output_size = None,
      j_payload_size = None, j_capacity_utilization = None, j_algorithm_version = None,
      j_artifact_storage_key = None, j_artifact_checksum = None, j_processing_time_ms = None,
      j_created_at = 0, j_expires_at = None, j_deleted_at = None, j_failure_category = None\<rparr>"

definition demo_tables :: tables where
  "demo_tables =
     \<lparr>t_users = [demo_user, demo_admin], t_sessions = [demo_session], t_jobs = [demo_job]\<rparr>"

definition demo_world :: world where
  "demo_world =
     \<lparr>db = demo_tables, disk = demo_tables, counters = (\<lambda>_. None),
      wall = (\<lambda>i. 1000000 * int i), perf = (\<lambda>i. 1000000 * int i), ticks = 0,
      rnd = demo_entropy, bomb_limit = 89478485\<rparr>"

lemmas demo_defs = demo_world_def demo_tables_def demo_user_def demo_admin_def demo_session_def
  demo_job_def

end
