(* ===== verification/Tokens.thy ===== *)
theory Tokens
  imports DemoWorld
begin

text \<open>
  Rotating refresh tokens, \<^verbatim>\<open>app/auth/refresh_tokens.py\<close>. A login opens a family with one
  session; each rotation revokes the presented session and issues its successor; presenting a
  revoked token burns the family. The theorems say that a token is good for one use, that a replay
  leaves no live session in the family and touches no other, that no family ever has two live
  sessions, and that the two database dialects behave alike.
\<close>

section \<open>Raw tokens\<close>

definition TOKEN_BYTES :: nat where "TOKEN_BYTES = 48"

text \<open>\<^verbatim>\<open>secrets.token_urlsafe\<close>: URL-safe base 64 without padding, as code points.\<close>

definition b64_char :: "nat \<Rightarrow> nat" where
  "b64_char v =
     (if v < 26 then 65 + v else if v < 52 then 71 + v else if v < 62 then v - 4
      else if v = 62 then 45 else 95)"

fun b64url :: "bytes \<Rightarrow> pystr" where
  "b64url (a # b # c # r) =
     b64_char (unat a div 4) # b64_char (unat a mod 4 * 16 + unat b div 16) #
     b64_char (unat b mod 16 * 4 + unat c div 64) # b64_char (unat c mod 64) # b64url r"
| "b64url [a, b] =
     [b64_char (unat a div 4), b64_char (unat a mod 4 * 16 + unat b div 16), b64_char (unat b mod 16 * 4)]"
| "b64url [a] = [b64_char (unat a div 4), b64_char (unat a mod 4 * 16)]"
| "b64url [] = []"

definition new_raw :: "(world, pystr) py" where
  "new_raw = bindM (on_entropy (urandom TOKEN_BYTES)) (\<lambda>bs. ret (b64url bs))"

definition hash_token :: "lib \<Rightarrow> pystr \<Rightarrow> string res" where
  "hash_token L raw = bindR (utf8_encode raw) (\<lambda>b. Inr (hexdigest (sha256 L b)))"

section \<open>Operations\<close>

record issued_refresh =
  raw_token :: pystr
  issued :: session

text \<open>
  \<open>pending\<close> is the update of already loaded rows that the caller's session holds back (it does
  not autoflush): \<^verbatim>\<open>db.flush()\<close> writes it before it inserts the new session.
\<close>

definition issue_initial ::
  "lib \<Rightarrow> settings \<Rightarrow> (world, unit) py \<Rightarrow> uuid \<Rightarrow> string option \<Rightarrow> string option \<Rightarrow>
     (world, issued_refresh) py" where
  "issue_initial L cfg pending user_id user_agent ip_hash =
     bindM new_raw (\<lambda>raw.
     bindM (liftR (hash_token L raw)) (\<lambda>h.
     bindM uuid4 (\<lambda>family.
     bindM now (\<lambda>issued_at.
     bindM now (\<lambda>n.
     thenM pending
    (bindM (insert_session (\<lambda>i.
       \<lparr>s_id = i, s_user_id = user_id, s_hash = h, s_family = family, s_issued_at = issued_at,
        s_expires_at = n + days (refresh_token_lifetime_days cfg), s_revoked_at = None,
        s_replaced_by = None, s_user_agent = user_agent, s_ip_hash = ip_hash\<rparr>)) (\<lambda>s.
     ret \<lparr>raw_token = raw, issued = s\<rparr>)))))))"

text \<open>
  The loop over the selected rows that stamps \<^verbatim>\<open>revoked_at\<close> where it is unset, one clock
  reading per row.
\<close>

fun stamp ::
  "(nat \<Rightarrow> instant) \<Rightarrow> (session \<Rightarrow> bool) \<Rightarrow> nat \<Rightarrow> session list \<Rightarrow> session list \<times> nat" where
  "stamp clk P k [] = ([], k)"
| "stamp clk P k (s # ss) =
     (if P s \<and> s_revoked_at s = None
      then case stamp clk P (Suc k) ss of (r, k') \<Rightarrow> (s\<lparr>s_revoked_at := Some (clk k)\<rparr> # r, k')
      else case stamp clk P k ss of (r, k') \<Rightarrow> (s # r, k'))"

definition revoke_where :: "(session \<Rightarrow> bool) \<Rightarrow> (world, unit) py" where
  "revoke_where P w =
     (case stamp (wall w) P (ticks w) (t_sessions (db w)) of (ss, k) \<Rightarrow>
        (Inr (), w\<lparr>db := (db w)\<lparr>t_sessions := ss\<rparr>, ticks := k\<rparr>))"

definition revoke_family :: "uuid \<Rightarrow> (world, unit) py" where
  "revoke_family family_id = revoke_where (\<lambda>s. s_family s = family_id)"

definition revoke_session :: "session \<Rightarrow> (world, unit) py" where
  "revoke_session s =
     (if s_revoked_at s = None
      then bindM now (\<lambda>n. update_session (s_id s) (\<lambda>x. x\<lparr>s_revoked_at := Some n\<rparr>))
      else skip)"

definition revoke_all_for_user :: "uuid \<Rightarrow> (world, nat) py" where
  "revoke_all_for_user user_id =
     bindM (gets (\<lambda>w. filter (\<lambda>s. s_user_id s = user_id \<and> s_revoked_at s = None) (t_sessions (db w))))
       (\<lambda>rows. thenM (revoke_where (\<lambda>s. s_user_id s = user_id)) (ret (length rows)))"

definition rotate_token :: "lib \<Rightarrow> settings \<Rightarrow> pystr \<Rightarrow> (world, issued_refresh) py" where
  "rotate_token L cfg raw =
     bindM (liftR (hash_token L raw)) (\<lambda>token_hash.
     bindM (find_session_by_hash token_hash) (\<lambda>found.
     case found of
       None \<Rightarrow> raise (InvalidRefreshToken ''unknown token'')
     | Some s \<Rightarrow>
         if s_revoked_at s \<noteq> None
         then thenM (revoke_family (s_family s)) (raise ReplayDetected)
         else
           bindM now (\<lambda>n.
           bindM (liftR (dt_le (aware (col_dt cfg (s_expires_at s))) (Aware n))) (\<lambda>expired.
           if expired then raise (InvalidRefreshToken ''expired token'')
           else
             bindM new_raw (\<lambda>raw'.
             bindM (liftR (hash_token L raw')) (\<lambda>h.
             bindM now (\<lambda>issued_at.
             bindM now (\<lambda>n'.
             bindM (insert_session (\<lambda>i.
               \<lparr>s_id = i, s_user_id = s_user_id s, s_hash = h, s_family = s_family s,
                s_issued_at = issued_at,
                s_expires_at = n' + days (refresh_token_lifetime_days cfg), s_revoked_at = None,
                s_replaced_by = None, s_user_agent = s_user_agent s, s_ip_hash = s_ip_hash s\<rparr>))
               (\<lambda>successor.
             bindM now (\<lambda>revoked.
             thenM (update_session (s_id s)
                      (\<lambda>x. x\<lparr>s_revoked_at := Some revoked, s_replaced_by := Some (s_id successor)\<rparr>))
                   (ret \<lparr>raw_token = raw', issued = successor\<rparr>)))))))))))"

section \<open>Live sessions\<close>

definition live :: "session \<Rightarrow> bool" where
  "live s \<longleftrightarrow> s_revoked_at s = None"

definition live_in :: "uuid \<Rightarrow> session list \<Rightarrow> session list" where
  "live_in f ss = filter (\<lambda>s. s_family s = f \<and> live s) ss"

definition one_live :: "session list \<Rightarrow> bool" where
  "one_live ss \<longleftrightarrow> (\<forall>f. length (live_in f ss) \<le> 1)"

abbreviation sessions_wf :: "session list \<Rightarrow> bool" where
  "sessions_wf \<equiv> row_wf s_id s_hash"

lemma fst_stamp [simp]:
  "fst (stamp clk P k []) = []"
  "fst (stamp clk P k (s # ss)) =
     (if P s \<and> live s then s\<lparr>s_revoked_at := Some (clk k)\<rparr> # fst (stamp clk P (Suc k) ss)
      else s # fst (stamp clk P k ss))"
  by (simp_all add: live_def split: prod.split)

text \<open>What a stamped table looks like, row by row.\<close>

definition revoked_from :: "(session \<Rightarrow> bool) \<Rightarrow> session \<Rightarrow> session \<Rightarrow> bool" where
  "revoked_from P s s' \<longleftrightarrow>
     (if P s \<and> live s then \<exists>n. s' = s\<lparr>s_revoked_at := Some n\<rparr> else s' = s)"

lemma stamp_rel: "list_all2 (revoked_from P) ss (fst (stamp clk P k ss))"
  by (induction ss arbitrary: k) (auto simp: revoked_from_def simp del: stamp.simps)

lemma stamp_keys: "map s_id (fst (stamp clk P k ss)) = map s_id ss"
  "map s_hash (fst (stamp clk P k ss)) = map s_hash ss"
  by (induction ss arbitrary: k) (simp_all del: stamp.simps)

lemma stamp_live_in:
  "live_in f (fst (stamp clk P k ss)) = filter (\<lambda>s. \<not> P s) (live_in f ss)"
  by (induction ss arbitrary: k) (simp_all add: live_in_def live_def del: stamp.simps)

lemma stamp_other:
  assumes "\<And>s n. P (s\<lparr>s_revoked_at := n\<rparr>) = P s"
  shows "filter (\<lambda>s. \<not> P s) (fst (stamp clk P k ss)) = filter (\<lambda>s. \<not> P s) ss"
  using assms by (induction ss arbitrary: k) (simp_all del: stamp.simps)

lemma revoke_where_run:
  "revoke_where P w =
     (Inr (), w\<lparr>db := (db w)\<lparr>t_sessions := fst (stamp (wall w) P (ticks w) (t_sessions (db w)))\<rparr>,
               ticks := snd (stamp (wall w) P (ticks w) (t_sessions (db w)))\<rparr>)"
  by (simp add: revoke_where_def split: prod.split)

section \<open>Rules for requests\<close>

context table_order
begin

lemma safe_revoke_where:
  assumes "\<And>clk k t. D t (t\<lparr>t_sessions := fst (stamp clk P k (t_sessions t))\<rparr>)"
  shows "safe D (revoke_where P)"
  unfolding safe_def keeps_def revoke_where_run using assms trans by auto

end

section \<open>A rotation in closed form\<close>

lemma b64_char_lt: "b64_char v < 128"
  by (auto simp: b64_char_def)

lemma b64url_ascii: "c \<in> set (b64url bs) \<Longrightarrow> c < 128"
  by (induction bs rule: b64url.induct) (auto simp: b64_char_lt)

lemma utf8_ascii: "\<forall>c \<in> set s. c < 128 \<Longrightarrow> utf8_encode s = Inr (map word_of_nat s)"
  by (induction s) (simp_all add: utf8_char_def)

definition token_digest :: "lib \<Rightarrow> bytes \<Rightarrow> string" where
  "token_digest L bs = hexdigest (sha256 L (map word_of_nat (b64url bs)))"

lemma hash_new_token [simp]: "hash_token L (b64url bs) = Inr (token_digest L bs)"
  by (simp add: hash_token_def utf8_ascii b64url_ascii token_digest_def)

text \<open>The successor a rotation issues, from the entropy and the clock.\<close>

definition next_token :: "world \<Rightarrow> bytes" where
  "next_token w = window (rnd w) (cursor (rnd w)) TOKEN_BYTES"

definition successor :: "lib \<Rightarrow> settings \<Rightarrow> session \<Rightarrow> world \<Rightarrow> session" where
  "successor L cfg s w =
     \<lparr>s_id = uuid4_of (window (rnd w) (cursor (rnd w) + TOKEN_BYTES) 16),
      s_user_id = s_user_id s, s_hash = token_digest L (next_token w), s_family = s_family s,
      s_issued_at = wall w (Suc (ticks w)),
      s_expires_at = wall w (Suc (Suc (ticks w))) + days (refresh_token_lifetime_days cfg),
      s_revoked_at = None, s_replaced_by = None, s_user_agent = s_user_agent s,
      s_ip_hash = s_ip_hash s\<rparr>"

definition retire :: "instant \<Rightarrow> uuid \<Rightarrow> session \<Rightarrow> session" where
  "retire n i s = s\<lparr>s_revoked_at := Some n, s_replaced_by := Some i\<rparr>"

lemma rotate_token_run:
  "rotate_token L cfg raw w =
     (case hash_token L raw of
        Inl e \<Rightarrow> (Inl e, w)
      | Inr h \<Rightarrow>
        (case row_get s_hash h (t_sessions (db w)) of
           None \<Rightarrow> (Inl (InvalidRefreshToken ''unknown token''), w)
         | Some s \<Rightarrow>
             if \<not> live s then (Inl ReplayDetected, snd (revoke_family (s_family s) w))
             else if s_expires_at s \<le> wall w (ticks w)
             then (Inl (InvalidRefreshToken ''expired token''), w\<lparr>ticks := Suc (ticks w)\<rparr>)
             else
               let new = successor L cfg s w;
                   E = rnd w\<lparr>cursor := cursor (rnd w) + TOKEN_BYTES + 16\<rparr>
               in case row_insert s_id s_hash new (t_sessions (db w)) of
                    Inl e \<Rightarrow> (Inl e, w\<lparr>ticks := Suc (Suc (Suc (ticks w))), rnd := E\<rparr>)
                  | Inr ss \<Rightarrow>
                      (Inr \<lparr>raw_token = b64url (next_token w), issued = new\<rparr>,
                       w\<lparr>db := (db w)\<lparr>t_sessions := modify_row s_id (s_id s)
                            (retire (wall w (Suc (Suc (Suc (ticks w))))) (s_id new)) ss\<rparr>,
                         ticks := Suc (Suc (Suc (Suc (ticks w)))), rnd := E\<rparr>)))"
proof -
  have r: "(\<lambda>x. x\<lparr>s_revoked_at := Some a, s_replaced_by := Some i\<rparr>) = retire a i" for a i
    by (rule ext) (simp add: retire_def)
  show ?thesis
    by (simp add: rotate_token_def py_simps r live_def find_session_by_hash_def now_def new_raw_def
        on_entropy_def urandom_def insert_session_def uuid4_def with_tables_def update_session_def
        successor_def next_token_def Let_def revoke_family_def revoke_where_run bindR_def
        split: sum.split option.split)
qed

section \<open>What the rotation guarantees\<close>

lemma modify_row_Some:
  "row_get key i rows = Some r \<Longrightarrow> modify_row key i f rows = row_update key (f r) rows"
  by (simp add: modify_row_def)

lemma retire_simps [simp]:
  "s_id (retire n i s) = s_id s" "s_hash (retire n i s) = s_hash s"
  "s_family (retire n i s) = s_family s" "s_user_id (retire n i s) = s_user_id s"
  "live (retire n i s) = False"
  by (simp_all add: retire_def live_def)

lemma successor_simps [simp]:
  "s_family (successor L cfg s w) = s_family s" "s_user_id (successor L cfg s w) = s_user_id s"
  "live (successor L cfg s w) = True"
  "s_hash (successor L cfg s w) = token_digest L (next_token w)"
  by (simp_all add: successor_def live_def)

text \<open>The table after a successful rotation, by the table interface.\<close>

lemma rotated_table:
  fixes n :: instant and i :: uuid
  assumes "sessions_wf ss" "row_get s_hash (s_hash s) ss = Some s" "row_insert s_id s_hash new ss = Inr ss'"
  defines "out \<equiv> modify_row s_id (s_id s) (retire n i) ss'"
  shows "out = row_update s_id (retire n i s) ss'" "sessions_wf out"
    "row_get s_hash (s_hash new) out = Some new" "row_get s_hash (s_hash s) out = Some (retire n i s)"
    "k \<noteq> s_id new \<Longrightarrow> k \<noteq> s_id s \<Longrightarrow> row_get s_id k out = row_get s_id k ss"
proof -
  have s: "row_get s_id (s_id s) ss = Some s" using sessions.lookup_get assms(1,2) by blast
  have "s_id new \<noteq> s_id s" using sessions.insert_fresh [OF assms(3)] s by auto
  then have s': "row_get s_id (s_id s) ss' = Some s" using s by (simp add: sessions.insert_get [OF assms(3)])
  then show out: "out = row_update s_id (retire n i s) ss'"
    unfolding out_def by (rule modify_row_Some)
  note u = sessions.insert_update [of ss "retire n i s" s new ss', OF assms(1) _ _ assms(3)]
  show "sessions_wf out" "row_get s_hash (s_hash new) out = Some new"
    "row_get s_hash (s_hash s) out = Some (retire n i s)"
    "k \<noteq> s_id new \<Longrightarrow> k \<noteq> s_id s \<Longrightarrow> row_get s_id k out = row_get s_id k ss"
    using u s by (simp_all add: out)
qed

lemma rotate_token_Inr:
  "rotate_token L cfg raw w = (Inr i, w') \<longleftrightarrow>
     (\<exists>h s ss. hash_token L raw = Inr h \<and> row_get s_hash h (t_sessions (db w)) = Some s \<and> live s \<and>
        wall w (ticks w) < s_expires_at s \<and>
        row_insert s_id s_hash (successor L cfg s w) (t_sessions (db w)) = Inr ss \<and>
        i = \<lparr>raw_token = b64url (next_token w), issued = successor L cfg s w\<rparr> \<and>
        w' = w\<lparr>db := (db w)\<lparr>t_sessions := modify_row s_id (s_id s)
               (retire (wall w (Suc (Suc (Suc (ticks w))))) (s_id (successor L cfg s w))) ss\<rparr>,
             ticks := Suc (Suc (Suc (Suc (ticks w)))),
             rnd := rnd w\<lparr>cursor := cursor (rnd w) + TOKEN_BYTES + 16\<rparr>\<rparr>)"
  by (auto simp: rotate_token_run Let_def not_le split: sum.splits option.splits if_splits)

lemma hash_token_Inl: "hash_token L raw = Inl e \<Longrightarrow> e = UnicodeEncodeError"
  by (auto simp: hash_token_def bindR_Inl_iff dest: utf8_encode_Inl)

lemma rotate_token_Inl:
  assumes "rotate_token L cfg raw w = (Inl e, w')"
  shows "db w' = db w \<and> disk w' = disk w \<and>
      (e = UnicodeEncodeError \<or> (\<exists>m. e = InvalidRefreshToken m) \<or> e = IntegrityError) \<or>
    (\<exists>h s. hash_token L raw = Inr h \<and> row_get s_hash h (t_sessions (db w)) = Some s \<and>
      \<not> live s \<and> e = ReplayDetected \<and> w' = snd (revoke_family (s_family s) w))"
proof (cases "hash_token L raw")
  case (Inl e')
  then show ?thesis using assms hash_token_Inl by (auto simp: rotate_token_run)
next
  case (Inr h)
  note h = this
  show ?thesis
  proof (cases "row_get s_hash h (t_sessions (db w))")
    case (Some s)
    consider "\<not> live s" | "live s" "s_expires_at s \<le> wall w (ticks w)"
      | "live s" "\<not> s_expires_at s \<le> wall w (ticks w)" by blast
    then show ?thesis
    proof cases
      case 3
      then obtain e' where "row_insert s_id s_hash (successor L cfg s w) (t_sessions (db w)) = Inl e'"
        using assms h Some
        by (cases "row_insert s_id s_hash (successor L cfg s w) (t_sessions (db w))")
          (simp_all add: rotate_token_run Let_def)
      then show ?thesis using assms h Some 3 sessions.insert_outcome
        by (auto simp: rotate_token_run Let_def)
    qed (use assms h Some in \<open>auto simp: rotate_token_run\<close>)
  qed (use assms h in \<open>auto simp: rotate_token_run\<close>)
qed

lemma replay_run:
  assumes "hash_token L raw = Inr h" "row_get s_hash h (t_sessions (db w)) = Some s" "\<not> live s"
  shows "rotate_token L cfg raw w = (Inl ReplayDetected, snd (revoke_family (s_family s) w))"
  using assms by (simp add: rotate_token_run)

lemma revoke_family_effect:
  fixes w f defines "w' \<equiv> snd (revoke_family f w)"
  shows "live_in f (t_sessions (db w')) = []"
    "g \<noteq> f \<Longrightarrow> live_in g (t_sessions (db w')) = live_in g (t_sessions (db w))"
    "filter (\<lambda>s. s_family s \<noteq> f) (t_sessions (db w')) = filter (\<lambda>s. s_family s \<noteq> f) (t_sessions (db w))"
    "t_users (db w') = t_users (db w)" "t_jobs (db w') = t_jobs (db w)" "disk w' = disk w"
    "list_all2 (revoked_from (\<lambda>s. s_family s = f)) (t_sessions (db w)) (t_sessions (db w'))"
  unfolding w'_def revoke_family_def revoke_where_run
  using stamp_other [of "\<lambda>s. s_family s = f"]
  by (simp_all add: stamp_live_in stamp_rel) (auto simp: live_in_def filter_empty_conv intro!: filter_cong)

lemma stamp_get_hash:
  "sessions_wf ss \<Longrightarrow> row_get s_hash h ss = Some s \<Longrightarrow>
     \<exists>s'. row_get s_hash h (fst (stamp clk P k ss)) = Some s' \<and> revoked_from P s s'"
proof (induction ss arbitrary: k)
  case (Cons x ss)
  show ?case
  proof (cases "s_hash x = h")
    case True
    with Cons.prems show ?thesis
      by (auto simp: row_get_def revoked_from_def simp del: stamp.simps)
  next
    case False
    then have "row_get s_hash h ss = Some s" "sessions_wf ss"
      using Cons.prems by (simp_all add: row_get_def row_wf_def)
    then show ?thesis using Cons.IH False by (simp add: row_get_def del: stamp.simps)
  qed
qed (simp add: row_get_def)

lemma revoke_family_sessions:
  "t_sessions (db (snd (revoke_family f w))) =
     fst (stamp (wall w) (\<lambda>s. s_family s = f) (ticks w) (t_sessions (db w)))"
  by (simp add: revoke_family_def revoke_where_run)

text \<open>
  A refresh token is good for exactly one use. After a rotation that returned, presenting
  the old token again raises \<open>ReplayDetected\<close> and leaves the family without a live session, so
  that the successor's token, too, is only good for a \<open>ReplayDetected\<close>.
\<close>

theorem refresh_token_single_use:
  assumes wf: "sessions_wf (t_sessions (db w))"
    and first: "rotate_token L cfg raw w = (Inr i, w1)"
    and again: "rotate_token L cfg raw w1 = (r, w2)"
  shows "r = Inl ReplayDetected \<and> live_in (s_family (issued i)) (t_sessions (db w2)) = [] \<and>
    fst (rotate_token L cfg (raw_token i) w2) = Inl ReplayDetected"
proof -
  obtain h s ss where h: "hash_token L raw = Inr h"
    and s: "row_get s_hash h (t_sessions (db w)) = Some s"
    and ins: "row_insert s_id s_hash (successor L cfg s w) (t_sessions (db w)) = Inr ss"
    and i: "i = \<lparr>raw_token = b64url (next_token w), issued = successor L cfg s w\<rparr>"
    and w1: "t_sessions (db w1) = modify_row s_id (s_id s)
        (retire (wall w (Suc (Suc (Suc (ticks w))))) (s_id (successor L cfg s w))) ss"
    using first by (auto simp: rotate_token_Inr)
  have "s_hash s = h" using sessions.lookup_uniq [OF s] .
  note out = rotated_table [where n = "wall w (Suc (Suc (Suc (ticks w))))" and
      i = "s_id (successor L cfg s w)", OF wf s [folded this] ins, folded w1]
  have "(r, w2) = (Inl ReplayDetected,
      snd (revoke_family (s_family (retire (wall w (Suc (Suc (Suc (ticks w)))))
        (s_id (successor L cfg s w)) s)) w1))"
    using replay_run [OF h out(4) [unfolded \<open>s_hash s = h\<close>]] again by simp
  then have r: "(r, w2) = (Inl ReplayDetected, snd (revoke_family (s_family s) w1))"
    by (simp only: retire_simps)
  then have "live_in (s_family (issued i)) (t_sessions (db w2)) = []"
    using revoke_family_effect(1) i by auto
  obtain n where n: "row_get s_hash (token_digest L (next_token w)) (t_sessions (db w2)) = Some n"
    and rev: "revoked_from (\<lambda>x. s_family x = s_family s) (successor L cfg s w) n"
    using stamp_get_hash [OF out(2) out(3), where clk = "wall w1" and k = "ticks w1" and
        P = "\<lambda>x. s_family x = s_family s"] r
    by (auto simp: revoke_family_sessions)
  have "\<not> live n" using rev by (auto simp: revoked_from_def) (simp add: live_def)
  then have "fst (rotate_token L cfg (raw_token i) w2) = Inl ReplayDetected"
    using replay_run [OF hash_new_token n] i by simp
  with r show ?thesis using \<open>live_in (s_family (issued i)) (t_sessions (db w2)) = []\<close> by simp
qed

lemma demo_hash: "hash_token demo_lib demo_token = Inr (s_hash demo_session)"
  by (simp add: hash_token_def demo_token_def utf8_char_def demo_lib_def demo_session_def)

lemma demo_fresh_hash: "token_digest demo_lib (next_token demo_world) \<noteq> s_hash demo_session"
proof -
  have "[0..<48] = 0 # 1 # 2 # [3..<48]" by code_simp
  then have "next_token demo_world = 0 # 1 # 2 # window demo_entropy 3 45"
    by (simp add: next_token_def demo_world_def TOKEN_BYTES_def window_def demo_entropy_def)
  then show ?thesis
    by (simp add: token_digest_def demo_lib_def demo_session_def b64_char_def hexdigest_def
        hex_digits_2 hex_char_def)
qed

lemma demo_wf: "sessions_wf (t_sessions (db demo_world))" "one_live (t_sessions (db demo_world))"
  by (simp_all add: demo_defs row_wf_def one_live_def live_in_def)

lemma demo_rotation: "\<exists>i w1. rotate_token demo_lib default_settings demo_token demo_world = (Inr i, w1)"
proof -
  have "s_id (successor demo_lib default_settings demo_session demo_world) \<noteq> 9"
    by (simp add: successor_def small_not_uuid4)
  then have "\<exists>ss. row_insert s_id s_hash (successor demo_lib default_settings demo_session demo_world)
      (t_sessions (db demo_world)) = Inr ss"
    using demo_fresh_hash by (simp add: row_insert_def demo_world_def demo_tables_def)
      (simp add: demo_session_def)
  moreover have "row_get s_hash (s_hash demo_session) (t_sessions (db demo_world)) = Some demo_session"
    "live demo_session" "wall demo_world (ticks demo_world) < s_expires_at demo_session"
    by (simp_all add: row_get_def demo_world_def demo_tables_def live_def demo_session_def days_def)
  ultimately show ?thesis unfolding rotate_token_Inr using demo_hash by blast
qed

theorem refresh_token_single_use_witness:
  "\<exists>i w1. rotate_token demo_lib default_settings demo_token demo_world = (Inr i, w1) \<and>
     fst (rotate_token demo_lib default_settings demo_token w1) = Inl ReplayDetected \<and>
     fst (rotate_token demo_lib default_settings (raw_token i)
            (snd (rotate_token demo_lib default_settings demo_token w1))) = Inl ReplayDetected"
proof -
  obtain i w1 where r: "rotate_token demo_lib default_settings demo_token demo_world = (Inr i, w1)"
    using demo_rotation by blast
  then show ?thesis
    using refresh_token_single_use [OF demo_wf(1) r prod.collapse [symmetric]] by auto
qed

text \<open>
  A replayed token burns its family and nothing else: the answer is
  \<open>ReplayDetected\<close>, the family has no live session left, every row of another family, the users
  and the jobs are untouched, and no session that was already revoked gets a new revocation time.
\<close>

theorem replay_burns_family:
  assumes "hash_token L raw = Inr h" "row_get s_hash h (t_sessions (db w)) = Some s" "\<not> live s"
    and w': "rotate_token L cfg raw w = (r, w')"
  shows "r = Inl ReplayDetected \<and> live_in (s_family s) (t_sessions (db w')) = [] \<and>
     filter (\<lambda>x. s_family x \<noteq> s_family s) (t_sessions (db w')) =
       filter (\<lambda>x. s_family x \<noteq> s_family s) (t_sessions (db w)) \<and>
     list_all2 (revoked_from (\<lambda>x. s_family x = s_family s)) (t_sessions (db w)) (t_sessions (db w')) \<and>
     t_users (db w') = t_users (db w) \<and> t_jobs (db w') = t_jobs (db w)"
proof -
  have "(r, w') = (Inl ReplayDetected, snd (revoke_family (s_family s) w))"
    using replay_run [OF assms(1-3)] w' by simp
  then show ?thesis using revoke_family_effect [where w = w and f = "s_family s"] by simp
qed

lemma live_in_update_dead:
  "\<not> live r \<Longrightarrow> live_in g (row_update s_id r ss) = filter (\<lambda>x. s_id x \<noteq> s_id r) (live_in g ss)"
  by (induction ss) (auto simp: live_in_def row_update_def)

lemma length_filter_bound [intro]: "length xs \<le> n \<Longrightarrow> length (filter P xs) \<le> n"
  by (rule order.trans [OF length_filter_le])

lemma live_in_append: "live_in g (ss @ ts) = live_in g ss @ live_in g ts"
  by (simp add: live_in_def)

lemma one_live_rotated:
  assumes "one_live ss" "sessions_wf ss" "s \<in> set ss" "live s"
    "row_insert s_id s_hash new ss = Inr ss'" "s_family new = s_family s"
  shows "one_live (row_update s_id (retire n i s) ss')"
  unfolding one_live_def
proof
  fix g
  have ss': "ss' = ss @ [new]" using assms(5) by (auto simp: row_insert_def split: if_splits)
  have out: "live_in g (row_update s_id (retire n i s) ss') =
      filter (\<lambda>x. s_id x \<noteq> s_id s) (live_in g ss @ live_in g [new])"
    by (simp add: live_in_update_dead ss' live_in_append)
  have le: "length (live_in g ss) \<le> 1" using assms(1) by (simp add: one_live_def)
  show "length (live_in g (row_update s_id (retire n i s) ss')) \<le> 1"
  proof (cases "g = s_family s")
    case True
    then have "s \<in> set (live_in g ss)" using assms(3,4) by (simp add: live_in_def)
    with le have one: "live_in g ss = [s]" by (cases "live_in g ss") auto
    have "length (live_in g [new]) \<le> 1" by (simp add: live_in_def)
    then show ?thesis
      using length_filter_bound [of "live_in g [new]" 1] by (simp add: out one)
  next
    case False
    then have "live_in g [new] = []" using assms(6) by (simp add: live_in_def)
    then show ?thesis using length_filter_bound [OF le] by (simp add: out)
  qed
qed

text \<open>
  A family never has two live sessions: whatever \<open>rotate_token\<close> does, a table in which
  every family has at most one live session, ids and token hashes are unique, stays such a table.
\<close>

theorem rotate_keeps_one_live:
  assumes "sessions_wf (t_sessions (db w))" "one_live (t_sessions (db w))"
  shows "sessions_wf (t_sessions (db (snd (rotate_token L cfg raw w)))) \<and>
     one_live (t_sessions (db (snd (rotate_token L cfg raw w))))"
proof (cases "rotate_token L cfg raw w")
  case (Pair r w')
  show ?thesis
  proof (cases r)
    case (Inr i)
    then obtain h s ss where s: "row_get s_hash h (t_sessions (db w)) = Some s" "live s"
      and ins: "row_insert s_id s_hash (successor L cfg s w) (t_sessions (db w)) = Inr ss"
      and w1: "t_sessions (db w') = modify_row s_id (s_id s)
        (retire (wall w (Suc (Suc (Suc (ticks w))))) (s_id (successor L cfg s w))) ss"
      using Pair by (auto simp: rotate_token_Inr)
    have h: "s_hash s = h" using sessions.lookup_uniq [OF s(1)] .
    have "s \<in> set (t_sessions (db w))" using s(1) by (auto simp: row_get_def find_Some_iff)
    then show ?thesis
      using rotated_table(1,2) [OF assms(1) s(1) [folded h] ins] one_live_rotated [OF assms(2,1) _ s(2) ins]
      by (simp add: Pair w1)
  next
    case (Inl e)
    from rotate_token_Inl [OF Pair [unfolded Inl]] show ?thesis
    proof
      assume "\<exists>h s. hash_token L raw = Inr h \<and> row_get s_hash h (t_sessions (db w)) = Some s \<and>
          \<not> live s \<and> e = ReplayDetected \<and> w' = snd (revoke_family (s_family s) w)"
      then obtain s :: session where "w' = snd (revoke_family (s_family s) w)" by (elim exE conjE)
      then show ?thesis using assms
        by (simp add: Pair revoke_family_sessions row_wf_def stamp_keys one_live_def stamp_live_in
            length_filter_bound)
    qed (simp add: Pair assms)
  qed
qed

text \<open>A world in which the demonstration session is already revoked.\<close>

definition demo_revoked_world :: world where
  "demo_revoked_world =
     demo_world\<lparr>db := demo_tables\<lparr>t_sessions :=
       [demo_session\<lparr>s_revoked_at := Some 5\<rparr>, demo_session\<lparr>s_id := 12, s_hash := ''x''\<rparr>]\<rparr>\<rparr>"

theorem replay_burns_family_witness:
  "live_in 10 (t_sessions (db demo_revoked_world)) \<noteq> [] \<and>
   live_in 10 (t_sessions (db (snd (rotate_token demo_lib default_settings demo_token demo_revoked_world)))) = []"
proof -
  have "row_get s_hash (s_hash demo_session) (t_sessions (db demo_revoked_world)) =
      Some (demo_session\<lparr>s_revoked_at := Some 5\<rparr>)"
    "\<not> live (demo_session\<lparr>s_revoked_at := Some 5\<rparr>)"
    by (simp_all add: demo_revoked_world_def row_get_def live_def)
  from replay_burns_family [OF demo_hash this prod.collapse [symmetric], of default_settings]
  have "live_in (s_family demo_session) (t_sessions (db (snd
      (rotate_token demo_lib default_settings demo_token demo_revoked_world)))) = []"
    by simp
  then show ?thesis
    by (simp add: demo_revoked_world_def live_in_def live_def) (simp add: demo_session_def)
qed

theorem rotate_keeps_one_live_witness:
  "one_live (t_sessions (db (snd (rotate_token demo_lib default_settings demo_token demo_world))))"
  using rotate_keeps_one_live [OF demo_wf] by blast

text \<open>
  A live, unexpired token is rotated: the answer carries a new raw token and the
  successor, which is live, belongs to the same user and family, is stored under the new token's
  digest and expires the configured number of days after the clock; the presented session is
  revoked, points to the successor, and keeps its hash; every other session, the users and the
  jobs are as before. The successor's random id and digest must not be in the table yet (else the
  unique constraints raise \<open>IntegrityError\<close>).
\<close>

theorem rotate_issues_successor:
  assumes wf: "sessions_wf (t_sessions (db w))"
    and h: "hash_token L raw = Inr h" and s: "row_get s_hash h (t_sessions (db w)) = Some s"
    and ok: "live s" "wall w (ticks w) < s_expires_at s"
    and fresh: "row_get s_id (s_id (successor L cfg s w)) (t_sessions (db w)) = None"
      "row_get s_hash (token_digest L (next_token w)) (t_sessions (db w)) = None"
  shows "\<exists>w' n. rotate_token L cfg raw w =
      (Inr \<lparr>raw_token = b64url (next_token w), issued = successor L cfg s w\<rparr>, w') \<and>
    hash_token L (b64url (next_token w)) = Inr (s_hash (successor L cfg s w)) \<and>
    row_get s_hash (s_hash (successor L cfg s w)) (t_sessions (db w')) = Some (successor L cfg s w) \<and>
    row_get s_hash h (t_sessions (db w')) = Some (retire n (s_id (successor L cfg s w)) s) \<and>
    (\<forall>k. k \<noteq> s_id s \<and> k \<noteq> s_id (successor L cfg s w) \<longrightarrow>
       row_get s_id k (t_sessions (db w')) = row_get s_id k (t_sessions (db w))) \<and>
    t_users (db w') = t_users (db w) \<and> t_jobs (db w') = t_jobs (db w)"
proof -
  let ?new = "successor L cfg s w"
  have "s_hash s = h" using sessions.lookup_uniq [OF s] .
  obtain ss where ins: "row_insert s_id s_hash ?new (t_sessions (db w)) = Inr ss"
    using sessions.insert_outcome [of ?new "t_sessions (db w)"] fresh
    by (cases "row_insert s_id s_hash ?new (t_sessions (db w))") auto
  obtain w' where run: "rotate_token L cfg raw w =
      (Inr \<lparr>raw_token = b64url (next_token w), issued = ?new\<rparr>, w')"
    and t: "t_sessions (db w') = modify_row s_id (s_id s)
      (retire (wall w (Suc (Suc (Suc (ticks w))))) (s_id ?new)) ss"
    and u: "t_users (db w') = t_users (db w)" "t_jobs (db w') = t_jobs (db w)"
    using h s ok ins by (auto simp: rotate_token_Inr)
  note out = rotated_table [OF wf s [folded \<open>s_hash s = h\<close>] ins,
      where n = "wall w (Suc (Suc (Suc (ticks w))))" and i = "s_id ?new", folded t]
  show ?thesis
    using run u out(3) out(4) [unfolded \<open>s_hash s = h\<close>] out(5)
    by (intro exI [of _ w'] exI [of _ "wall w (Suc (Suc (Suc (ticks w))))"]) simp
qed

theorem rotate_issues_successor_witness:
  "\<exists>i w'. rotate_token demo_lib default_settings demo_token demo_world = (Inr i, w') \<and>
     s_family (issued i) = 10 \<and> live (issued i)"
proof -
  have s: "row_get s_hash (s_hash demo_session) (t_sessions (db demo_world)) = Some demo_session"
    "live demo_session" "wall demo_world (ticks demo_world) < s_expires_at demo_session"
    by (simp_all add: row_get_def demo_world_def demo_tables_def live_def demo_session_def days_def)
  have "s_id demo_session \<noteq> s_id (successor demo_lib default_settings demo_session demo_world)"
    using small_not_uuid4 [of 9] by (simp add: successor_def demo_session_def)
  then have "row_get s_id (s_id (successor demo_lib default_settings demo_session demo_world))
      (t_sessions (db demo_world)) = None"
    "row_get s_hash (token_digest demo_lib (next_token demo_world)) (t_sessions (db demo_world)) = None"
    using demo_fresh_hash by (simp_all add: row_get_def demo_tables_def demo_world_def)
  from rotate_issues_successor [OF demo_wf(1) demo_hash s this] show ?thesis
    by (auto simp: demo_session_def)
qed

text \<open>
  A rotation that raises anything but \<open>ReplayDetected\<close> leaves the database as it was,
  and it raises only \<open>InvalidRefreshToken\<close> (unknown or expired token), a unique violation or an
  encoding error.
\<close>

theorem rotate_error_harmless:
  assumes "rotate_token L cfg raw w = (Inl e, w')" "e \<noteq> ReplayDetected"
  shows "db w' = db w \<and> disk w' = disk w \<and>
    (e = UnicodeEncodeError \<or> (\<exists>m. e = InvalidRefreshToken m) \<or> e = IntegrityError)"
  using rotate_token_Inl [OF assms(1)] assms(2) by auto

theorem rotate_error_harmless_witness:
  "\<exists>e w'. rotate_token demo_lib default_settings [98] demo_world = (Inl e, w') \<and> db w' = demo_tables"
proof -
  have h: "hash_token demo_lib [98] = Inr (hexdigest (98 # replicate 31 0))"
    by (simp add: hash_token_def utf8_char_def demo_lib_def)
  have "row_get s_hash (hexdigest (98 # replicate 31 0)) (t_sessions (db demo_world)) = None"
    by (simp add: row_get_def demo_defs hexdigest_def hex_digits_2 hex_char_def)
  then have r: "rotate_token demo_lib default_settings [98] demo_world =
      (Inl (InvalidRefreshToken ''unknown token''), demo_world)"
    using h by (simp add: rotate_token_run)
  with rotate_error_harmless [OF r] show ?thesis by (simp add: demo_world_def)
qed

text \<open>
  The rotation behaves the same on SQLite, whose columns come back as naive datetimes,
  and on PostgreSQL: the result and the new state do not depend on the database URL.
\<close>

theorem rotate_dialect_independent:
  "rotate_token L (cfg\<lparr>database_url := url\<rparr>) raw w = rotate_token L cfg raw w"
  by (simp add: rotate_token_run successor_def cong: if_cong option.case_cong sum.case_cong)

end
