(* ===== verification/AuthCore.thy ===== *)
theory AuthCore
  imports Tokens
begin

text \<open>
  Who is calling: access tokens (\<^verbatim>\<open>app/auth/jwt.py\<close>), passwords
  (\<^verbatim>\<open>app/auth/passwords.py\<close>), the role and ownership helpers
  (\<^verbatim>\<open>app/auth/permissions.py\<close>) and the dependencies that every protected route goes
  through (\<^verbatim>\<open>app/auth/dependencies.py\<close>). HTTP headers are Latin-1 texts, lists of
  8-bit characters.
\<close>

section \<open>Access tokens\<close>

text \<open>\<^verbatim>\<open>int(dt.timestamp())\<close> truncates towards zero.\<close>

definition timestamp :: "instant \<Rightarrow> int" where
  "timestamp t = (if 0 \<le> t then t div 1000000 else - ((- t) div 1000000))"

definition create_access_token ::
  "lib \<Rightarrow> settings \<Rightarrow> string \<Rightarrow> string \<Rightarrow> int option \<Rightarrow> (world, string \<times> instant) py" where
  "create_access_token L cfg subject role lifetime_minutes =
     (let m = (case lifetime_minutes of
                 Some n \<Rightarrow> if n = 0 then access_token_lifetime_minutes cfg else n
               | None \<Rightarrow> access_token_lifetime_minutes cfg)
      in bindM now (\<lambda>n.
         let exp = n + minutes m in
         bindM uuid4 (\<lambda>jti.
         let claims = [(''sub'', JStr subject), (''role'', JStr role), (''iat'', JInt (timestamp n)),
                       (''exp'', JInt (timestamp exp)), (''jti'', JStr (str_uuid jti))]
         in ret (jwt_encode L claims (jwt_signing_key cfg), exp))))"

definition decode_access_token :: "lib \<Rightarrow> settings \<Rightarrow> string \<Rightarrow> (world, claims) py" where
  "decode_access_token L cfg token =
     bindM now (\<lambda>n.
     liftR (catchR (jwt_decode L token (jwt_signing_key cfg) n)
       (\<lambda>e. if e = PyJWTError then Inl TokenError else Inl e)))"

section \<open>Passwords\<close>

definition hash_password :: "lib \<Rightarrow> pystr \<Rightarrow> (world, string) py" where
  "hash_password L password =
     bindM (on_entropy (urandom 16)) (\<lambda>salt. liftR (argon2_hash L salt password))"

definition verify_password :: "lib \<Rightarrow> string \<Rightarrow> pystr \<Rightarrow> bool res" where
  "verify_password L password_hash password =
     catchR (argon2_verify L password_hash password)
       (\<lambda>e. if e \<in> {VerifyMismatchError, VerificationError, InvalidHashError}
             then Inr False else Inl e)"

definition needs_rehash :: "lib \<Rightarrow> string \<Rightarrow> bool res" where
  "needs_rehash L password_hash =
     catchR (argon2_check_needs_rehash L password_hash)
       (\<lambda>e. if e = InvalidHashError then Inr False else Inl e)"

section \<open>Roles and ownership\<close>

definition is_admin :: "user \<Rightarrow> bool" where
  "is_admin u \<longleftrightarrow> u_role u = ROLE_ADMIN"

definition require_owner :: "user \<Rightarrow> uuid \<Rightarrow> (world, unit) py" where
  "require_owner actor resource_owner_id =
     (if u_id actor \<noteq> resource_owner_id
      then thenM (increment AUTHORIZATION_DENIAL 1) (raise (AuthorizationError ''not the resource owner''))
      else skip)"

definition require_admin :: "user \<Rightarrow> (world, unit) py" where
  "require_admin actor =
     (if \<not> is_admin actor
      then thenM (increment AUTHORIZATION_DENIAL 1) (raise (AuthorizationError ''admin role required''))
      else skip)"

section \<open>The current user\<close>

definition UNAUTHORIZED :: exn where
  "UNAUTHORIZED = HTTPException 401 ''Not authenticated''"

text \<open>\<^verbatim>\<open>str.lower\<close> on Latin-1.\<close>

definition lower_char :: "char \<Rightarrow> char" where
  "lower_char c =
     (let n = (of_char c :: nat) in
      if 65 \<le> n \<and> n \<le> 90 \<or> 192 \<le> n \<and> n \<le> 222 \<and> n \<noteq> 215 then char_of (n + 32) else c)"

definition lower :: "string \<Rightarrow> string" where
  "lower s = map lower_char s"

text \<open>\<^verbatim>\<open>authorization.lower().startswith("bearer ")\<close> and
  \<^verbatim>\<open>authorization.split(" ", 1)[1].strip()\<close>.\<close>

definition has_bearer :: "string \<Rightarrow> bool" where
  "has_bearer authorization \<longleftrightarrow> take 7 (lower authorization) = ''bearer ''"

definition bearer_token :: "string \<Rightarrow> string" where
  "bearer_token authorization = py_strip (drop 1 (dropWhile (\<lambda>c. c \<noteq> CHR '' '') authorization))"

definition get_current_user ::
  "lib \<Rightarrow> settings \<Rightarrow> string option \<Rightarrow> (world, user) py" where
  "get_current_user L cfg authorization =
     (case authorization of
        None \<Rightarrow> raise UNAUTHORIZED
      | Some header \<Rightarrow>
          if header = [] \<or> \<not> has_bearer header then raise UNAUTHORIZED
          else
            let token = bearer_token header in
            bindM
              (catchM
                (bindM (decode_access_token L cfg token) (\<lambda>claims.
                 case map_of claims ''sub'' of
                   None \<Rightarrow> raise KeyError
                 | Some (JInt _) \<Rightarrow> raise AttributeError
                 | Some (JStr sub) \<Rightarrow> liftR (parse_uuid sub)))
                (\<lambda>e. if e \<in> {TokenError, KeyError} \<or> is_value_error e then raise UNAUTHORIZED
                      else raise e))
              (\<lambda>user_id.
            bindM (get_user user_id) (\<lambda>found.
            case found of
              None \<Rightarrow> raise UNAUTHORIZED
            | Some u \<Rightarrow> if u_status u \<noteq> STATUS_ACTIVE then raise UNAUTHORIZED else ret u)))"

definition require_admin_user ::
  "lib \<Rightarrow> settings \<Rightarrow> string option \<Rightarrow> (world, user) py" where
  "require_admin_user L cfg authorization =
     bindM (get_current_user L cfg authorization) (\<lambda>u.
     if u_role u \<noteq> ROLE_ADMIN
     then thenM (increment AUTHORIZATION_DENIAL 1) (raise (HTTPException 403 ''Admin role required''))
     else ret u)"

section \<open>Helper lemmas\<close>

lemma readonly_decode [readonly_rules]: "readonly (decode_access_token L cfg token)"
  unfolding decode_access_token_def by (intro readonly_rules)

lemma readonly_jval [readonly_rules]:
  "(\<And>s. readonly (g s)) \<Longrightarrow> (\<And>i. readonly (k i)) \<Longrightarrow>
     readonly (case v of JStr s \<Rightarrow> g s | JInt i \<Rightarrow> k i)"
  by (cases v) simp_all

lemma readonly_current_user [readonly_rules]: "readonly (get_current_user L cfg a)"
  unfolding get_current_user_def by (intro readonly_rules)

lemma readonly_admin_user [readonly_rules]: "readonly (require_admin_user L cfg a)"
  unfolding require_admin_user_def by (intro readonly_rules)

lemma readonly_create_token [readonly_rules]: "readonly (create_access_token L cfg s r m)"
  unfolding create_access_token_def by (intro readonly_rules)

lemma readonly_hash_password [readonly_rules]: "readonly (hash_password L pw)"
  unfolding hash_password_def by (intro readonly_rules)

lemmas safe_auth [safe_rules] = readonly_current_user [THEN readonly_safe]
  readonly_admin_user [THEN readonly_safe] readonly_create_token [THEN readonly_safe]
  readonly_hash_password [THEN readonly_safe]

text \<open>The identity a token carries at an instant.\<close>

definition token_user ::
  "lib \<Rightarrow> settings \<Rightarrow> string \<Rightarrow> instant \<Rightarrow> uuid res" where
  "token_user L cfg token n =
     bindR (jwt_decode L token (jwt_signing_key cfg) n) (\<lambda>claims.
     case map_of claims ''sub'' of
       Some (JStr sub) \<Rightarrow> parse_uuid sub
     | _ \<Rightarrow> Inl PyJWTError)"

lemma get_current_user_run:
  assumes "jwt_spec L"
  shows "get_current_user L cfg a w =
    (case a of None \<Rightarrow> (Inl UNAUTHORIZED, w)
     | Some h \<Rightarrow>
         if \<not> has_bearer h then (Inl UNAUTHORIZED, w)
         else (case token_user L cfg (bearer_token h) (wall w (ticks w)) of
                 Inl e \<Rightarrow> (Inl UNAUTHORIZED, w\<lparr>ticks := Suc (ticks w)\<rparr>)
               | Inr i \<Rightarrow>
                   (case row_get u_id i (t_users (db w)) of
                      None \<Rightarrow> (Inl UNAUTHORIZED, w\<lparr>ticks := Suc (ticks w)\<rparr>)
                    | Some u \<Rightarrow>
                        (if u_status u = STATUS_ACTIVE then Inr u else Inl UNAUTHORIZED,
                         w\<lparr>ticks := Suc (ticks w)\<rparr>))))"
proof (cases a)
  case (Some h)
  let ?d = "jwt_decode L (bearer_token h) (jwt_signing_key cfg) (wall w (ticks w))"
  have empty: "\<not> has_bearer []" by (simp add: has_bearer_def lower_def)
  show ?thesis
  proof (cases ?d)
    case (Inl e)
    then have "e = PyJWTError" using assms by (auto simp: jwt_spec_def)
    then show ?thesis using Some Inl empty
      by (auto simp: get_current_user_def token_user_def py_simps decode_access_token_def now_def)
  next
    case (Inr c)
    then obtain sub where sub: "map_of c ''sub'' = Some (JStr sub)"
      using assms unfolding jwt_spec_def by blast
    show ?thesis
    proof (cases "parse_uuid sub")
      case (Inl e)
      then have "e = ValueError" by (rule parse_uuid_Inl)
      then show ?thesis using Some Inr sub Inl empty
        by (auto simp: get_current_user_def token_user_def py_simps decode_access_token_def now_def
            is_value_error_def)
    next
      case (Inr i)
      then show ?thesis using Some \<open>?d = Inr c\<close> sub empty
        by (auto simp: get_current_user_def token_user_def py_simps decode_access_token_def now_def
            get_user_def split: option.split)
    qed
  qed
qed (simp add: get_current_user_def)

section \<open>What authentication guarantees\<close>

text \<open>
  Property C39. A request is authenticated as a user only if its header is a bearer header whose
  token decodes now to that user's id and the user's row, at this moment, is in the database with
  status active (a valid token of a disabled or deleted account is worth nothing); every other
  request gets the one 401 answer. Neither case touches the database or a counter.
\<close>

theorem authentication_sound:
  assumes "jwt_spec L"
  shows "fst (get_current_user L cfg a w) \<in> {Inl UNAUTHORIZED} \<union> Inr ` {u. \<exists>h.
       a = Some h \<and> has_bearer h \<and>
       token_user L cfg (bearer_token h) (wall w (ticks w)) = Inr (u_id u) \<and>
       row_get u_id (u_id u) (t_users (db w)) = Some u \<and> u_status u = STATUS_ACTIVE} \<and>
     snd (get_current_user L cfg a w) \<in> {w, w\<lparr>ticks := Suc (ticks w)\<rparr>}"
proof (cases "fst (get_current_user L cfg a w)")
  case (Inr u)
  then show ?thesis using users.get_key
    by (auto simp: get_current_user_run [OF assms] split: option.splits if_splits sum.splits)
qed (auto simp: get_current_user_run [OF assms] split: option.splits if_splits sum.splits)

theorem authentication_sound_witness:
  "fst (get_current_user demo_lib default_settings (Some ''Basic x'') demo_world) = Inl UNAUTHORIZED"
proof -
  have "\<not> has_bearer ''Basic x''" by (simp add: has_bearer_def lower_def lower_char_def)
  then show ?thesis
    using authentication_sound [OF demo_jwt, of default_settings "Some ''Basic x''" demo_world] by auto
qed

lemma bearer_of_token:
  "jwt_spec L \<Longrightarrow> bearer_token (''Bearer '' @ jwt_encode L c key) = jwt_encode L c key"
  by (simp add: bearer_token_def jwt_spec_def)

lemma has_bearer_Bearer: "has_bearer (''Bearer '' @ s)"
  by (simp add: has_bearer_def lower_def lower_char_def char_of_def bit_0)

lemma create_access_token_run:
  "create_access_token L cfg s r None w =
     (Inr (jwt_encode L [(''sub'', JStr s), (''role'', JStr r), (''iat'', JInt (timestamp (wall w (ticks w)))),
          (''exp'', JInt (timestamp (wall w (ticks w) + minutes (access_token_lifetime_minutes cfg)))),
          (''jti'', JStr (str_uuid (uuid4_of (window (rnd w) (cursor (rnd w)) 16))))] (jwt_signing_key cfg),
        wall w (ticks w) + minutes (access_token_lifetime_minutes cfg)),
      w\<lparr>ticks := Suc (ticks w), rnd := rnd w\<lparr>cursor := cursor (rnd w) + 16\<rparr>\<rparr>)"
  by (simp add: create_access_token_def py_simps now_def uuid4_def on_entropy_def urandom_def Let_def)

text \<open>The identity a created token carries, from its creation on.\<close>

lemma created_token_user:
  assumes spec: "jwt_spec L"
    and made: "create_access_token L cfg (str_uuid i) r None w = (Inr (token, expiration), w1)"
    and time: "0 \<le> wall w (ticks w)" "0 \<le> access_token_lifetime_minutes cfg" "wall w (ticks w) \<le> n'"
    and i: "i < 2 ^ 128"
  shows "token_user L cfg token n' =
      (if n' div 1000000 < expiration div 1000000 then Inr i else Inl PyJWTError)"
    "bearer_token (''Bearer '' @ token) = token"
proof -
  let ?n = "wall w (ticks w)" and ?m = "access_token_lifetime_minutes cfg"
  define c where "c = [(''sub'', JStr (str_uuid i)), (''role'', JStr r),
      (''iat'', JInt (timestamp ?n)), (''exp'', JInt (timestamp (?n + minutes ?m))),
      (''jti'', JStr (str_uuid (uuid4_of (window (rnd w) (cursor (rnd w)) 16))))]"
  have tok: "token = jwt_encode L c (jwt_signing_key cfg)" "expiration = ?n + minutes ?m"
    using made by (auto simp: create_access_token_run c_def)
  have exp: "timestamp (?n + minutes ?m) = expiration div 1000000"
    using time tok by (simp add: timestamp_def minutes_def)
  have "map_of c ''exp'' = Some (JInt (expiration div 1000000))"
    "map_of c ''sub'' = Some (JStr (str_uuid i))" "map_of c ''role'' = Some (JStr r)"
    "map_of c ''iat'' = Some (JInt (?n div 1000000))" "?n div 1000000 \<le> n' div 1000000"
    "fst ` set c \<subseteq> {''sub'', ''role'', ''iat'', ''exp'', ''jti''}"
    "\<forall>v. map_of c ''jti'' = Some v \<longrightarrow> (\<exists>j. v = JStr j)"
    using exp time by (simp_all add: c_def timestamp_def zdiv_mono1)
  then have "jwt_decode L token (jwt_signing_key cfg) n' =
      (if n' div 1000000 < expiration div 1000000 then Inr c else Inl PyJWTError)"
    using spec unfolding tok(1) jwt_spec_def by blast
  then show "token_user L cfg token n' =
      (if n' div 1000000 < expiration div 1000000 then Inr i else Inl PyJWTError)"
    using i \<open>map_of c ''sub'' = _\<close> by (simp add: token_user_def parse_str_uuid)
  show "bearer_token (''Bearer '' @ token) = token" using bearer_of_token [OF spec] tok(1) by simp
qed

text \<open>
  An access token authenticates its subject, and nobody else, from the moment it is made
  until its expiration and not a second longer: presented in a later state in which the account is
  active, it yields that account's row before the expiration (in whole seconds) and the 401 answer
  from then on.
\<close>

theorem access_token_roundtrip:
  assumes spec: "jwt_spec L"
    and made: "create_access_token L cfg (str_uuid (u_id u)) r None w = (Inr (token, expiration), w1)"
    and time: "0 \<le> wall w (ticks w)" "0 \<le> access_token_lifetime_minutes cfg"
      "wall w (ticks w) \<le> wall w' (ticks w')"
    and u: "u_id u < 2 ^ 128" "row_get u_id (u_id u) (t_users (db w')) = Some u" "u_status u = STATUS_ACTIVE"
  shows "fst (get_current_user L cfg (Some (''Bearer '' @ token)) w') =
    (if wall w' (ticks w') div 1000000 < expiration div 1000000 then Inr u else Inl UNAUTHORIZED)"
  using created_token_user [OF spec made time u(1)] u(2,3) has_bearer_Bearer
  by (simp add: get_current_user_run [OF spec])

theorem access_token_roundtrip_witness:
  "\<exists>token expiration w1.
     create_access_token demo_lib default_settings (str_uuid 7) ROLE_USER None demo_world =
       (Inr (token, expiration), w1) \<and>
     fst (get_current_user demo_lib default_settings (Some (''Bearer '' @ token)) w1) = Inr demo_user"
proof -
  obtain token w1 where t: "create_access_token demo_lib default_settings (str_uuid (u_id demo_user))
      ROLE_USER None demo_world = (Inr (token, minutes 15), w1)"
    and w1: "w1 = demo_world\<lparr>ticks := 1, rnd := demo_entropy\<lparr>cursor := 16\<rparr>\<rparr>"
    by (simp add: create_access_token_run demo_defs default_settings_def demo_entropy_def)
  have "u_id demo_user = 7" by (simp add: demo_user_def)
  then show ?thesis
    using access_token_roundtrip [OF demo_jwt t, of w1] t w1
    by (simp add: demo_defs default_settings_def minutes_def row_get_def)
qed

text \<open>
  A password verifies against its own hash, whatever salt was drawn, and checking a
  password never raises: it answers true or false.
\<close>

theorem password_roundtrip:
  assumes "argon2_spec L" "encodable pw"
  shows "(\<exists>h w'. hash_password L pw w = (Inr h, w') \<and> verify_password L h pw = Inr True) \<and>
    (\<exists>b. verify_password L stored pw = Inr b)"
proof -
  obtain h where h: "argon2_hash L (window (rnd w) (cursor (rnd w)) 16) pw = Inr h"
    "argon2_verify L h pw = Inr True"
    using assms unfolding argon2_spec_def by blast
  have "\<exists>b. verify_password L stored pw = Inr b"
    using assms unfolding argon2_spec_def verify_password_def
    by (cases "argon2_verify L stored pw") auto
  then show ?thesis
    using h by (auto simp: hash_password_def py_simps on_entropy_def urandom_def verify_password_def)
qed

theorem password_roundtrip_witness:
  "\<exists>h w'. hash_password demo_lib demo_pass demo_world = (Inr h, w') \<and>
     verify_password demo_lib h demo_pass = Inr True"
  using password_roundtrip [OF demo_argon2_ok demo_pass_encodable] by blast

end
