(* ===== verification/Schemas.thy ===== *)
theory Schemas
  imports AuthCore
begin

text \<open>
  Request bodies, \<^verbatim>\<open>app/schemas/auth.py\<close>. A body is a JSON object, the list of its
  items; its texts are modelled over Latin-1, on which \<^verbatim>\<open>str.strip\<close>,
  \<^verbatim>\<open>str.lower\<close> and the regular expression's \<^verbatim>\<open>\s\<close> are written out. A
  validation error is answered with status 422 before the handler runs.
\<close>

datatype json = JText string | JOther

type_synonym body = "(string \<times> json) list"

text \<open>
  \<^verbatim>\<open>extra="forbid"\<close> with these required text fields: no other key, each present with a text.
\<close>

definition text_field :: "body \<Rightarrow> string \<Rightarrow> string option" where
  "text_field body n = (case map_of body n of Some (JText s) \<Rightarrow> Some s | _ \<Rightarrow> None)"

definition strict_fields :: "string list \<Rightarrow> body \<Rightarrow> string list res" where
  "strict_fields names body =
     (if \<not> list_all (\<lambda>(k, _). k \<in> set names) body then Inl ValueError
      else if \<not> list_all (\<lambda>n. text_field body n \<noteq> None) names then Inl ValueError
      else Inr (map (\<lambda>n. the (text_field body n)) names))"

text \<open>
  \<^verbatim>\<open>^[^@\s]+@[^@\s]+\.[^@\s]+$\<close>, where \<^verbatim>\<open>$\<close> also matches before a final
  newline.
\<close>

definition plain :: "string \<Rightarrow> bool" where
  "plain s \<longleftrightarrow> (\<forall>c \<in> set s. c \<noteq> CHR ''@'' \<and> \<not> py_space c)"

definition email_shape :: "string \<Rightarrow> bool" where
  "email_shape v =
     (let local = takeWhile (\<lambda>c. c \<noteq> CHR ''@'') v; domain = drop (Suc (length local)) v
      in local \<noteq> [] \<and> plain local \<and> length local < length v \<and> plain domain \<and>
         CHR ''.'' \<in> set (butlast (drop 1 domain)))"

definition email_match :: "string \<Rightarrow> bool" where
  "email_match v \<longleftrightarrow> email_shape v \<or> (v \<noteq> [] \<and> last v = char_of (10 :: nat) \<and> email_shape (butlast v))"

definition valid_email :: "string \<Rightarrow> string res" where
  "valid_email v =
     (let v = lower (py_strip v) in
      if \<not> email_match v \<or> 320 < length v then Inl ValueError else Inr v)"

definition password_length :: "settings \<Rightarrow> string \<Rightarrow> string res" where
  "password_length cfg v =
     (if password_min_length cfg \<le> int (length v) \<and> int (length v) \<le> password_max_length cfg
      then Inr v else Inl ValueError)"

record register_request =
  reg_email :: string
  reg_password :: string
  reg_confirmation :: string

definition parse_register :: "settings \<Rightarrow> body \<Rightarrow> register_request res" where
  "parse_register cfg body =
     bindR (strict_fields [''email'', ''password'', ''password_confirmation''] body) (\<lambda>fields.
     bindR (valid_email (fields ! 0)) (\<lambda>email.
     bindR (password_length cfg (fields ! 1)) (\<lambda>password.
     if password \<noteq> fields ! 2 then Inl ValueError
     else Inr \<lparr>reg_email = email, reg_password = password, reg_confirmation = fields ! 2\<rparr>)))"

record login_request =
  log_email :: string
  log_password :: string

definition parse_login :: "body \<Rightarrow> login_request res" where
  "parse_login body =
     bindR (strict_fields [''email'', ''password''] body) (\<lambda>fields.
     Inr \<lparr>log_email = lower (py_strip (fields ! 0)), log_password = fields ! 1\<rparr>)"

definition parse_refresh :: "body \<Rightarrow> string res" where
  "parse_refresh body =
     bindR (strict_fields [''refresh_token''] body) (\<lambda>fields. Inr (fields ! 0))"

definition UNPROCESSABLE :: exn where
  "UNPROCESSABLE = HTTPException 422 ''Validation error''"

definition validated :: "'a res \<Rightarrow> (world, 'a) py" where
  "validated r = liftR (catchR r (\<lambda>_. Inl UNPROCESSABLE))"

lemma readonly_validated [readonly_rules]: "readonly (validated r)"
  by (simp add: validated_def readonly_rules)

lemmas safe_validated [safe_rules] = readonly_validated [THEN readonly_safe]

lemma strict_fields_length: "strict_fields names body = Inr fs \<Longrightarrow> length fs = length names"
  by (auto simp: strict_fields_def split: if_splits)

lemma strict_fields_extra:
  "k \<in> fst ` set body \<Longrightarrow> k \<notin> set names \<Longrightarrow> strict_fields names body = Inl ValueError"
  by (force simp: strict_fields_def list_all_iff)

lemma lower_char_idem: "lower_char (lower_char c) = lower_char c"
proof -
  have "(of_char c :: nat) < 256" by simp
  then show ?thesis by (auto simp: lower_char_def Let_def)
qed

text \<open>
  Property C40. An accepted registration has a normalised address (trimmed, lower case, one
  \<^verbatim>\<open>@\<close>, at most 320 characters), a password within the configured length that equals its
  confirmation, and no field beyond the three: a smuggled \<^verbatim>\<open>role\<close> is always refused.
\<close>

theorem register_request_valid:
  assumes "parse_register cfg body = Inr r"
  shows "lower (reg_email r) = reg_email r \<and> length (reg_email r) \<le> 320 \<and> email_match (reg_email r) \<and>
    password_min_length cfg \<le> int (length (reg_password r)) \<and>
    int (length (reg_password r)) \<le> password_max_length cfg \<and>
    reg_confirmation r = reg_password r \<and>
    fst ` set body \<subseteq> {''email'', ''password'', ''password_confirmation''}"
proof -
  have "fst ` set body \<subseteq> {''email'', ''password'', ''password_confirmation''}"
    using strict_fields_extra [of _ body "[''email'', ''password'', ''password_confirmation'']"] assms
    by (fastforce simp: parse_register_def bindR_Inr_iff)
  then show ?thesis using assms
    by (auto simp: parse_register_def bindR_Inr_iff valid_email_def password_length_def Let_def
        lower_def lower_char_idem split: if_splits)
qed

definition demo_register_body :: body where
  "demo_register_body =
     [(''email'', JText '' New@B.c ''), (''password'', JText ''correct horse''),
      (''password_confirmation'', JText ''correct horse'')]"

lemma demo_register:
  "parse_register default_settings demo_register_body =
     Inr \<lparr>reg_email = ''new@b.c'', reg_password = ''correct horse'', reg_confirmation = ''correct horse''\<rparr>"
  by code_simp

theorem register_request_valid_witness:
  "\<exists>r. parse_register default_settings demo_register_body = Inr r \<and> email_match (reg_email r)"
  using register_request_valid [OF demo_register] demo_register by auto

section \<open>Error responses\<close>

text \<open>\<^verbatim>\<open>app/schemas/errors.py\<close>. No route builds these: what clients get is FastAPI's own body for
  an \<^verbatim>\<open>HTTPException\<close>.\<close>

record error_body =
  error_code :: string
  error_message :: string
  error_request_id :: "string option"

record error_response =
  error :: error_body

end
