(* ===== verification/AuthApi.thy ===== *)
theory AuthApi
  imports Schemas
begin

text \<open>
  The authentication API, \<^verbatim>\<open>app/api/v1/auth.py\<close>: one definition per route handler, and
  for each route the request around it (database session, body validation, authentication).
  \<open>isoformat\<close> texts are represented by the \<^verbatim>\<open>datetime\<close> they show.
\<close>

section \<open>Requests and responses\<close>

record request =
  client_host :: "string option"
  header_user_agent :: "string option"

record token_response =
  access_token :: string
  refresh_token :: pystr
  access_token_expiration :: datetime
  refresh_token_expiration :: datetime
  token_type :: string

record session_info =
  si_id :: string
  si_issued_at :: datetime
  si_expires_at :: datetime
  si_user_agent_summary :: "string option"
  si_current :: bool

record me_response =
  me_id :: string
  me_email :: string
  me_role :: string
  me_status :: string
  me_mfa_enabled :: bool
  me_created_at :: datetime

definition INVALID :: exn where
  "INVALID = HTTPException 401 ''Invalid credentials.''"

definition NOT_FOUND :: exn where
  "NOT_FOUND = HTTPException 404 ''Not found''"

definition CONFLICT :: exn where
  "CONFLICT = HTTPException 409 ''Registration could not be completed.''"

definition ip_hash :: "lib \<Rightarrow> settings \<Rightarrow> request \<Rightarrow> string res" where
  "ip_hash L cfg req =
     (let ip = (case client_host req of Some h \<Rightarrow> h | None \<Rightarrow> ''unknown'')
      in bindR (utf8_encode (text_of (jwt_signing_key cfg @ ip))) (\<lambda>b. Inr (hexdigest (sha256 L b))))"

definition ua :: "request \<Rightarrow> string option" where
  "ua req =
     (case header_user_agent req of
        None \<Rightarrow> None
      | Some a \<Rightarrow> if a = [] then None else Some (take 256 a))"

section \<open>Handlers\<close>

text \<open>\<open>pending\<close>: the caller's unflushed changes to the user's row (see \<open>issue_initial\<close>).\<close>

definition make_token_response ::
  "lib \<Rightarrow> settings \<Rightarrow> (world, unit) py \<Rightarrow> user \<Rightarrow> request \<Rightarrow> (world, token_response) py" where
  "make_token_response L cfg pending u req =
     bindM (create_access_token L cfg (str_uuid (u_id u)) (u_role u) None) (\<lambda>(access, access_exp).
     bindM (liftR (ip_hash L cfg req)) (\<lambda>h.
     bindM (issue_initial L cfg pending (u_id u) (ua req) (Some h)) (\<lambda>i.
     thenM commit
     (ret \<lparr>access_token = access, refresh_token = raw_token i,
           access_token_expiration = Aware access_exp,
           refresh_token_expiration = Aware (s_expires_at (issued i)), token_type = ''bearer''\<rparr>))))"

definition register :: "lib \<Rightarrow> register_request \<Rightarrow> (world, string) py" where
  "register L body =
     bindM (find_user_by_email (reg_email body)) (\<lambda>existing.
     if existing \<noteq> None then raise CONFLICT
     else
       bindM (hash_password L (text_of (reg_password body))) (\<lambda>h.
       bindM (insert_user (\<lambda>i created updated.
         \<lparr>u_id = i, u_email = reg_email body, u_password_hash = h, u_role = ROLE_USER,
          u_status = STATUS_ACTIVE, u_mfa_enabled = False, u_mfa_secret_encrypted = None,
          u_created_at = created, u_updated_at = updated, u_last_login_at = None,
          u_failed_login_count = 0, u_locked_until = None\<rparr>)) (\<lambda>_.
       thenM commit (ret ''registered''))))"

text \<open>\<^verbatim>\<open>user.locked_until and _aware(user.locked_until) > _now()\<close>\<close>

definition is_locked :: "settings \<Rightarrow> user \<Rightarrow> (world, bool) py" where
  "is_locked cfg u =
     (case u_locked_until u of
        None \<Rightarrow> ret False
      | Some t \<Rightarrow>
          bindM now (\<lambda>n.
          bindM (liftR (dt_le (aware (col_dt cfg t)) (Aware n))) (\<lambda>expired. ret (\<not> expired))))"

definition record_failure :: "settings \<Rightarrow> user \<Rightarrow> (world, unit) py" where
  "record_failure cfg u =
     (let count = u_failed_login_count u + 1 in
      if max_failed_logins cfg \<le> count
      then bindM now (\<lambda>n. update_user (u_id u) (\<lambda>r. r\<lparr>u_failed_login_count := count,
             u_locked_until := Some (n + minutes (lockout_minutes cfg))\<rparr>))
      else update_user (u_id u) (\<lambda>r. r\<lparr>u_failed_login_count := count\<rparr>))"

definition record_success :: "instant \<Rightarrow> user \<Rightarrow> (world, unit) py" where
  "record_success n u =
     update_user (u_id u) (\<lambda>r. r\<lparr>u_failed_login_count := 0, u_locked_until := None,
       u_last_login_at := Some n\<rparr>)"

definition login :: "lib \<Rightarrow> settings \<Rightarrow> login_request \<Rightarrow> request \<Rightarrow> (world, token_response) py" where
  "login L cfg body req =
     bindM (find_user_by_email (log_email body)) (\<lambda>found.
     bindM (case found of None \<Rightarrow> ret False | Some u \<Rightarrow> is_locked cfg u) (\<lambda>locked.
     if locked then raise INVALID
     else
       bindM (case found of
                Some u \<Rightarrow> if u_status u = STATUS_ACTIVE
                  then liftR (verify_password L (u_password_hash u) (text_of (log_password body)))
                  else ret False
              | None \<Rightarrow> ret False) (\<lambda>ok.
       case found of
         None \<Rightarrow> thenM (increment LOGIN_FAILURE 1) (raise INVALID)
       | Some u \<Rightarrow>
           if \<not> ok
           then thenM (record_failure cfg u) (thenM commit
                  (thenM (increment LOGIN_FAILURE 1) (raise INVALID)))
           else bindM now (\<lambda>n. make_token_response L cfg (record_success n u) u req))))"

definition refresh :: "lib \<Rightarrow> settings \<Rightarrow> pystr \<Rightarrow> (world, token_response) py" where
  "refresh L cfg token =
     bindM
       (catchM (rotate_token L cfg token)
         (\<lambda>e. case e of
                ReplayDetected \<Rightarrow>
                  thenM commit (thenM (increment REFRESH_REPLAY 1) (raise INVALID))
              | InvalidRefreshToken m \<Rightarrow> raise INVALID
              | _ \<Rightarrow> raise e)) (\<lambda>i.
     bindM (get_user (s_user_id (issued i))) (\<lambda>found.
     case found of
       None \<Rightarrow> raise INVALID
     | Some u \<Rightarrow>
         if u_status u \<noteq> STATUS_ACTIVE then raise INVALID
         else
           bindM (create_access_token L cfg (str_uuid (u_id u)) (u_role u) None) (\<lambda>(access, access_exp).
           thenM commit
           (ret \<lparr>access_token = access, refresh_token = raw_token i,
                 access_token_expiration = Aware access_exp,
                 refresh_token_expiration = Aware (s_expires_at (issued i)), token_type = ''bearer''\<rparr>))))"

definition logout :: "lib \<Rightarrow> pystr \<Rightarrow> (world, unit) py" where
  "logout L token =
     bindM (liftR (hash_token L token)) (\<lambda>h.
     bindM (find_session_by_hash h) (\<lambda>found.
     case found of
       None \<Rightarrow> skip
     | Some s \<Rightarrow> thenM (revoke_session s) commit))"

definition me :: "settings \<Rightarrow> user \<Rightarrow> (world, me_response) py" where
  "me cfg u =
     ret \<lparr>me_id = str_uuid (u_id u), me_email = u_email u, me_role = u_role u, me_status = u_status u,
          me_mfa_enabled = u_mfa_enabled u, me_created_at = col_dt cfg (u_created_at u)\<rparr>"

definition delete_me :: "user \<Rightarrow> (world, unit) py" where
  "delete_me u = thenM (delete_user (u_id u)) commit"

definition list_sessions :: "settings \<Rightarrow> user \<Rightarrow> (world, session_info list) py" where
  "list_sessions cfg u =
     bindM (gets (\<lambda>w. filter (\<lambda>s. s_user_id s = u_id u \<and> s_revoked_at s = None) (t_sessions (db w))))
       (\<lambda>rows. ret (map (\<lambda>s.
          \<lparr>si_id = str_uuid (s_id s), si_issued_at = col_dt cfg (s_issued_at s),
           si_expires_at = col_dt cfg (s_expires_at s), si_user_agent_summary = s_user_agent s,
           si_current = False\<rparr>) rows))"

definition revoke_one :: "string \<Rightarrow> user \<Rightarrow> (world, unit) py" where
  "revoke_one session_id u =
     bindM (liftR (catchR (parse_uuid session_id) (\<lambda>e. if is_value_error e then Inl NOT_FOUND else Inl e)))
       (\<lambda>sid.
     bindM (get_session sid) (\<lambda>found.
     case found of
       None \<Rightarrow> thenM (increment AUTHORIZATION_DENIAL 1) (raise NOT_FOUND)
     | Some s \<Rightarrow>
         if s_user_id s \<noteq> u_id u then thenM (increment AUTHORIZATION_DENIAL 1) (raise NOT_FOUND)
         else thenM (revoke_session s) commit))"

section \<open>Routes\<close>

definition post_register :: "lib \<Rightarrow> settings \<Rightarrow> body \<Rightarrow> (world, string) py" where
  "post_register L cfg body =
     with_db (bindM (validated (parse_register cfg body)) (\<lambda>b. register L b))"

definition post_login :: "lib \<Rightarrow> settings \<Rightarrow> body \<Rightarrow> request \<Rightarrow> (world, token_response) py" where
  "post_login L cfg body req =
     with_db (bindM (validated (parse_login body)) (\<lambda>b. login L cfg b req))"

definition post_refresh :: "lib \<Rightarrow> settings \<Rightarrow> body \<Rightarrow> (world, token_response) py" where
  "post_refresh L cfg body =
     with_db (bindM (validated (parse_refresh body)) (\<lambda>t. refresh L cfg (text_of t)))"

definition post_logout :: "lib \<Rightarrow> body \<Rightarrow> (world, unit) py" where
  "post_logout L body =
     with_db (bindM (validated (parse_refresh body)) (\<lambda>t. logout L (text_of t)))"

definition get_me :: "lib \<Rightarrow> settings \<Rightarrow> string option \<Rightarrow> (world, me_response) py" where
  "get_me L cfg a = with_db (bindM (get_current_user L cfg a) (\<lambda>u. me cfg u))"

definition del_me :: "lib \<Rightarrow> settings \<Rightarrow> string option \<Rightarrow> (world, unit) py" where
  "del_me L cfg a = with_db (bindM (get_current_user L cfg a) (\<lambda>u. delete_me u))"

definition get_sessions :: "lib \<Rightarrow> settings \<Rightarrow> string option \<Rightarrow> (world, session_info list) py" where
  "get_sessions L cfg a = with_db (bindM (get_current_user L cfg a) (\<lambda>u. list_sessions cfg u))"

definition del_session :: "lib \<Rightarrow> settings \<Rightarrow> string option \<Rightarrow> string \<Rightarrow> (world, unit) py" where
  "del_session L cfg a session_id =
     with_db (bindM (get_current_user L cfg a) (\<lambda>u. revoke_one session_id u))"

end
