(* ===== verification/Envelope.thy ===== *)
theory Envelope
  imports ByteCodec
begin

text \<open>
  The versioned envelope of \<^verbatim>\<open>app/crypto/envelope.py\<close>: the 46-byte header as a
  \<^verbatim>\<open>struct\<close> record, the \<^verbatim>\<open>Envelope\<close> and \<^verbatim>\<open>ParsedHeader\<close> data classes,
  serialisation and parsing. The wire format is an instance of the locale \<open>exact_codec\<close>,
  from which the round trip and the canonicity of headers follow.
\<close>

section \<open>The header as a struct\<close>

definition ascii :: "string \<Rightarrow> bytes" where
  "ascii s = map of_char s"

definition MAGIC :: bytes where
  "MAGIC = ascii ''STG1''"

definition FORMAT_VERSION :: int where
  "FORMAT_VERSION = 1"

definition KDF_SCRYPT :: int where
  "KDF_SCRYPT = 1"

text \<open>\<^verbatim>\<open>struct.Struct(">4sBBIHH16s12sI").size\<close>\<close>

definition HEADER_LEN :: nat where
  "HEADER_LEN = 4 + 1 + 1 + 4 + 2 + 2 + 16 + 12 + 4"

text \<open>magic, version, kdf id, n, r, p, salt, nonce, ciphertext length\<close>

type_synonym header_fields = "bytes \<times> int \<times> int \<times> int \<times> int \<times> int \<times> bytes \<times> bytes \<times> int"

fun struct_pack :: "header_fields \<Rightarrow> bytes res" where
  "struct_pack (m, v, k, n, r, p, s, c, l) =
     bindR (pack_uint 1 v) (\<lambda>bv.
     bindR (pack_uint 1 k) (\<lambda>bk.
     bindR (pack_uint 4 n) (\<lambda>bn.
     bindR (pack_uint 2 r) (\<lambda>br.
     bindR (pack_uint 2 p) (\<lambda>bp.
     bindR (pack_uint 4 l) (\<lambda>bl.
       Inr (pack_str 4 m @ bv @ bk @ bn @ br @ bp @ pack_str 16 s @ pack_str 12 c @ bl)))))))"

definition struct_unpack :: "bytes \<Rightarrow> header_fields" where
  "struct_unpack d =
     (slice 0 4 d, unpack_uint (slice 4 1 d), unpack_uint (slice 5 1 d),
      unpack_uint (slice 6 4 d), unpack_uint (slice 10 2 d), unpack_uint (slice 12 2 d),
      slice 14 16 d, slice 30 12 d, unpack_uint (slice 42 4 d))"

text \<open>The field values the format can carry unchanged, and the bytes they become.\<close>

fun fields_fit :: "header_fields \<Rightarrow> bool" where
  "fields_fit (m, v, k, n, r, p, s, c, l) \<longleftrightarrow>
     length m = 4 \<and> uint_fits 1 v \<and> uint_fits 1 k \<and> uint_fits 4 n \<and> uint_fits 2 r \<and>
     uint_fits 2 p \<and> length s = 16 \<and> length c = 12 \<and> uint_fits 4 l"

fun fields_bytes :: "header_fields \<Rightarrow> bytes" where
  "fields_bytes (m, v, k, n, r, p, s, c, l) =
     pack_str 4 m @ be_bytes 1 (nat v) @ be_bytes 1 (nat k) @ be_bytes 4 (nat n) @
     be_bytes 2 (nat r) @ be_bytes 2 (nat p) @ pack_str 16 s @ pack_str 12 c @
     be_bytes 4 (nat l)"

lemma HEADER_LEN_eq [simp, len_simps]: "HEADER_LEN = 46"
  by (simp add: HEADER_LEN_def)

lemma length_MAGIC [simp, len_simps]: "length MAGIC = 4"
  by (simp add: MAGIC_def ascii_def)

lemma version_fits [simp]: "uint_fits 1 FORMAT_VERSION" "uint_fits 1 KDF_SCRYPT"
  by (simp_all add: uint_fits_def FORMAT_VERSION_def KDF_SCRYPT_def)

lemma length_fields_bytes [simp, len_simps]: "length (fields_bytes x) = HEADER_LEN"
  by (cases x rule: fields_bytes.cases) simp

lemma struct_pack_Inr: "fields_fit x \<Longrightarrow> struct_pack x = Inr (fields_bytes x)"
  by (cases x rule: fields_bytes.cases) (simp add: pack_uint_Inr)

lemma struct_pack_cases: "struct_pack x = Inr (fields_bytes x) \<or> struct_pack x = Inl StructError"
  by (cases x rule: fields_bytes.cases) (simp add: pack_uint_def)

lemma unpack_pack_fields: "fields_fit x \<Longrightarrow> struct_unpack (fields_bytes x) = x"
proof (cases x rule: fields_bytes.cases)
  case (1 m v k n r p s c l)
  moreover assume "fields_fit x"
  ultimately show ?thesis
    by (simp add: struct_unpack_def slice_def pack_str_id uint.dec_enc)
qed

lemma slices_append: "slice i j xs @ slice (i + j) k xs = slice i (j + k) xs"
  by (simp add: slice_def take_add add.commute)

lemma pack_unpack_fields:
  assumes "length d = HEADER_LEN" shows "fields_bytes (struct_unpack d) = d"
proof -
  have len: "length (slice i k d) = k" if "i + k \<le> 46" for i k
    using that assms by (simp add: slice_def)
  have "fields_bytes (struct_unpack d) =
    slice 0 4 d @ slice 4 1 d @ slice 5 1 d @ slice 6 4 d @ slice 10 2 d @ slice 12 2 d @
    slice 14 16 d @ slice 30 12 d @ slice 42 4 d"
    by (simp add: struct_unpack_def len pack_str_id uint.enc_dec)
  also have "\<dots> = slice 0 46 d"
    using slices_append [of 30 12 d 4] slices_append [of 14 16 d 16] slices_append [of 12 2 d 32]
      slices_append [of 10 2 d 34] slices_append [of 6 4 d 36] slices_append [of 5 1 d 40]
      slices_append [of 4 1 d 41] slices_append [of 0 4 d 42] by simp
  finally show ?thesis using assms by (simp add: slice_def)
qed

lemma fit_unpack:
  assumes "length d = HEADER_LEN" shows "fields_fit (struct_unpack d)"
proof -
  have "length (slice i k d) = k" if "i + k \<le> 46" for i k
    using that assms by (simp add: slice_def)
  then show ?thesis by (simp add: struct_unpack_def uint.ok_dec)
qed

interpretation header: exact_codec fields_bytes struct_unpack fields_fit HEADER_LEN
  by unfold_locales (simp_all only: unpack_pack_fields length_fields_bytes pack_unpack_fields fit_unpack)

declare struct_pack.simps [simp del] fields_bytes.simps [simp del]

section \<open>Envelope and parsed header\<close>

record envelope =
  salt :: bytes
  nonce :: bytes
  ciphertext :: bytes
  kdf_n :: int
  kdf_r :: int
  kdf_p :: int
  version :: int
  kdf_id :: int

record parsed_header =
  h_salt :: bytes
  h_nonce :: bytes
  h_ciphertext_length :: int
  h_kdf_n :: int
  h_kdf_r :: int
  h_kdf_p :: int
  h_version :: int
  h_kdf_id :: int

definition header_bytes :: "envelope \<Rightarrow> bytes res" where
  "header_bytes e =
     struct_pack (MAGIC, version e, kdf_id e, kdf_n e, kdf_r e, kdf_p e, salt e, nonce e,
                  int (length (ciphertext e)))"

definition serialize :: "envelope \<Rightarrow> bytes res" where
  "serialize e = bindR (header_bytes e) (\<lambda>h. Inr (h @ ciphertext e))"

definition parse_header :: "bytes \<Rightarrow> parsed_header res" where
  "parse_header data =
     (if length data < HEADER_LEN then Inl (EnvelopeError ''truncated header'')
      else
        (case struct_unpack (take HEADER_LEN data) of (m, v, k, n, r, p, s, c, l) \<Rightarrow>
           if m \<noteq> MAGIC then Inl (EnvelopeError ''bad magic number'')
           else if v \<noteq> FORMAT_VERSION then Inl (EnvelopeError ''unsupported format version'')
           else if k \<noteq> KDF_SCRYPT then Inl (EnvelopeError ''unsupported kdf'')
           else Inr \<lparr>h_salt = s, h_nonce = c, h_ciphertext_length = l, h_kdf_n = n, h_kdf_r = r,
                     h_kdf_p = p, h_version = v, h_kdf_id = k\<rparr>))"

text \<open>
  An envelope of the supported version whose fields the wire format carries unchanged, the
  header it parses to, and the wire fields of a parsed header.
\<close>

definition envelope_ok :: "envelope \<Rightarrow> bool" where
  "envelope_ok e \<longleftrightarrow>
     version e = FORMAT_VERSION \<and> kdf_id e = KDF_SCRYPT \<and> length (salt e) = 16 \<and>
     length (nonce e) = 12 \<and> uint_fits 4 (kdf_n e) \<and> uint_fits 2 (kdf_r e) \<and>
     uint_fits 2 (kdf_p e) \<and> uint_fits 4 (int (length (ciphertext e)))"

definition header_of :: "envelope \<Rightarrow> parsed_header" where
  "header_of e =
     \<lparr>h_salt = salt e, h_nonce = nonce e, h_ciphertext_length = int (length (ciphertext e)),
      h_kdf_n = kdf_n e, h_kdf_r = kdf_r e, h_kdf_p = kdf_p e, h_version = version e,
      h_kdf_id = kdf_id e\<rparr>"

definition header_wire :: "parsed_header \<Rightarrow> bytes" where
  "header_wire h =
     fields_bytes (MAGIC, h_version h, h_kdf_id h, h_kdf_n h, h_kdf_r h, h_kdf_p h, h_salt h,
                   h_nonce h, h_ciphertext_length h)"

lemma header_bytes_ok:
  "envelope_ok e \<Longrightarrow> header_bytes e = Inr (header_wire (header_of e))"
  unfolding header_bytes_def header_wire_def header_of_def
  by (subst struct_pack_Inr) (simp_all add: envelope_ok_def del: One_nat_def)

lemma header_bytes_cases:
  obtains h where "header_bytes e = Inr h" "length h = HEADER_LEN" | "header_bytes e = Inl StructError"
  using struct_pack_cases [of "(MAGIC, version e, kdf_id e, kdf_n e, kdf_r e, kdf_p e, salt e,
    nonce e, int (length (ciphertext e)))"]
  unfolding header_bytes_def by (elim disjE) simp_all

lemma length_header_bytes: "header_bytes e = Inr h \<Longrightarrow> length h = HEADER_LEN"
  by (cases e rule: header_bytes_cases) auto

lemma length_header_wire [simp, len_simps]: "length (header_wire h) = HEADER_LEN"
  by (simp add: header_wire_def)

lemma parse_header_wire:
  assumes "envelope_ok e"
  shows "parse_header (header_wire (header_of e) @ rest) = Inr (header_of e)"
proof -
  have "fields_fit (MAGIC, version e, kdf_id e, kdf_n e, kdf_r e, kdf_p e, salt e, nonce e,
                  int (length (ciphertext e)))"
    using assms by (simp add: envelope_ok_def del: One_nat_def)
  from header.dec_enc [OF this] assms show ?thesis
    by (simp add: parse_header_def header_wire_def header_of_def envelope_ok_def)
qed

lemma parse_header_Inr:
  assumes "parse_header d = Inr h"
  shows "HEADER_LEN \<le> length d" "header_wire h = take HEADER_LEN d"
    "h_version h = FORMAT_VERSION" "h_kdf_id h = KDF_SCRYPT"
    "length (h_salt h) = 16" "length (h_nonce h) = 12"
    "uint_fits 4 (h_ciphertext_length h)" "uint_fits 4 (h_kdf_n h)"
    "uint_fits 2 (h_kdf_r h)" "uint_fits 2 (h_kdf_p h)"
proof -
  obtain m v k n r p s c l where u: "struct_unpack (take HEADER_LEN d) = (m, v, k, n, r, p, s, c, l)"
    by (cases "struct_unpack (take HEADER_LEN d)" rule: fields_bytes.cases)
  from assms show l: "HEADER_LEN \<le> length d"
    by (auto simp: parse_header_def split: if_splits)
  then have *: "length (take HEADER_LEN d) = HEADER_LEN" by simp
  note f = header.enc_dec [OF *, unfolded u] header.ok_dec [OF *, unfolded u]
  from assms f l u show "header_wire h = take HEADER_LEN d"
    "h_version h = FORMAT_VERSION" "h_kdf_id h = KDF_SCRYPT"
    "length (h_salt h) = 16" "length (h_nonce h) = 12"
    "uint_fits 4 (h_ciphertext_length h)" "uint_fits 4 (h_kdf_n h)"
    "uint_fits 2 (h_kdf_r h)" "uint_fits 2 (h_kdf_p h)"
    unfolding header_wire_def
    by (auto simp: parse_header_def simp del: One_nat_def split: if_splits)
qed

lemma parse_header_Inl: "parse_header d = Inl e \<Longrightarrow> \<exists>m. e = EnvelopeError m"
  by (auto simp: parse_header_def split: if_splits prod.splits)

section \<open>Correctness of the header format\<close>

text \<open>
  Serialising and parsing round-trip: the header of every envelope of the supported
  version whose fields are in range is 46 bytes long and parses back to the envelope's salt,
  nonce, cost parameters and ciphertext length, whatever bytes follow it.
\<close>
theorem header_roundtrip:
  assumes "envelope_ok e"
  shows "\<exists>hb. header_bytes e = Inr hb \<and> length hb = 46 \<and>
    parse_header (hb @ rest) =
      Inr \<lparr>h_salt = salt e, h_nonce = nonce e, h_ciphertext_length = int (length (ciphertext e)),
           h_kdf_n = kdf_n e, h_kdf_r = kdf_r e, h_kdf_p = kdf_p e, h_version = version e,
           h_kdf_id = kdf_id e\<rparr>"
  using header_bytes_ok [OF assms] parse_header_wire [OF assms, of rest]
  by (simp add: header_of_def)

definition sample_envelope :: envelope where
  "sample_envelope =
     \<lparr>salt = replicate 16 7, nonce = replicate 12 9, ciphertext = [1, 2, 3], kdf_n = 16384,
      kdf_r = 8, kdf_p = 1, version = 1, kdf_id = 1\<rparr>"

theorem header_roundtrip_witness:
  "\<exists>hb. header_bytes sample_envelope = Inr hb \<and> length hb = 46 \<and>
    parse_header (hb @ [255]) =
      Inr \<lparr>h_salt = salt sample_envelope, h_nonce = nonce sample_envelope,
           h_ciphertext_length = int (length (ciphertext sample_envelope)),
           h_kdf_n = kdf_n sample_envelope, h_kdf_r = kdf_r sample_envelope,
           h_kdf_p = kdf_p sample_envelope, h_version = version sample_envelope,
           h_kdf_id = kdf_id sample_envelope\<rparr>"
  by (rule header_roundtrip)
     (simp add: envelope_ok_def sample_envelope_def uint_fits_def FORMAT_VERSION_def KDF_SCRYPT_def)

text \<open>
  \<open>parse_header\<close> accepts exactly the byte strings of at least 46 bytes that start
  with the magic number, format version 1 and key-derivation identifier 1, and raises
  \<open>EnvelopeError\<close> on every other input.
\<close>
theorem parse_header_accepts:
  "case parse_header d of
      Inr h \<Rightarrow> 46 \<le> length d \<and> take 4 d = MAGIC \<and> d ! 4 = 1 \<and> d ! 5 = 1
    | Inl e \<Rightarrow> \<not> (46 \<le> length d \<and> take 4 d = MAGIC \<and> d ! 4 = 1 \<and> d ! 5 = 1) \<and>
        e \<in> range EnvelopeError"
proof -
  have one: "unpack_uint (slice i (Suc 0) (take 46 d)) = 1 \<longleftrightarrow> d ! i = 1" if "46 \<le> length d" "i < 46" for i
  proof -
    have "slice i (Suc 0) (take 46 d) = [d ! i]"
      using that by (simp add: slice_def take_Suc_conv_app_nth hd_drop_conv_nth take_Suc drop_take)
    moreover have "uint (d ! i) = 1 \<longleftrightarrow> d ! i = 1" by (metis uint_1 word_uint_eq_iff)
    ultimately show ?thesis using be_nat_snoc [of "[]" "d ! i"] by (simp add: unpack_uint_def)
  qed
  have "slice 0 4 (take 46 d) = take 4 d" by (simp add: slice_def)
  then show ?thesis
    by (auto simp: parse_header_def struct_unpack_def FORMAT_VERSION_def KDF_SCRYPT_def one)
qed

text \<open>
  Headers are canonical: a parsed header determines the 46 bytes it was read from,
  so no two different headers parse to the same fields, and every envelope with those fields
  serialises to exactly those bytes.
\<close>
theorem parse_header_canonical:
  assumes "parse_header d = Inr (header_of e)"
  shows "header_bytes e = Inr (take 46 d)"
proof -
  note p = parse_header_Inr [OF assms]
  have "envelope_ok e" using p by (simp add: envelope_ok_def header_of_def)
  from header_bytes_ok [OF this] p(2) show ?thesis by simp
qed

theorem parse_header_canonical_witness:
  "\<exists>d. parse_header d = Inr (header_of sample_envelope) \<and> header_bytes sample_envelope = Inr (take 46 d)"
proof -
  have "envelope_ok sample_envelope"
    by (simp add: envelope_ok_def sample_envelope_def uint_fits_def FORMAT_VERSION_def KDF_SCRYPT_def)
  from parse_header_wire [OF this, of "[]"] parse_header_canonical [of _ sample_envelope]
  show ?thesis by blast
qed

text \<open>
  Property C6. Parsing inverts serialising, and nothing else: bytes parse to the header of an envelope
  exactly when the envelope is of the supported version with every field in range, and the bytes
  begin with the 46 it serialises to. So a header is never lost, and no two byte strings that
  differ within the header are read alike.
\<close>
theorem header_iff:
  "parse_header d = Inr (header_of e) \<longleftrightarrow>
     envelope_ok e \<and> 46 \<le> length d \<and> header_bytes e = Inr (take 46 d)"
proof
  assume *: "parse_header d = Inr (header_of e)"
  then show "envelope_ok e \<and> 46 \<le> length d \<and> header_bytes e = Inr (take 46 d)"
    using parse_header_Inr [OF *] parse_header_canonical [OF *]
    by (simp add: envelope_ok_def header_of_def)
next
  assume *: "envelope_ok e \<and> 46 \<le> length d \<and> header_bytes e = Inr (take 46 d)"
  then obtain hb where "header_bytes e = Inr hb" "parse_header (hb @ drop 46 d) = Inr (header_of e)"
    using header_roundtrip [of e "drop 46 d"] by (auto simp: header_of_def)
  with * show "parse_header d = Inr (header_of e)" by simp
qed

end
