(* ===== verification/Crypto.thy ===== *)
theory Crypto
  imports Runtime Envelope
begin

text \<open>
  Key derivation (\<^verbatim>\<open>app/crypto/kdf.py\<close>) and authenticated encryption
  (\<^verbatim>\<open>app/crypto/aead.py\<close>) over the library functions of the record \<open>lib\<close>.
\<close>

section \<open>Key derivation\<close>

definition SALT_BYTES :: nat where "SALT_BYTES = 16"
definition KEY_BYTES :: nat where "KEY_BYTES = 32"
definition SCRYPT_N :: int where "SCRYPT_N = 2 ^ 14"
definition SCRYPT_R :: int where "SCRYPT_R = 8"
definition SCRYPT_P :: int where "SCRYPT_P = 1"

definition generate_salt :: "(entropy, bytes) py" where
  "generate_salt = urandom SALT_BYTES"

definition derive_key :: "lib \<Rightarrow> pystr \<Rightarrow> bytes \<Rightarrow> int \<Rightarrow> int \<Rightarrow> int \<Rightarrow> bytes res" where
  "derive_key L passphrase s n r p =
     bindR (scrypt_init L s KEY_BYTES n r p) (\<lambda>_.
     bindR (utf8_encode passphrase) (\<lambda>b.
       scrypt_derive L s KEY_BYTES n r p b))"

section \<open>Authenticated encryption\<close>

definition NONCE_BYTES :: nat where "NONCE_BYTES = 12"

definition encrypt :: "lib \<Rightarrow> bytes \<Rightarrow> bytes \<Rightarrow> (entropy, bytes \<times> bytes) py" where
  "encrypt L key plaintext =
     bindM (urandom NONCE_BYTES) (\<lambda>n.
     bindM (liftR (aesgcm_encrypt L key n plaintext)) (\<lambda>c.
       ret (n, c)))"

definition decrypt :: "lib \<Rightarrow> bytes \<Rightarrow> bytes \<Rightarrow> bytes \<Rightarrow> bytes res" where
  "decrypt L key n c =
     catchR (aesgcm_decrypt L key n c)
       (\<lambda>e. if e = InvalidTag \<or> is_value_error e then Inl DecryptionError else Inl e)"

text \<open>Key derivation can only fail in the cryptography package: a passphrase that has no UTF-8
  form raises \<open>UnicodeEncodeError\<close>, a \<open>ValueError\<close>.\<close>

lemma derive_key_accepted:
  assumes "scrypt_spec L n r p" "length s = 16" "derive_key L pw s n r p = Inl e"
  shows "is_value_error e"
proof -
  have "is_value_error x" if "utf8_encode pw = Inl x" for x
    using utf8_encode_Inl [OF that] by (simp add: is_value_error_def)
  moreover have "scrypt_init L s KEY_BYTES n r p = Inr ()"
    "\<exists>k. scrypt_derive L s KEY_BYTES n r p b = Inr k" for b
    using assms(1,2) unfolding scrypt_spec_def by blast+
  ultimately show ?thesis
    using assms(3) unfolding derive_key_def bindR_Inl_iff by (metis Inl_Inr_False)
qed

lemma derive_key_default:
  assumes "scrypt_spec L n r p" "length s = 16" "encodable pw"
  shows "\<exists>k. derive_key L pw s n r p = Inr k \<and> length k = 32"
proof -
  obtain b where b: "utf8_encode pw = Inr b" using utf8_encode_total assms(3) by blast
  obtain k where "scrypt_derive L s KEY_BYTES n r p b = Inr k" "length k = KEY_BYTES"
    using assms(1,2) unfolding scrypt_spec_def by blast
  moreover have "scrypt_init L s KEY_BYTES n r p = Inr ()"
    using assms(1,2) unfolding scrypt_spec_def by blast
  ultimately show ?thesis using b by (simp add: derive_key_def KEY_BYTES_def)
qed

lemma encrypt_total:
  assumes "aead_spec L" "length k = 32" "length x < 2 ^ 31"
  shows "\<exists>c. aesgcm_encrypt L k (window E (cursor E) 12) x = Inr c \<and> length c = length x + 16 \<and>
    encrypt L k x E = (Inr (window E (cursor E) 12, c), E\<lparr>cursor := cursor E + 12\<rparr>)"
proof -
  obtain c where "aesgcm_encrypt L k (window E (cursor E) 12) x = Inr c" "length c = length x + 16"
    using assms unfolding aead_spec_def by (meson length_window)
  then show ?thesis by (simp add: encrypt_def urandom_def NONCE_BYTES_def py_simps)
qed

lemma aead_opens: "aead_spec L \<Longrightarrow> aesgcm_decrypt L k n c = Inr x \<longleftrightarrow> aesgcm_encrypt L k n x = Inr c"
  unfolding aead_spec_def by blast

lemma aead_errors:
  "aead_spec L \<Longrightarrow> aesgcm_decrypt L k n c = Inl e \<Longrightarrow> e = InvalidTag \<or> is_value_error e"
  unfolding aead_spec_def is_value_error_def by blast

lemma decrypt_Inr_iff_lib: "decrypt L k n c = Inr x \<longleftrightarrow> aesgcm_decrypt L k n c = Inr x"
  unfolding decrypt_def by (cases "aesgcm_decrypt L k n c") simp_all

lemma decrypt_Inr_iff:
  assumes "aead_spec L"
  shows "decrypt L k n c = Inr x \<longleftrightarrow> aesgcm_encrypt L k n x = Inr c"
  unfolding decrypt_Inr_iff_lib by (rule aead_opens [OF assms])

lemma decrypt_Inl:
  assumes "aead_spec L" "decrypt L k n c = Inl e"
  shows "e = DecryptionError"
proof (cases "aesgcm_decrypt L k n c")
  case (Inl x)
  with aead_errors [OF assms(1) Inl] assms(2) show ?thesis by (simp add: decrypt_def)
next
  case (Inr x)
  with assms(2) show ?thesis by (simp add: decrypt_def)
qed

end
