(* ===== verification/Lsb.thy ===== *)
theory Lsb
  imports Crypto
begin

unbundle bit_operations_syntax

text \<open>
  The carrier side of the engine: capacity (\<^verbatim>\<open>app/steganography/capacity.py\<close>), the
  seeded permutation (\<^verbatim>\<open>pixel_permutation.py\<close>) and LSB embedding and reading
  (\<^verbatim>\<open>lsb_png.py\<close>). The locale \<open>sample_channel\<close> is the interface between one
  image sample and the bit it hides; read-back after a scattered write and the invariance of
  the cover are proved once inside it.
\<close>

section \<open>Capacity\<close>

definition GCM_TAG_BYTES :: nat where "GCM_TAG_BYTES = 16"

definition channel_count :: "image \<Rightarrow> nat" where
  "channel_count im = (if img_mode im = ''RGBA'' then 4 else 3)"

definition total_capacity_bytes :: "image \<Rightarrow> nat" where
  "total_capacity_bytes im = (img_width im * img_height im * channel_count im) div 8"

definition max_payload_bytes :: "image \<Rightarrow> int" where
  "max_payload_bytes im =
     (let usable = int (total_capacity_bytes im) - int HEADER_LEN - int GCM_TAG_BYTES
      in max usable 0)"

definition fits :: "image \<Rightarrow> nat \<Rightarrow> bool" where
  "fits im payload_len \<longleftrightarrow> int payload_len \<le> max_payload_bytes im"

section \<open>The permutation\<close>

definition DOMAIN :: bytes where
  "DOMAIN = ascii ''steg-permutation-v1''"

definition seed_from_key :: "lib \<Rightarrow> bytes \<Rightarrow> nat" where
  "seed_from_key L key = be_nat (take 8 (sha256 L (DOMAIN @ key)))"

definition permuted_positions :: "lib \<Rightarrow> bytes \<Rightarrow> nat list \<Rightarrow> nat list" where
  "permuted_positions L key positions = rng_permutation L (seed_from_key L key) positions"

lemma permuted_props:
  assumes "permutation_spec L"
  shows "length (permuted_positions L key [a..<b]) = b - a"
    "distinct (permuted_positions L key [a..<b])"
    "set (permuted_positions L key [a..<b]) = {a..<b}"
proof -
  have m: "mset (permuted_positions L key [a..<b]) = mset [a..<b]"
    using assms by (simp add: permutation_spec_def permuted_positions_def)
  from mset_eq_length [OF m] show "length (permuted_positions L key [a..<b]) = b - a" by simp
  from mset_eq_imp_distinct_iff [OF m] show "distinct (permuted_positions L key [a..<b])" by simp
  from mset_eq_setD [OF m] show "set (permuted_positions L key [a..<b]) = {a..<b}" by simp
qed

lemma permuted_take:
  assumes "permutation_spec L" "n \<le> b - a"
  shows "length (take n (permuted_positions L key [a..<b])) = n"
    "distinct (take n (permuted_positions L key [a..<b]))"
    "set (take n (permuted_positions L key [a..<b])) \<subseteq> {a..<b}"
proof -
  note p = permuted_props [OF assms(1), of key a b]
  show "length (take n (permuted_positions L key [a..<b])) = n" using p(1) assms(2) by simp
  show "distinct (take n (permuted_positions L key [a..<b]))" using p(2) by (rule distinct_take)
  show "set (take n (permuted_positions L key [a..<b])) \<subseteq> {a..<b}"
    unfolding p(3) [symmetric] by (rule set_take_subset)
qed

section \<open>Hiding one bit in one sample\<close>

definition put_lsb :: "byte \<Rightarrow> byte \<Rightarrow> byte" where
  "put_lsb x b = (x AND 0xFE) OR b"

definition get_lsb :: "byte \<Rightarrow> byte" where
  "get_lsb x = x AND 1"

locale sample_channel =
  fixes put :: "'s \<Rightarrow> byte \<Rightarrow> 's" and get :: "'s \<Rightarrow> byte" and cover :: "'s \<Rightarrow> 'c"
  assumes get_put: "b \<in> {0, 1} \<Longrightarrow> get (put x b) = b"
    and cover_put: "b \<in> {0, 1} \<Longrightarrow> cover (put x b) = cover x"
begin

lemma read_back:
  assumes "distinct ts" "\<forall>t \<in> set ts. t < length xs" "length bs = length ts" "bits bs"
  shows "map (\<lambda>t. get (assign xs ts (map2 put (map ((!) xs) ts) bs) ! t)) ts = bs"
proof -
  let ?vs = "map2 put (map ((!) xs) ts) bs"
  have "map (\<lambda>t. get (assign xs ts ?vs ! t)) ts = map get (map ((!) (assign xs ts ?vs)) ts)"
    by simp
  also have "\<dots> = map get ?vs" by (subst assign_read_back) (simp_all add: assms)
  also have "\<dots> = bs"
  proof (rule nth_equalityI)
    fix i assume "i < length (map get ?vs)"
    then have "i < length bs" "bs ! i \<in> {0, 1}"
      using bits_nth [OF assms(4)] by simp_all
    then show "map get ?vs ! i = bs ! i" using assms(3) by (simp add: get_put)
  qed (use assms in simp)
  finally show ?thesis .
qed

lemma cover_unchanged:
  assumes "distinct ts" "\<forall>t \<in> set ts. t < length xs" "length bs = length ts" "bits bs"
  shows "map cover (assign xs ts (map2 put (map ((!) xs) ts) bs)) = map cover xs"
proof (rule nth_equalityI)
  let ?ys = "assign xs ts (map2 put (map ((!) xs) ts) bs)"
  fix i assume "i < length (map cover ?ys)"
  then have i: "i < length xs" by simp
  show "map cover ?ys ! i = map cover xs ! i"
  proof (cases "i \<in> set ts")
    case True
    then obtain k where k: "k < length ts" "i = ts ! k" by (metis in_set_conv_nth)
    then have "bs ! k \<in> {0, 1}" using assms(3) bits_nth [OF assms(4)] by simp
    moreover have "?ys ! i = put (xs ! i) (bs ! k)" using assms k by (simp add: assign_at)
    ultimately show ?thesis using i by (simp add: cover_put)
  qed (use i in \<open>simp add: assign_other\<close>)
qed simp

end

interpretation lsb: sample_channel put_lsb get_lsb "\<lambda>x. drop_bit 1 x"
proof unfold_locales
  fix b x :: byte
  assume "b \<in> {0, 1}"
  then have b: "bit b i \<longleftrightarrow> i = 0 \<and> b = 1" for i by (auto simp: bit_simps)
  have "(0xFE :: byte) = NOT 1" by simp
  then have "bit (0xFE :: byte) i \<longleftrightarrow> bit (NOT 1 :: byte) i" for i by (rule arg_cong)
  then have m: "bit (0xFE :: byte) i \<longleftrightarrow> i \<noteq> 0 \<and> i < 8" for i
    by (simp only: bit_not_iff bit_1_iff) auto
  show "get_lsb (put_lsb x b) = b"
    unfolding get_lsb_def put_lsb_def by (rule bit_word_eqI) (auto simp: bit_or_iff bit_and_iff m b bit_1_iff)
  have upper: "bit (put_lsb x b) (1 + n) \<longleftrightarrow> bit x (1 + n)" for n
    unfolding put_lsb_def bit_or_iff bit_and_iff m b
    using bit_imp_le_length [of x "1 + n"] by auto
  show "drop_bit 1 (put_lsb x b) = drop_bit 1 x"
    by (rule bit_word_eqI) (simp only: bit_drop_bit_eq o_def upper)
qed

end
