(* ===== verification/LsbPng.thy ===== *)
theory LsbPng
  imports Lsb
begin

unbundle bit_operations_syntax

text \<open>
  \<^verbatim>\<open>app/steganography/lsb_png.py\<close>: the two-region layout, header sequential in the
  first \<open>HEADER_BITS\<close> samples and ciphertext permuted over the rest. The lemmas show that
  the two regions do not interfere, that both read back, and that no more than the least
  significant bits of the targeted samples change.
\<close>

section \<open>The operations\<close>

definition HEADER_BITS :: nat where
  "HEADER_BITS = HEADER_LEN * 8"

text \<open>The image in the mode it is embedded in, and its flat channel array, mode and size.\<close>

definition carrier :: "lib \<Rightarrow> image \<Rightarrow> image" where
  "carrier L im =
     (let mode = (if img_mode im \<in> {''RGB'', ''RGBA''} then img_mode im else ''RGB'')
      in if img_mode im \<noteq> mode then pil_convert L im mode else im)"

definition to_channels :: "lib \<Rightarrow> image \<Rightarrow> bytes \<times> string \<times> nat \<times> nat" where
  "to_channels L im =
     (img_samples (carrier L im),
      (if img_mode im \<in> {''RGB'', ''RGBA''} then img_mode im else ''RGB''),
      img_width (carrier L im), img_height (carrier L im))"

definition bytes_to_bits :: "bytes \<Rightarrow> bytes" where
  "bytes_to_bits data = unpackbits data"

definition bits_to_bytes :: "bytes \<Rightarrow> bytes" where
  "bits_to_bytes bs = packbits bs"

definition perm_key :: "envelope \<Rightarrow> bytes" where
  "perm_key e = salt e @ nonce e"

text \<open>
  \<^verbatim>\<open>flat[ts] = (flat[ts] & 0xFE) | bs\<close> and \<^verbatim>\<open>flat[ts] & 1\<close>, with the exceptions
  numpy raises on an index out of range and on operands of different length.
\<close>

definition set_lsbs :: "bytes \<Rightarrow> nat list \<Rightarrow> bytes \<Rightarrow> bytes res" where
  "set_lsbs flat ts bs =
     (if \<exists>t \<in> set ts. length flat \<le> t then Inl IndexError
      else if length ts \<noteq> length bs then Inl ValueError
      else Inr (assign flat ts (map2 put_lsb (map ((!) flat) ts) bs)))"

definition get_lsbs :: "bytes \<Rightarrow> nat list \<Rightarrow> bytes res" where
  "get_lsbs flat ts =
     (if \<exists>t \<in> set ts. length flat \<le> t then Inl IndexError
      else Inr (map (\<lambda>t. get_lsb (flat ! t)) ts))"

text \<open>The body of \<^verbatim>\<open>embed\<close> on the channel array, lines 48 to 63.\<close>

definition embed_flat :: "lib \<Rightarrow> bytes \<Rightarrow> envelope \<Rightarrow> bytes res" where
  "embed_flat L flat e =
     (let total = length flat in
      bindR (header_bytes e) (\<lambda>hb.
      let header_bits = bytes_to_bits hb; cipher_bits = bytes_to_bits (ciphertext e) in
      if HEADER_BITS + length cipher_bits > total
      then Inl (CapacityError ''payload exceeds image capacity'')
      else
        bindR (set_lsbs flat [0..<HEADER_BITS] header_bits) (\<lambda>flat1.
        let remaining = [HEADER_BITS..<total];
            order = permuted_positions L (perm_key e) remaining;
            targets = take (length cipher_bits) order
        in set_lsbs flat1 targets cipher_bits)))"

definition embed :: "lib \<Rightarrow> image \<Rightarrow> envelope \<Rightarrow> bytes res" where
  "embed L im e =
     (case to_channels L im of (flat, mode, width, height) \<Rightarrow>
        bindR (embed_flat L flat e) (\<lambda>out.
        let channels = (if mode = ''RGBA'' then 4 else 3) in
        if length out \<noteq> height * width * channels then Inl ValueError
        else Inr (png_save L \<lparr>img_mode = mode, img_width = width, img_height = height,
                             img_samples = out\<rparr>)))"

definition read_header_region :: "lib \<Rightarrow> image \<Rightarrow> bytes res" where
  "read_header_region L im =
     (let flat = fst (to_channels L im) in
      if length flat < HEADER_BITS
      then Inl (CapacityError ''image too small to contain a header'')
      else Inr (bits_to_bytes (map get_lsb (take HEADER_BITS flat))))"

text \<open>A Python slice \<^verbatim>\<open>xs[:n]\<close> for any integer \<open>n\<close>.\<close>

definition py_prefix :: "int \<Rightarrow> 'a list \<Rightarrow> 'a list" where
  "py_prefix n xs = (if 0 \<le> n then take (nat n) xs else take (length xs - nat (- n)) xs)"

definition read_ciphertext_region :: "lib \<Rightarrow> image \<Rightarrow> bytes \<Rightarrow> int \<Rightarrow> bytes res" where
  "read_ciphertext_region L im key ciphertext_length =
     (let flat = fst (to_channels L im);
          total = length flat;
          remaining = [HEADER_BITS..<total];
          order = permuted_positions L key remaining;
          n_bits = ciphertext_length * 8
      in if n_bits > int (length order)
         then Inl (CapacityError ''declared ciphertext length exceeds image'')
         else bindR (get_lsbs flat (py_prefix n_bits order)) (\<lambda>bs. Inr (bits_to_bytes bs)))"

lemma HEADER_BITS_eq: "HEADER_BITS = 368"
  by (simp add: HEADER_BITS_def)

lemma carrier_colour [simp]: "colour_image im \<Longrightarrow> carrier L im = im"
  by (auto simp: carrier_def colour_image_def)

lemma carrier_props:
  assumes "convert_spec L" "0 < img_width im" "0 < img_height im"
    "img_mode im \<in> {''RGB'', ''RGBA''} \<longrightarrow> colour_image im"
  shows "colour_image (carrier L im)" "img_width (carrier L im) = img_width im"
    "img_height (carrier L im) = img_height im"
    "img_mode (carrier L im) = (if img_mode im = ''RGBA'' then ''RGBA'' else ''RGB'')"
    "length (img_samples (carrier L im)) = img_width im * img_height im * channel_count im"
  using assms
  by (auto simp: carrier_def convert_spec_def colour_image_def channel_count_def mode_channels_def)

lemma to_channels_colour:
  "colour_image im \<Longrightarrow>
     to_channels L im = (img_samples im, img_mode im, img_width im, img_height im)"
  by (auto simp: to_channels_def colour_image_def carrier_def)

section \<open>Non-interference of the two regions\<close>

lemma set_lsbs_ok:
  assumes "\<forall>t \<in> set ts. t < length flat" "length bs = length ts"
  shows "set_lsbs flat ts bs = Inr (assign flat ts (map2 put_lsb (map ((!) flat) ts) bs))"
  using assms by (auto simp: set_lsbs_def)

text \<open>What a successful \<open>embed_flat\<close> leaves in the array.\<close>

definition holds_envelope :: "lib \<Rightarrow> bytes \<Rightarrow> envelope \<Rightarrow> bytes \<Rightarrow> bool" where
  "holds_envelope L out e hb \<longleftrightarrow>
     map get_lsb (take HEADER_BITS out) = bytes_to_bits hb \<and>
     map (\<lambda>t. get_lsb (out ! t))
       (take (8 * length (ciphertext e))
          (permuted_positions L (perm_key e) [HEADER_BITS..<length out]))
       = bytes_to_bits (ciphertext e)"

definition cover_of :: "bytes \<Rightarrow> bytes" where
  "cover_of flat = map (drop_bit 1) flat"

text \<open>The positions at which two sample arrays differ.\<close>

definition changed :: "bytes \<Rightarrow> bytes \<Rightarrow> nat set" where
  "changed flat out = {i. i < length flat \<and> out ! i \<noteq> flat ! i}"

lemma changed_writes:
  "card (changed flat (assign (assign flat ts vs) us ws)) \<le> length ts + length us"
proof -
  have "changed flat (assign (assign flat ts vs) us ws) \<subseteq> set (ts @ us)"
    by (auto simp: changed_def assign_other intro: ccontr)
  then have "card (changed flat (assign (assign flat ts vs) us ws)) \<le> card (set (ts @ us))"
    by (intro card_mono) simp_all
  then show ?thesis using card_length [of "ts @ us"] by simp
qed

text \<open>The two writes of \<open>embed_flat\<close>: bits into samples, at the header's and at the ciphertext's positions.\<close>

definition put_bits :: "bytes \<Rightarrow> nat list \<Rightarrow> byte list \<Rightarrow> bytes" where
  "put_bits flat ts bs = assign flat ts (map2 put_lsb (map ((!) flat) ts) bs)"

definition scattered :: "lib \<Rightarrow> nat \<Rightarrow> envelope \<Rightarrow> nat list" where
  "scattered L n e = take (8 * length (ciphertext e)) (permuted_positions L (perm_key e) [HEADER_BITS..<n])"

lemma length_put_bits [simp, len_simps]: "length (put_bits flat ts bs) = length flat"
  by (simp add: put_bits_def)

lemma scattered_props:
  assumes "permutation_spec L" "HEADER_BITS + 8 * length (ciphertext e) \<le> n"
  shows "distinct (scattered L n e)" "set (scattered L n e) \<subseteq> {HEADER_BITS..<n}"
    "length (scattered L n e) = 8 * length (ciphertext e)"
  using permuted_take [OF assms(1), of "8 * length (ciphertext e)" n HEADER_BITS "perm_key e"] assms(2)
  by (simp_all add: scattered_def)

lemma embed_flat_run:
  assumes "permutation_spec L" "header_bytes e = Inr hb"
    and "HEADER_BITS + 8 * length (ciphertext e) \<le> length flat"
  shows "embed_flat L flat e = Inr (put_bits (put_bits flat [0..<HEADER_BITS] (bytes_to_bits hb))
    (scattered L (length flat) e) (bytes_to_bits (ciphertext e)))"
proof -
  let ?bs = "bytes_to_bits hb" and ?cs = "bytes_to_bits (ciphertext e)"
  have l: "length ?bs = HEADER_BITS" "length ?cs = 8 * length (ciphertext e)"
    using length_header_bytes [OF assms(2)] by (simp_all add: bytes_to_bits_def HEADER_BITS_def)
  note ts = scattered_props [OF assms(1,3)]
  have "set_lsbs flat [0..<HEADER_BITS] ?bs = Inr (put_bits flat [0..<HEADER_BITS] ?bs)"
    unfolding put_bits_def by (rule set_lsbs_ok) (use l assms(3) in auto)
  moreover have "set_lsbs (put_bits flat [0..<HEADER_BITS] ?bs) (scattered L (length flat) e) ?cs =
      Inr (put_bits (put_bits flat [0..<HEADER_BITS] ?bs) (scattered L (length flat) e) ?cs)"
    unfolding put_bits_def [of _ "scattered L (length flat) e"]
    by (rule set_lsbs_ok) (use ts l(2) in \<open>auto simp: put_bits_def\<close>)
  ultimately show ?thesis
    using assms(2,3) l(2) by (simp add: embed_flat_def Let_def scattered_def)
qed

lemma embed_flat_ok:
  assumes "permutation_spec L" "header_bytes e = Inr hb"
    and "HEADER_BITS + 8 * length (ciphertext e) \<le> length flat"
  obtains out where "embed_flat L flat e = Inr out" "length out = length flat"
    "cover_of out = cover_of flat" "holds_envelope L out e hb"
    "card (changed flat out) \<le> HEADER_BITS + 8 * length (ciphertext e)"
proof -
  define ts where "ts = scattered L (length flat) e"
  define bits1 where "bits1 = bytes_to_bits hb"
  define bits2 where "bits2 = bytes_to_bits (ciphertext e)"
  define flat1 where "flat1 = put_bits flat [0..<HEADER_BITS] bits1"
  define out where "out = put_bits flat1 ts bits2"
  have ts: "distinct ts" "set ts \<subseteq> {HEADER_BITS..<length flat}" "length ts = length bits2"
    "length ts = 8 * length (ciphertext e)"
    using scattered_props [OF assms(1,3)] by (simp_all add: ts_def bits2_def bytes_to_bits_def)
  have hl: "length bits1 = HEADER_BITS"
    using length_header_bytes [OF assms(2)] by (simp add: bits1_def bytes_to_bits_def HEADER_BITS_def)
  have b: "bits bits1" "bits bits2" by (simp_all add: bits1_def bits2_def bytes_to_bits_def)
  have l1: "length flat1 = length flat" by (simp add: flat1_def)
  have head: "map get_lsb (take HEADER_BITS flat1) = bits1"
    using lsb.read_back [of "[0..<HEADER_BITS]" flat bits1] hl b assms(3)
    by (simp add: flat1_def put_bits_def map_take_upt)
  have "take HEADER_BITS out = take HEADER_BITS flat1"
    unfolding out_def put_bits_def by (rule take_assign_ge) (use ts in auto)
  moreover have "map (\<lambda>t. get_lsb (out ! t)) ts = bits2"
    unfolding out_def put_bits_def by (rule lsb.read_back) (use ts b l1 in auto)
  ultimately have "holds_envelope L out e hb"
    using head l1 by (simp add: holds_envelope_def bits1_def bits2_def out_def ts_def scattered_def)
  moreover have "cover_of out = cover_of flat1"
    unfolding out_def cover_of_def put_bits_def by (rule lsb.cover_unchanged) (use ts b l1 in auto)
  moreover have "cover_of flat1 = cover_of flat"
    unfolding flat1_def cover_of_def put_bits_def by (rule lsb.cover_unchanged) (use hl b assms(3) in auto)
  moreover have "card (changed flat out) \<le> HEADER_BITS + 8 * length (ciphertext e)"
    using changed_writes ts(4) unfolding out_def flat1_def put_bits_def by (metis length_upt minus_nat.diff_0)
  moreover have "embed_flat L flat e = Inr out"
    by (simp only: embed_flat_run [OF assms] out_def flat1_def ts_def bits1_def bits2_def)
  ultimately show ?thesis using that by (simp add: out_def l1)
qed

lemma embed_flat_too_big:
  assumes "header_bytes e = Inr hb" "length flat < HEADER_BITS + 8 * length (ciphertext e)"
  shows "embed_flat L flat e = Inl (CapacityError ''payload exceeds image capacity'')"
  using assms by (simp add: embed_flat_def bytes_to_bits_def)

section \<open>Embedding and reading images\<close>

definition with_samples :: "image \<Rightarrow> bytes \<Rightarrow> image" where
  "with_samples im out = im\<lparr>img_samples := out\<rparr>"

lemma embed_colour:
  assumes "colour_image (carrier L im)"
    "img_mode (carrier L im) = (if img_mode im = ''RGBA'' then ''RGBA'' else ''RGB'')"
    "embed_flat L (img_samples (carrier L im)) e = Inr out"
    "length out = length (img_samples (carrier L im))"
  shows "embed L im e = Inr (png_save L (with_samples (carrier L im) out))"
proof -
  have "(if img_mode im \<in> {''RGB'', ''RGBA''} then img_mode im else ''RGB'') = img_mode (carrier L im)"
    using assms(2) by auto
  then show ?thesis
    using assms by (cases "carrier L im")
      (simp add: embed_def to_channels_def colour_image_def mode_channels_def with_samples_def mult_ac)
qed

lemma colour_with_samples:
  "colour_image im \<Longrightarrow> length out = length (img_samples im) \<Longrightarrow> colour_image (with_samples im out)"
  by (simp add: colour_image_def with_samples_def)

lemma read_header_holds:
  assumes "colour_image im" "holds_envelope L (img_samples im) e hb" "HEADER_BITS \<le> length (img_samples im)"
  shows "read_header_region L im = Inr hb"
  using assms
  by (simp add: read_header_region_def to_channels_colour holds_envelope_def bits_to_bytes_def
      bytes_to_bits_def packbits_unpackbits)

lemma read_ciphertext_holds:
  assumes "permutation_spec L" "colour_image im" "holds_envelope L (img_samples im) e hb"
    "HEADER_BITS + 8 * length (ciphertext e) \<le> length (img_samples im)"
  shows "read_ciphertext_region L im (perm_key e) (int (length (ciphertext e))) = Inr (ciphertext e)"
proof -
  define order where
    "order = permuted_positions L (perm_key e) [HEADER_BITS..<length (img_samples im)]"
  have le: "8 * length (ciphertext e) \<le> length (img_samples im) - HEADER_BITS"
    using assms(4) by simp
  have len: "length order = length (img_samples im) - HEADER_BITS"
    unfolding order_def by (rule permuted_props [OF assms(1)])
  have "\<forall>t \<in> set (take (8 * length (ciphertext e)) order). t < length (img_samples im)"
    using permuted_take(3) [OF assms(1) le, of "perm_key e"] unfolding order_def by auto
  then have "get_lsbs (img_samples im) (take (8 * length (ciphertext e)) order)
      = Inr (bytes_to_bits (ciphertext e))"
    using assms(3) unfolding get_lsbs_def holds_envelope_def order_def [symmetric]
    by (auto simp: not_le)
  moreover have "py_prefix (int (length (ciphertext e)) * 8) order = take (8 * length (ciphertext e)) order"
    by (simp add: py_prefix_def nat_mult_distrib mult.commute)
  ultimately show ?thesis
    using le len assms(2) unfolding read_ciphertext_region_def Let_def
    by (simp add: to_channels_colour order_def [symmetric] bits_to_bytes_def bytes_to_bits_def
        packbits_unpackbits)
qed

end
