(* ===== verification/Stego.thy ===== *)
theory Stego
  imports LsbPng Demo
begin

text \<open>
  The engine's workflows: \<^verbatim>\<open>app/services/embed_service.py\<close>,
  \<^verbatim>\<open>app/steganography/extractor.py\<close> (with the thin
  \<^verbatim>\<open>app/services/extract_service.py\<close>) and \<^verbatim>\<open>app/steganography/verifier.py\<close>.
  The lemmas describe a successful embedding completely and every way an extraction can end.
\<close>

section \<open>Embedding\<close>

definition embed_payload :: "lib \<Rightarrow> image \<Rightarrow> bytes \<Rightarrow> pystr \<Rightarrow> (entropy, bytes) py" where
  "embed_payload L im payload passphrase =
     (if \<not> fits im (length payload)
      then raise (CapacityError ''payload exceeds image capacity'')
      else
        bindM generate_salt (\<lambda>s.
        bindM (liftR (derive_key L passphrase s SCRYPT_N SCRYPT_R SCRYPT_P)) (\<lambda>key.
        bindM (encrypt L key payload) (\<lambda>(n, c).
        liftR (embed L im
          \<lparr>salt = s, nonce = n, ciphertext = c, kdf_n = SCRYPT_N, kdf_r = SCRYPT_R,
           kdf_p = SCRYPT_P, version = FORMAT_VERSION, kdf_id = KDF_SCRYPT\<rparr>)))))"

section \<open>Extraction\<close>

definition GENERIC_MESSAGE :: string where
  "GENERIC_MESSAGE =
     ''Payload extraction failed: the embedded content could not be authenticated.''"

text \<open>\<^verbatim>\<open>except (EnvelopeError, DecryptionError, CapacityError, ValueError)\<close>\<close>

fun extract_catches :: "exn \<Rightarrow> bool" where
  "extract_catches (EnvelopeError _) = True"
| "extract_catches DecryptionError = True"
| "extract_catches (CapacityError _) = True"
| "extract_catches e = is_value_error e"

definition extract_stego :: "lib \<Rightarrow> image \<Rightarrow> pystr \<Rightarrow> bytes res" where
  "extract_stego L im passphrase =
     catchR
       (bindR (bindR (read_header_region L im) parse_header) (\<lambda>header.
        let key0 = h_salt header @ h_nonce header in
        bindR (read_ciphertext_region L im key0 (h_ciphertext_length header)) (\<lambda>c.
        bindR (derive_key L passphrase (h_salt header)
                 (h_kdf_n header) (h_kdf_r header) (h_kdf_p header)) (\<lambda>key.
        decrypt L key (h_nonce header) c))))
       (\<lambda>e. if extract_catches e then Inl (ExtractionError GENERIC_MESSAGE) else Inl e)"

definition extract_payload :: "lib \<Rightarrow> image \<Rightarrow> pystr \<Rightarrow> bytes res" where
  "extract_payload L im passphrase = extract_stego L im passphrase"

section \<open>Structural verification\<close>

record verify_result =
  compatible_payload_detected :: bool
  envelope_structure_valid :: bool
  format_version :: "int option"
  algorithm_version :: "int option"

text \<open>\<^verbatim>\<open>except (EnvelopeError, CapacityError, ValueError)\<close>\<close>

fun verify_catches :: "exn \<Rightarrow> bool" where
  "verify_catches (EnvelopeError _) = True"
| "verify_catches (CapacityError _) = True"
| "verify_catches e = is_value_error e"

definition verify :: "lib \<Rightarrow> image \<Rightarrow> verify_result res" where
  "verify L im =
     (case bindR (read_header_region L im) parse_header of
        Inl e \<Rightarrow>
          if verify_catches e
          then Inr \<lparr>compatible_payload_detected = False, envelope_structure_valid = False,
                    format_version = None, algorithm_version = None\<rparr>
          else Inl e
      | Inr header \<Rightarrow>
          let declared_ok = h_ciphertext_length header \<le> int (total_capacity_bytes im)
          in Inr \<lparr>compatible_payload_detected = True, envelope_structure_valid = declared_ok,
                  format_version = Some (h_version header),
                  algorithm_version = Some (h_kdf_id header)\<rparr>)"

section \<open>What the engine relies on\<close>

definition engine_spec :: "lib \<Rightarrow> bool" where
  "engine_spec L \<longleftrightarrow>
     permutation_spec L \<and> aead_spec L \<and> scrypt_spec L SCRYPT_N SCRYPT_R SCRYPT_P \<and> convert_spec L"

text \<open>An image Pillow has decoded: non-empty, and with samples as its mode and size say.\<close>

definition decoded_image :: "image \<Rightarrow> bool" where
  "decoded_image im \<longleftrightarrow>
     0 < img_width im \<and> 0 < img_height im \<and>
     (img_mode im \<in> {''RGB'', ''RGBA''} \<longrightarrow> colour_image im)"

text \<open>Room for the header, the tag and \<open>n\<close> bytes of payload.\<close>

definition has_room :: "image \<Rightarrow> nat \<Rightarrow> bool" where
  "has_room im n \<longleftrightarrow> HEADER_LEN + GCM_TAG_BYTES + n \<le> total_capacity_bytes im"

lemma engine_specD:
  assumes "engine_spec L"
  shows "permutation_spec L" "aead_spec L" "scrypt_spec L SCRYPT_N SCRYPT_R SCRYPT_P" "convert_spec L"
  using assms by (simp_all add: engine_spec_def)

lemma has_room_fits: "has_room im n \<Longrightarrow> fits im n"
  by (simp add: has_room_def fits_def max_payload_bytes_def Let_def GCM_TAG_BYTES_def)

lemma fits_has_room: "fits im n \<Longrightarrow> 0 < n \<Longrightarrow> has_room im n"
  by (simp add: has_room_def fits_def max_payload_bytes_def Let_def GCM_TAG_BYTES_def)

lemma carrier_decoded:
  assumes "engine_spec L" "decoded_image im"
  shows "colour_image (carrier L im)"
    "img_mode (carrier L im) = (if img_mode im = ''RGBA'' then ''RGBA'' else ''RGB'')"
    "img_width (carrier L im) = img_width im" "img_height (carrier L im) = img_height im"
    "length (img_samples (carrier L im)) = img_width im * img_height im * channel_count im"
  using carrier_props [of L im] assms by (simp_all add: engine_spec_def decoded_image_def)

lemma room_bits:
  assumes "engine_spec L" "decoded_image im"
  shows "has_room im n \<longleftrightarrow> HEADER_BITS + 8 * (n + 16) \<le> length (img_samples (carrier L im))"
  using carrier_decoded(5) [OF assms]
  by (auto simp: has_room_def total_capacity_bytes_def HEADER_BITS_eq GCM_TAG_BYTES_def)

definition default_envelope :: "bytes \<Rightarrow> bytes \<Rightarrow> bytes \<Rightarrow> envelope" where
  "default_envelope s n c =
     \<lparr>salt = s, nonce = n, ciphertext = c, kdf_n = SCRYPT_N, kdf_r = SCRYPT_R,
      kdf_p = SCRYPT_P, version = FORMAT_VERSION, kdf_id = KDF_SCRYPT\<rparr>"

lemma default_envelope_ok:
  "length s = 16 \<Longrightarrow> length n = 12 \<Longrightarrow> length c < 2 ^ 32 \<Longrightarrow> envelope_ok (default_envelope s n c)"
  using uint_fits_of_nat [of "length c" 4]
  by (simp add: envelope_ok_def default_envelope_def uint_fits_def SCRYPT_N_def SCRYPT_R_def SCRYPT_P_def)

text \<open>
  The state of an image after a successful embedding of \<open>payload\<close> from entropy \<open>E\<close>: it holds
  the envelope built from the first 16 bytes as salt, the next 12 as nonce and the AES-GCM
  ciphertext of the payload under the derived key.
\<close>

definition embedded :: "lib \<Rightarrow> entropy \<Rightarrow> pystr \<Rightarrow> bytes \<Rightarrow> bytes \<Rightarrow> bytes \<Rightarrow> bytes \<Rightarrow> bool" where
  "embedded L E pw payload key c out \<longleftrightarrow>
     (let s = window E (cursor E) 16; n = window E (cursor E + 16) 12; e = default_envelope s n c in
      derive_key L pw s SCRYPT_N SCRYPT_R SCRYPT_P = Inr key \<and>
      aesgcm_encrypt L key n payload = Inr c \<and> length c = length payload + 16 \<and>
      envelope_ok e \<and> holds_envelope L out e (header_wire (header_of e)))"

lemma embed_payload_prefix:
  assumes "engine_spec L" "encodable pw" "length payload < 2 ^ 31" "fits im (length payload)"
  obtains key c where
    "derive_key L pw (window E (cursor E) 16) SCRYPT_N SCRYPT_R SCRYPT_P = Inr key"
    "aesgcm_encrypt L key (window E (cursor E + 16) 12) payload = Inr c"
    "length c = length payload + 16"
    "embed_payload L im payload pw E =
       (embed L im (default_envelope (window E (cursor E) 16) (window E (cursor E + 16) 12) c),
        E\<lparr>cursor := cursor E + 28\<rparr>)"
proof -
  let ?s = "window E (cursor E) 16"
  let ?E = "E\<lparr>cursor := cursor E + 16\<rparr>"
  obtain key where key: "derive_key L pw ?s SCRYPT_N SCRYPT_R SCRYPT_P = Inr key" "length key = 32"
    using derive_key_default [OF engine_specD(3) [OF assms(1)] length_window assms(2)] by blast
  obtain c where c: "aesgcm_encrypt L key (window ?E (cursor ?E) 12) payload = Inr c"
    "length c = length payload + 16"
    "encrypt L key payload ?E = (Inr (window ?E (cursor ?E) 12, c), ?E\<lparr>cursor := cursor ?E + 12\<rparr>)"
    using encrypt_total [OF engine_specD(2) [OF assms(1)] key(2) assms(3)] by blast
  have w: "window ?E (cursor ?E) 12 = window E (cursor E + 16) 12" by (simp add: window_def)
  show ?thesis
  proof (rule that [OF key(1) c(1,2) [unfolded w]])
    show "embed_payload L im payload pw E =
       (embed L im (default_envelope ?s (window E (cursor E + 16) 12) c), E\<lparr>cursor := cursor E + 28\<rparr>)"
      using assms(4) key(1) c(3) w
      by (simp add: embed_payload_def py_simps generate_salt_def urandom_def SALT_BYTES_def
          default_envelope_def)
  qed
qed

lemma embed_payload_ok:
  assumes "engine_spec L" "decoded_image im" "encodable pw" "length payload < 2 ^ 31"
    "has_room im (length payload)"
  obtains key c out where
    "embed_payload L im payload pw E =
       (Inr (png_save L (with_samples (carrier L im) out)), E\<lparr>cursor := cursor E + 28\<rparr>)"
    "length out = length (img_samples (carrier L im))"
    "cover_of out = cover_of (img_samples (carrier L im))"
    "card (changed (img_samples (carrier L im)) out) \<le> HEADER_BITS + 8 * (length payload + 16)"
    "embedded L E pw payload key c out"
proof -
  obtain key c where r:
    "derive_key L pw (window E (cursor E) 16) SCRYPT_N SCRYPT_R SCRYPT_P = Inr key"
    "aesgcm_encrypt L key (window E (cursor E + 16) 12) payload = Inr c"
    "length c = length payload + 16"
    "embed_payload L im payload pw E =
       (embed L im (default_envelope (window E (cursor E) 16) (window E (cursor E + 16) 12) c),
        E\<lparr>cursor := cursor E + 28\<rparr>)"
    using embed_payload_prefix [OF assms(1,3,4) has_room_fits [OF assms(5)], of E] by metis
  define e where "e = default_envelope (window E (cursor E) 16) (window E (cursor E + 16) 12) c"
  have ok: "envelope_ok e" unfolding e_def by (rule default_envelope_ok) (use r(3) assms(4) in auto)
  have ct: "ciphertext e = c" by (simp add: e_def default_envelope_def)
  have "HEADER_BITS + 8 * length (ciphertext e) \<le> length (img_samples (carrier L im))"
    using room_bits [OF assms(1,2)] assms(5) r(3) by (simp add: ct)
  from embed_flat_ok [OF engine_specD(1) [OF assms(1)] header_bytes_ok [OF ok] this]
  obtain out where out: "embed_flat L (img_samples (carrier L im)) e = Inr out"
    "length out = length (img_samples (carrier L im))"
    "cover_of out = cover_of (img_samples (carrier L im))"
    "holds_envelope L out e (header_wire (header_of e))"
    "card (changed (img_samples (carrier L im)) out) \<le> HEADER_BITS + 8 * length (ciphertext e)" by metis
  from embed_colour [OF carrier_decoded(1,2) [OF assms(1,2)] out(1,2)] r(4)
  have "embed_payload L im payload pw E =
       (Inr (png_save L (with_samples (carrier L im) out)), E\<lparr>cursor := cursor E + 28\<rparr>)"
    by (simp add: e_def)
  moreover have "embedded L E pw payload key c out"
    using r ok out(4) unfolding embedded_def e_def by (simp add: Let_def)
  ultimately show ?thesis using that out(2,3,5) by (simp add: ct r(3))
qed

section \<open>Reading an embedded image\<close>

lemma embedded_header:
  assumes "embedded L E pw payload key c out" "colour_image im" "img_samples im = out"
    "HEADER_BITS \<le> length out"
  defines "e \<equiv> default_envelope (window E (cursor E) 16) (window E (cursor E + 16) 12) c"
  shows "bindR (read_header_region L im) parse_header = Inr (header_of e)"
proof -
  have "envelope_ok e" "holds_envelope L (img_samples im) e (header_wire (header_of e))"
    using assms(1,3) by (simp_all add: embedded_def Let_def e_def)
  with parse_header_wire [of e "[]"] read_header_holds [OF assms(2)] assms(3,4)
  show ?thesis by simp
qed

lemma embedded_ciphertext:
  assumes "permutation_spec L" "embedded L E pw payload key c out" "colour_image im"
    "img_samples im = out" "HEADER_BITS + 8 * length c \<le> length out"
  defines "e \<equiv> default_envelope (window E (cursor E) 16) (window E (cursor E + 16) 12) c"
  shows "read_ciphertext_region L im (h_salt (header_of e) @ h_nonce (header_of e))
           (h_ciphertext_length (header_of e)) = Inr c"
proof -
  have "holds_envelope L (img_samples im) e (header_wire (header_of e))"
    using assms(2,4) by (simp add: embedded_def Let_def e_def)
  from read_ciphertext_holds [OF assms(1,3) this] assms(4,5)
  show ?thesis by (simp add: e_def default_envelope_def header_of_def perm_key_def)
qed

lemma extract_embedded:
  assumes "engine_spec L" "embedded L E pw payload key c out" "colour_image im"
    "img_samples im = out" "HEADER_BITS + 8 * length c \<le> length out"
  shows "extract_stego L im pw = Inr payload"
proof -
  define e where "e = default_envelope (window E (cursor E) 16) (window E (cursor E + 16) 12) c"
  have h: "bindR (read_header_region L im) parse_header = Inr (header_of e)"
    unfolding e_def by (rule embedded_header [OF assms(2,3,4)]) (use assms(5) in simp)
  have c: "read_ciphertext_region L im (h_salt (header_of e) @ h_nonce (header_of e))
      (h_ciphertext_length (header_of e)) = Inr c"
    unfolding e_def by (rule embedded_ciphertext [OF engine_specD(1) [OF assms(1)] assms(2-5)])
  have k: "derive_key L pw (h_salt (header_of e)) (h_kdf_n (header_of e)) (h_kdf_r (header_of e))
      (h_kdf_p (header_of e)) = Inr key"
    using assms(2) by (simp add: embedded_def Let_def e_def default_envelope_def header_of_def)
  have "aesgcm_encrypt L key (h_nonce (header_of e)) payload = Inr c"
    using assms(2) by (simp add: embedded_def Let_def e_def default_envelope_def header_of_def)
  then have "decrypt L key (h_nonce (header_of e)) c = Inr payload"
    using decrypt_Inr_iff [OF engine_specD(2) [OF assms(1)]] by simp
  then show ?thesis by (simp add: extract_stego_def h c k Let_def)
qed

section \<open>Every way an extraction can end\<close>

lemma extract_Inr_iff:
  "extract_stego L im pw = Inr x \<longleftrightarrow>
     (\<exists>h c key. bindR (read_header_region L im) parse_header = Inr h \<and>
        read_ciphertext_region L im (h_salt h @ h_nonce h) (h_ciphertext_length h) = Inr c \<and>
        derive_key L pw (h_salt h) (h_kdf_n h) (h_kdf_r h) (h_kdf_p h) = Inr key \<and>
        decrypt L key (h_nonce h) c = Inr x)"
  unfolding extract_stego_def Let_def
  by (auto simp: catchR_Inr_iff bindR_Inr_iff split: if_splits)

lemma read_header_Inl: "read_header_region L im = Inl e \<Longrightarrow> \<exists>m. e = CapacityError m"
  by (auto simp: read_header_region_def Let_def split: if_splits)

lemma read_ciphertext_Inl:
  assumes "permutation_spec L" "0 \<le> n" "read_ciphertext_region L im key n = Inl e"
  shows "\<exists>m. e = CapacityError m"
proof -
  define flat where "flat = fst (to_channels L im)"
  define order where "order = permuted_positions L key [HEADER_BITS..<length flat]"
  have "set (take (nat (n * 8)) order) \<subseteq> set order" by (rule set_take_subset)
  then have "\<forall>t \<in> set (take (nat (n * 8)) order). t < length flat"
    unfolding order_def permuted_props(3) [OF assms(1)] by auto
  then have "\<exists>bs. get_lsbs flat (py_prefix (n * 8) order) = Inr bs"
    using assms(2) by (auto simp: get_lsbs_def py_prefix_def)
  with assms(3) show ?thesis
    by (auto simp: read_ciphertext_region_def Let_def flat_def order_def split: if_splits)
qed

lemma header_length_nonneg:
  assumes "bindR (read_header_region L im) parse_header = Inr h"
  shows "0 \<le> h_ciphertext_length h"
proof -
  from assms obtain d where "parse_header d = Inr h" by (auto simp: bindR_Inr_iff)
  then show ?thesis using parse_header_Inr(7) by (simp add: uint_fits_def)
qed

lemma header_stage_Inl:
  assumes "bindR (read_header_region L im) parse_header = Inl e"
  shows "(\<exists>m. e = CapacityError m) \<or> (\<exists>m. e = EnvelopeError m)"
  using assms by (auto simp: bindR_Inl_iff dest: read_header_Inl parse_header_Inl)

text \<open>An extraction fails with the generic error unless key derivation itself raises
  something that \<^verbatim>\<open>except ValueError\<close> does not catch.\<close>

lemma extract_Inl:
  assumes "permutation_spec L" "aead_spec L" "extract_stego L im pw = Inl e"
  shows "e = ExtractionError GENERIC_MESSAGE \<or>
    (\<exists>h c. bindR (read_header_region L im) parse_header = Inr h \<and> \<not> extract_catches e \<and>
       read_ciphertext_region L im (h_salt h @ h_nonce h) (h_ciphertext_length h) = Inr c \<and>
       derive_key L pw (h_salt h) (h_kdf_n h) (h_kdf_r h) (h_kdf_p h) = Inl e)"
proof (cases "bindR (read_header_region L im) parse_header")
  case (Inl x)
  with header_stage_Inl [OF Inl] assms(3) show ?thesis by (auto simp: extract_stego_def)
next
  case h: (Inr h)
  note n = header_length_nonneg [OF h]
  show ?thesis
  proof (cases "read_ciphertext_region L im (h_salt h @ h_nonce h) (h_ciphertext_length h)")
    case (Inl x)
    with read_ciphertext_Inl [OF assms(1) n Inl] h assms(3) show ?thesis
      by (auto simp: extract_stego_def)
  next
    case c: (Inr c)
    show ?thesis
    proof (cases "derive_key L pw (h_salt h) (h_kdf_n h) (h_kdf_r h) (h_kdf_p h)")
      case (Inl x)
      with h c assms(3) show ?thesis by (auto simp: extract_stego_def split: if_splits)
    next
      case (Inr key)
      show ?thesis
      proof (cases "decrypt L key (h_nonce h) c")
        case (Inl x)
        with decrypt_Inl [OF assms(2) Inl] \<open>derive_key _ _ _ _ _ _ = Inr key\<close> h c assms(3)
        show ?thesis by (simp add: extract_stego_def)
      next
        case (Inr x)
        with \<open>derive_key _ _ _ _ _ _ = Inr key\<close> h c assms(3)
        show ?thesis by (simp add: extract_stego_def)
      qed
    qed
  qed
qed

lemma verify_unfold:
  "verify L im =
     (case bindR (read_header_region L im) parse_header of
        Inl e \<Rightarrow> Inr \<lparr>compatible_payload_detected = False, envelope_structure_valid = False,
                     format_version = None, algorithm_version = None\<rparr>
      | Inr h \<Rightarrow> Inr \<lparr>compatible_payload_detected = True,
                     envelope_structure_valid = h_ciphertext_length h \<le> int (total_capacity_bytes im),
                     format_version = Some (h_version h), algorithm_version = Some (h_kdf_id h)\<rparr>)"
  by (auto simp: verify_def Let_def split: sum.split dest: header_stage_Inl)

text \<open>The two workflows together: the image embedding saves, and what extraction reads from it.\<close>

lemma embed_payload_extract:
  assumes "engine_spec L" "decoded_image im" "encodable pw" "length payload < 2 ^ 31"
    "has_room im (length payload)"
  obtains im' where
    "embed_payload L im payload pw E = (Inr (png_save L im'), E\<lparr>cursor := cursor E + 28\<rparr>)"
    "colour_image im'" "img_width im' = img_width im" "img_height im' = img_height im"
    "extract_payload L im' pw = Inr payload"
proof -
  obtain key c out where run:
    "embed_payload L im payload pw E =
       (Inr (png_save L (with_samples (carrier L im) out)), E\<lparr>cursor := cursor E + 28\<rparr>)"
    "length out = length (img_samples (carrier L im))" "embedded L E pw payload key c out"
    using embed_payload_ok [OF assms, of E] by metis
  note car = carrier_decoded [OF assms(1,2)]
  have col: "colour_image (with_samples (carrier L im) out)"
    by (rule colour_with_samples [OF car(1) run(2)])
  have "HEADER_BITS + 8 * length c \<le> length out"
    using run(2,3) assms(5) room_bits [OF assms(1,2)] by (simp add: embedded_def Let_def)
  then have "extract_payload L (with_samples (carrier L im) out) pw = Inr payload"
    unfolding extract_payload_def
    by (intro extract_embedded [OF assms(1) run(3) col]) (simp_all add: with_samples_def)
  then show ?thesis using that run(1) col car(3,4) by (simp add: with_samples_def)
qed

lemma embed_payload_refused:
  assumes "engine_spec L" "decoded_image im" "encodable pw" "length payload < 2 ^ 31"
    "\<not> has_room im (length payload)"
  shows "fst (embed_payload L im payload pw E) = Inl (CapacityError ''payload exceeds image capacity'')"
proof (cases "fits im (length payload)")
  case True
  obtain c where c: "length c = length payload + 16"
    "embed_payload L im payload pw E =
     (embed L im (default_envelope (window E (cursor E) 16) (window E (cursor E + 16) 12) c),
      E\<lparr>cursor := cursor E + 28\<rparr>)"
    using embed_payload_prefix [OF assms(1,3,4) True, of E] by metis
  let ?e = "default_envelope (window E (cursor E) 16) (window E (cursor E + 16) 12) c"
  have "envelope_ok ?e" by (rule default_envelope_ok) (use c(1) assms(4) in auto)
  moreover have "ciphertext ?e = c" by (simp add: default_envelope_def)
  ultimately have "embed_flat L (img_samples (carrier L im)) ?e
      = Inl (CapacityError ''payload exceeds image capacity'')"
    using assms(5) room_bits [OF assms(1,2)] c(1)
    by (intro embed_flat_too_big [OF header_bytes_ok]) auto
  then show ?thesis using c(2) by (simp add: embed_def to_channels_def)
qed (simp add: embed_payload_def)

lemma embed_payload_Inl:
  assumes "engine_spec L" "decoded_image im" "length payload < 2 ^ 31"
    "fst (embed_payload L im payload pw E) = Inl e"
  shows "(\<exists>m. e = CapacityError m) \<or> e = UnicodeEncodeError \<and> \<not> encodable pw"
proof (cases "encodable pw")
  case True
  obtain im' where "has_room im (length payload) \<Longrightarrow> embed_payload L im payload pw E =
      (Inr (png_save L im'), E\<lparr>cursor := cursor E + 28\<rparr>)"
    using embed_payload_extract [OF assms(1,2) True assms(3), of E] by metis
  then show ?thesis
    using embed_payload_refused [OF assms(1,2) True assms(3), of E] assms(4)
    by (cases "has_room im (length payload)") auto
next
  case False
  then obtain x where x: "utf8_encode pw = Inl x" using utf8_encode_Inr by (cases "utf8_encode pw") auto
  have "scrypt_init L s KEY_BYTES SCRYPT_N SCRYPT_R SCRYPT_P = Inr ()" if "length s = 16" for s
    using engine_specD(3) [OF assms(1)] that by (simp add: scrypt_spec_def)
  then have "derive_key L pw (window E (cursor E) 16) SCRYPT_N SCRYPT_R SCRYPT_P = Inl UnicodeEncodeError"
    using x utf8_encode_Inl [OF x] by (simp add: derive_key_def)
  then show ?thesis using assms(4) False
    by (auto simp: embed_payload_def py_simps generate_salt_def urandom_def SALT_BYTES_def split: if_splits)
qed

end
