(* ===== verification/Engine.thy ===== *)
theory Engine
  imports Stego
begin

text \<open>
  The correctness theorems of the steganography engine, over its two public operations
  \<open>embed_payload\<close> and \<open>extract_payload\<close> and the structural check \<open>verify\<close>.
\<close>

lemma demo_engine: "engine_spec demo_lib"
  by (simp add: engine_spec_def demo_permutation demo_aead demo_converts demo_scrypt
      SCRYPT_N_def SCRYPT_R_def SCRYPT_P_def)

lemma demo_image_facts [simp]:
  "img_mode demo_image = ''RGB''" "img_width demo_image = 20" "img_height demo_image = 20"
  "length (img_samples demo_image) = 1200"
  by (simp_all add: demo_image_def)

lemma demo_decoded: "decoded_image demo_image"
  by (simp add: decoded_image_def)

lemma demo_room: "n \<le> 80 \<Longrightarrow> has_room demo_image n"
  by (simp add: has_room_def total_capacity_bytes_def channel_count_def GCM_TAG_BYTES_def)

text \<open>An image whose first samples spell a given header in their least significant bits, as an
  attacker can make one.\<close>

definition crafted_image :: "parsed_header \<Rightarrow> image" where
  "crafted_image h =
     \<lparr>img_mode = ''RGB'', img_width = 20, img_height = 20,
      img_samples = bytes_to_bits (header_wire h) @ replicate 832 0\<rparr>"

definition crafted_header :: "int \<Rightarrow> int \<Rightarrow> parsed_header" where
  "crafted_header n len =
     \<lparr>h_salt = replicate 16 0, h_nonce = replicate 12 0, h_ciphertext_length = len, h_kdf_n = n,
      h_kdf_r = 8, h_kdf_p = 1, h_version = FORMAT_VERSION, h_kdf_id = KDF_SCRYPT\<rparr>"

lemma map_get_lsb_bits: "bits bs \<Longrightarrow> map get_lsb bs = bs"
  by (induction bs) (auto simp: bits_def get_lsb_def)

lemma length_crafted: "length (img_samples (crafted_image h)) = 1200"
  by (simp add: crafted_image_def bytes_to_bits_def)

lemma crafted_colour: "colour_image (crafted_image h)"
  using length_crafted [of h] by (simp add: colour_image_def mode_channels_def) (simp add: crafted_image_def)

lemma crafted_reads:
  assumes "uint_fits 4 n" "uint_fits 4 len"
  shows "bindR (read_header_region L (crafted_image (crafted_header n len))) parse_header
    = Inr (crafted_header n len)"
proof -
  let ?h = "crafted_header n len"
  have "read_header_region L (crafted_image ?h) = Inr (header_wire ?h)"
    using crafted_colour [of ?h] length_crafted [of ?h]
    by (simp add: read_header_region_def to_channels_colour HEADER_BITS_eq)
       (simp add: crafted_image_def bytes_to_bits_def bits_to_bytes_def map_get_lsb_bits
        packbits_unpackbits)
  moreover have "fields_fit (MAGIC, FORMAT_VERSION, KDF_SCRYPT, n, 8, 1, replicate 16 0, replicate 12 0, len)"
    using assms by (simp del: One_nat_def) (simp add: uint_fits_def)
  from header.dec_enc [OF this] have "parse_header (header_wire ?h) = Inr ?h"
    by (simp add: parse_header_def header_wire_def crafted_header_def)
  ultimately show ?thesis by simp
qed

section \<open>Round trip and capacity\<close>

text \<open>
  Property C1. Whatever fits is recovered: for every decoded image with room for the payload,
  \<open>embed_payload\<close> returns PNG bytes, having consumed exactly 28 bytes of entropy, and the image
  loaded back from those bytes yields the payload under the same passphrase.
\<close>
theorem embed_extract_roundtrip:
  assumes "engine_spec L" "png_spec L" "decoded_image im" "encodable pw"
    and "length payload < 2 ^ 31" "has_room im (length payload)"
    and "int (img_width im * img_height im) \<le> mx"
  shows "\<exists>png im'. embed_payload L im payload pw E = (Inr png, E\<lparr>cursor := cursor E + 28\<rparr>) \<and>
    pil_load L mx png = Inr im' \<and> extract_payload L im' pw = Inr payload"
proof -
  obtain im' where run: "embed_payload L im payload pw E = (Inr (png_save L im'), E\<lparr>cursor := cursor E + 28\<rparr>)"
    "colour_image im'" "img_width im' = img_width im" "img_height im' = img_height im"
    "extract_payload L im' pw = Inr payload"
    using embed_payload_extract [OF assms(1,3,4,5,6), of E] by metis
  moreover have "pil_load L mx (png_save L im') = Inr im'"
    using assms(2,7) run(2-4) unfolding png_spec_def by simp
  ultimately show ?thesis by blast
qed

theorem embed_extract_roundtrip_witness:
  "\<exists>png im'. embed_payload demo_lib demo_image [1, 2, 3] demo_pass demo_entropy =
      (Inr png, demo_entropy\<lparr>cursor := cursor demo_entropy + 28\<rparr>) \<and>
    pil_load demo_lib 1000 png = Inr im' \<and> extract_payload demo_lib im' demo_pass = Inr [1, 2, 3]"
  by (rule embed_extract_roundtrip [OF demo_engine demo_png demo_decoded demo_pass_encodable])
     (simp_all add: demo_room)

text \<open>
  Property C4. The outcome of \<open>embed_payload\<close> is decided by the room in the image alone: with
  room for header, tag and payload it returns, otherwise it raises \<open>CapacityError\<close>. In
  particular the second capacity check, in \<open>embed\<close>, is what refuses the empty payload that
  \<open>fits\<close> lets through on a tiny image.
\<close>
theorem embed_payload_outcome:
  assumes "engine_spec L" "decoded_image im" "encodable pw" "length payload < 2 ^ 31"
  shows "case embed_payload L im payload pw E of
      (Inr png, E') \<Rightarrow> has_room im (length payload) \<and> E' = E\<lparr>cursor := cursor E + 28\<rparr>
    | (Inl e, E') \<Rightarrow> \<not> has_room im (length payload) \<and>
        e = CapacityError ''payload exceeds image capacity''"
proof (cases "has_room im (length payload)")
  case True
  obtain out where "embed_payload L im payload pw E =
      (Inr (png_save L (with_samples (carrier L im) out)), E\<lparr>cursor := cursor E + 28\<rparr>)"
    by (rule embed_payload_ok [OF assms True, of E])
  then show ?thesis using True by simp
next
  case False
  then show ?thesis using embed_payload_refused [OF assms False, of E]
    by (cases "embed_payload L im payload pw E") simp
qed

theorem embed_payload_outcome_witness:
  "case embed_payload demo_lib demo_image [7] demo_pass demo_entropy of
      (Inr png, E') \<Rightarrow> has_room demo_image (length [7 :: byte]) \<and>
        E' = demo_entropy\<lparr>cursor := cursor demo_entropy + 28\<rparr>
    | (Inl e, E') \<Rightarrow> \<not> has_room demo_image (length [7 :: byte]) \<and>
        e = CapacityError ''payload exceeds image capacity''"
  by (rule embed_payload_outcome [OF demo_engine demo_decoded demo_pass_encodable]) simp

text \<open>
  \<open>fits\<close> is exact for every payload but the empty one, for which it always
  answers yes: \<open>max_payload_bytes\<close> is clamped at 0, so an image with no room for even the
  header and the tag is reported to fit a payload of length 0.
\<close>
theorem fits_exact: "fits im n = (has_room im n \<or> n = 0)"
  using has_room_fits [of im n] fits_has_room [of im n]
  by (auto simp: fits_def max_payload_bytes_def Let_def)

section \<open>Imperceptibility\<close>

text \<open>
  Property C5. Embedding changes nothing but least significant bits: the written image has the
  carrier's mode and size, every sample keeps its upper seven bits, and no more samples change
  than the header and the ciphertext have bits.
\<close>
theorem embed_changes_only_lsbs:
  assumes "engine_spec L" "decoded_image im" "encodable pw" "length payload < 2 ^ 31"
    and "has_room im (length payload)"
  shows "\<exists>out. fst (embed_payload L im payload pw E) = Inr (png_save L (with_samples (carrier L im) out)) \<and>
    length out = length (img_samples (carrier L im)) \<and>
    map (drop_bit 1) out = map (drop_bit 1) (img_samples (carrier L im)) \<and>
    card {i. i < length out \<and> out ! i \<noteq> img_samples (carrier L im) ! i}
      \<le> 8 * (HEADER_LEN + GCM_TAG_BYTES + length payload)"
proof -
  obtain out where
    "embed_payload L im payload pw E =
       (Inr (png_save L (with_samples (carrier L im) out)), E\<lparr>cursor := cursor E + 28\<rparr>)"
    "length out = length (img_samples (carrier L im))"
    "cover_of out = cover_of (img_samples (carrier L im))"
    "card (changed (img_samples (carrier L im)) out) \<le> HEADER_BITS + 8 * (length payload + 16)"
    using embed_payload_ok [OF assms, of E] by metis
  then show ?thesis
    by (intro exI [of _ out])
       (simp add: changed_def cover_of_def HEADER_BITS_eq GCM_TAG_BYTES_def)
qed

theorem embed_changes_only_lsbs_witness:
  "\<exists>out. fst (embed_payload demo_lib demo_image [9, 9] demo_pass demo_entropy) =
      Inr (png_save demo_lib (with_samples (carrier demo_lib demo_image) out)) \<and>
    length out = length (img_samples (carrier demo_lib demo_image)) \<and>
    map (drop_bit 1) out = map (drop_bit 1) (img_samples (carrier demo_lib demo_image)) \<and>
    card {i. i < length out \<and> out ! i \<noteq> img_samples (carrier demo_lib demo_image) ! i}
      \<le> 8 * (HEADER_LEN + GCM_TAG_BYTES + length [9, 9 :: byte])"
  by (rule embed_changes_only_lsbs [OF demo_engine demo_decoded demo_pass_encodable])
     (simp_all add: demo_room)

section \<open>Authenticity and failures of extraction\<close>

lemma extract_authentic_iff:
  assumes "aead_spec L"
  shows "extract_payload L im pw = Inr x \<longleftrightarrow>
    (\<exists>h c key. bindR (read_header_region L im) parse_header = Inr h \<and>
      read_ciphertext_region L im (h_salt h @ h_nonce h) (h_ciphertext_length h) = Inr c \<and>
      derive_key L pw (h_salt h) (h_kdf_n h) (h_kdf_r h) (h_kdf_p h) = Inr key \<and>
      aesgcm_encrypt L key (h_nonce h) x = Inr c)"
  unfolding extract_payload_def extract_Inr_iff by (simp add: decrypt_Inr_iff [OF assms])

text \<open>
  Property C2. Extraction only ever returns authenticated plaintext: if it returns \<open>x\<close>, then the
  image holds a well-formed header and, at the positions the header determines, exactly the
  AES-GCM ciphertext of \<open>x\<close> under the key derived from the given passphrase. A change of any
  bit of that ciphertext therefore never yields the same result: every image with this header
  from which the passphrase extracts \<open>x\<close> holds the same ciphertext.
\<close>
theorem extract_authentic:
  assumes "aead_spec L" "extract_payload L im pw = Inr x"
  shows "\<exists>h c key. bindR (read_header_region L im) parse_header = Inr h \<and>
    read_ciphertext_region L im (h_salt h @ h_nonce h) (h_ciphertext_length h) = Inr c \<and>
    derive_key L pw (h_salt h) (h_kdf_n h) (h_kdf_r h) (h_kdf_p h) = Inr key \<and>
    aesgcm_encrypt L key (h_nonce h) x = Inr c \<and>
    (\<forall>im'. bindR (read_header_region L im') parse_header = Inr h \<and> extract_payload L im' pw = Inr x \<longrightarrow>
      read_ciphertext_region L im' (h_salt h @ h_nonce h) (h_ciphertext_length h) = Inr c)"
  using assms(2) unfolding extract_authentic_iff [OF assms(1)] by fastforce

theorem extract_authentic_witness:
  "\<exists>im x h c key. extract_payload demo_lib im demo_pass = Inr x \<and>
    bindR (read_header_region demo_lib im) parse_header = Inr h \<and>
    read_ciphertext_region demo_lib im (h_salt h @ h_nonce h) (h_ciphertext_length h) = Inr c \<and>
    derive_key demo_lib demo_pass (h_salt h) (h_kdf_n h) (h_kdf_r h) (h_kdf_p h) = Inr key \<and>
    aesgcm_encrypt demo_lib key (h_nonce h) x = Inr c"
proof -
  have "length [5 :: byte] < 2 ^ 31" "has_room demo_image (length [5 :: byte])"
    by (simp_all add: demo_room)
  from embed_payload_ok [OF demo_engine demo_decoded demo_pass_encodable this, of demo_entropy]
  obtain key c out where e: "length out = length (img_samples (carrier demo_lib demo_image))"
    "embedded demo_lib demo_entropy demo_pass [5] key c out" by metis
  have "extract_stego demo_lib (with_samples demo_image out) demo_pass = Inr [5]"
    by (rule extract_embedded [OF demo_engine e(2) colour_with_samples])
       (use e in \<open>simp_all add: with_samples_def embedded_def Let_def HEADER_BITS_eq\<close>)
  then have "extract_payload demo_lib (with_samples demo_image out) demo_pass = Inr [5]"
    by (simp add: extract_payload_def)
  with extract_authentic [OF demo_aead this] show ?thesis by blast
qed

text \<open>
  The cost parameters come from the unauthenticated header, and when deriving a key with them raises something other than \<open>ValueError\<close>, such as
  the \<open>MemoryError\<close> of an oversized \<open>n\<close>, that exception escapes from extraction unchanged.
\<close>
lemma extract_kdf_error_escapes:
  assumes "bindR (read_header_region L im) parse_header = Inr h"
    and "read_ciphertext_region L im (h_salt h @ h_nonce h) (h_ciphertext_length h) = Inr c"
    and "derive_key L pw (h_salt h) (h_kdf_n h) (h_kdf_r h) (h_kdf_p h) = Inl e"
    and "\<not> extract_catches e"
  shows "extract_payload L im pw = Inl e"
  using assms by (simp add: extract_payload_def extract_stego_def)

lemma extract_oversized_n:
  "extract_payload demo_lib (crafted_image (crafted_header (2 ^ 31) 0)) demo_pass = Inl MemoryError"
proof (rule extract_kdf_error_escapes)
  let ?h = "crafted_header (2 ^ 31) 0"
  show "bindR (read_header_region demo_lib (crafted_image ?h)) parse_header = Inr ?h"
    by (rule crafted_reads) (simp_all add: uint_fits_def)
  show "read_ciphertext_region demo_lib (crafted_image ?h) (h_salt ?h @ h_nonce ?h)
      (h_ciphertext_length ?h) = Inr []"
    by (simp add: read_ciphertext_region_def crafted_header_def py_prefix_def get_lsbs_def
        bits_to_bytes_def)
  show "derive_key demo_lib demo_pass (h_salt ?h) (h_kdf_n ?h) (h_kdf_r ?h) (h_kdf_p ?h) = Inl MemoryError"
    by (simp add: derive_key_def demo_lib_def demo_scrypt_init_def demo_scrypt_derive_def
        crafted_header_def demo_pass_def utf8_char_def)
qed (simp add: is_value_error_def)

lemma value_error_caught: "is_value_error e \<Longrightarrow> extract_catches e"
  by (auto simp: is_value_error_def)

lemma header_salt_length:
  assumes "bindR (read_header_region L im) parse_header = Inr h"
  shows "length (h_salt h) = 16"
proof -
  from assms obtain d where "parse_header d = Inr h" by (auto simp: bindR_Inr_iff)
  from parse_header_Inr [OF this] show ?thesis by simp
qed

text \<open>
  Property C3. No error oracle, and its one exception. A failing extraction, whatever the image,
  the passphrase and the cause (no room for a header, a malformed or foreign header, a truncated
  or tampered ciphertext, a wrong passphrase), raises the same \<open>ExtractionError\<close> with the
  same message, unless the header is well formed, the ciphertext region could be read and key
  derivation itself raised something other than a \<open>ValueError\<close> with the cost parameters
  taken from that unauthenticated header; then, and whenever that is so, exactly that exception
  escapes unchanged. For an image whose header carries cost parameters that scrypt accepts
  there is no exception: every failure is the generic one.
\<close>
theorem extract_failure_is_generic:
  assumes "permutation_spec L" "aead_spec L" "extract_payload L im pw = Inl e"
  shows "(e = ExtractionError GENERIC_MESSAGE \<or>
      (\<exists>h c. bindR (read_header_region L im) parse_header = Inr h \<and>
        read_ciphertext_region L im (h_salt h @ h_nonce h) (h_ciphertext_length h) = Inr c \<and>
        derive_key L pw (h_salt h) (h_kdf_n h) (h_kdf_r h) (h_kdf_p h) = Inl e \<and>
        \<not> is_value_error e)) \<and>
    (\<forall>h c x. bindR (read_header_region L im) parse_header = Inr h \<longrightarrow>
        read_ciphertext_region L im (h_salt h @ h_nonce h) (h_ciphertext_length h) = Inr c \<longrightarrow>
        derive_key L pw (h_salt h) (h_kdf_n h) (h_kdf_r h) (h_kdf_p h) = Inl x \<longrightarrow>
        \<not> extract_catches x \<longrightarrow> e = x) \<and>
    ((\<forall>h. bindR (read_header_region L im) parse_header = Inr h \<longrightarrow>
        scrypt_spec L (h_kdf_n h) (h_kdf_r h) (h_kdf_p h)) \<longrightarrow>
      e = ExtractionError GENERIC_MESSAGE)"
proof (intro conjI allI impI)
  note cases = extract_Inl [OF assms(1,2) assms(3) [unfolded extract_payload_def]]
  show "e = ExtractionError GENERIC_MESSAGE \<or>
      (\<exists>h c. bindR (read_header_region L im) parse_header = Inr h \<and>
        read_ciphertext_region L im (h_salt h @ h_nonce h) (h_ciphertext_length h) = Inr c \<and>
        derive_key L pw (h_salt h) (h_kdf_n h) (h_kdf_r h) (h_kdf_p h) = Inl e \<and>
        \<not> is_value_error e)"
    using cases value_error_caught by blast
  show "e = x"
    if "bindR (read_header_region L im) parse_header = Inr h"
      "read_ciphertext_region L im (h_salt h @ h_nonce h) (h_ciphertext_length h) = Inr c"
      "derive_key L pw (h_salt h) (h_kdf_n h) (h_kdf_r h) (h_kdf_p h) = Inl x"
      "\<not> extract_catches x" for h c x
    using extract_kdf_error_escapes [OF that] assms(3) by simp
  show "e = ExtractionError GENERIC_MESSAGE"
    if "\<forall>h. bindR (read_header_region L im) parse_header = Inr h \<longrightarrow>
      scrypt_spec L (h_kdf_n h) (h_kdf_r h) (h_kdf_p h)"
    using cases that value_error_caught derive_key_accepted header_salt_length by blast
qed

theorem extract_failure_is_generic_witness:
  "extract_payload demo_lib (crafted_image (crafted_header (2 ^ 14) 0)) demo_pass
      = Inl (ExtractionError GENERIC_MESSAGE) \<and>
   extract_payload demo_lib (crafted_image (crafted_header (2 ^ 31) 0)) demo_pass = Inl MemoryError"
proof
  have parsed: "bindR (read_header_region demo_lib (crafted_image (crafted_header n 0))) parse_header
      = Inr (crafted_header n 0)" if "n = 2 ^ 14 \<or> n = 2 ^ 31" for n
    by (rule crafted_reads) (use that in \<open>auto simp: uint_fits_def\<close>)
  have region: "read_ciphertext_region demo_lib (crafted_image (crafted_header n 0))
      (h_salt (crafted_header n 0) @ h_nonce (crafted_header n 0))
      (h_ciphertext_length (crafted_header n 0)) = Inr []" for n
    by (simp add: read_ciphertext_region_def crafted_header_def py_prefix_def get_lsbs_def
        bits_to_bytes_def)
  have "\<exists>k. derive_key demo_lib demo_pass (replicate 16 0) SCRYPT_N SCRYPT_R SCRYPT_P = Inr k"
    using derive_key_default [OF demo_scrypt _ demo_pass_encodable, of SCRYPT_N SCRYPT_R SCRYPT_P "replicate 16 0"]
    by (auto simp: SCRYPT_N_def SCRYPT_R_def SCRYPT_P_def)
  then obtain k where "derive_key demo_lib demo_pass (replicate 16 0) (2 ^ 14) 8 1 = Inr k"
    by (auto simp: SCRYPT_N_def SCRYPT_R_def SCRYPT_P_def)
  moreover have "decrypt demo_lib k (replicate 12 0) [] = Inl DecryptionError"
    by (simp add: decrypt_def demo_lib_def demo_decrypt_def)
  ultimately have "\<exists>e. extract_payload demo_lib (crafted_image (crafted_header (2 ^ 14) 0)) demo_pass = Inl e"
    using parsed [of "2 ^ 14"] region [of "2 ^ 14"]
    by (simp add: extract_payload_def extract_stego_def) (simp add: crafted_header_def)
  then obtain e where "extract_payload demo_lib (crafted_image (crafted_header (2 ^ 14) 0)) demo_pass = Inl e"
    by blast
  moreover have "scrypt_spec demo_lib (h_kdf_n (crafted_header (2 ^ 14) 0))
      (h_kdf_r (crafted_header (2 ^ 14) 0)) (h_kdf_p (crafted_header (2 ^ 14) 0))"
    using demo_scrypt by (simp add: crafted_header_def)
  ultimately show "extract_payload demo_lib (crafted_image (crafted_header (2 ^ 14) 0)) demo_pass
      = Inl (ExtractionError GENERIC_MESSAGE)"
    using extract_failure_is_generic [OF demo_permutation demo_aead] parsed [of "2 ^ 14"] by auto
  show "extract_payload demo_lib (crafted_image (crafted_header (2 ^ 31) 0)) demo_pass = Inl MemoryError"
    by (rule extract_oversized_n)
qed

section \<open>What extraction depends on\<close>

lemma read_header_lsbs:
  assumes "map get_lsb (fst (to_channels L a)) = map get_lsb (fst (to_channels L b))"
  shows "read_header_region L a = read_header_region L b"
proof -
  have "length (fst (to_channels L a)) = length (fst (to_channels L b))"
    using assms by (rule map_eq_imp_length_eq)
  with assms show ?thesis by (simp add: read_header_region_def Let_def flip: take_map)
qed

lemma get_lsbs_cong:
  assumes "map get_lsb xs = map get_lsb ys" shows "get_lsbs xs ts = get_lsbs ys ts"
proof -
  have l: "length xs = length ys" using assms by (rule map_eq_imp_length_eq)
  have "get_lsb (xs ! t) = get_lsb (ys ! t)" if "t < length xs" for t
    using arg_cong [OF assms, of "\<lambda>l. l ! t"] that l by simp
  then show ?thesis by (auto simp: get_lsbs_def l simp flip: not_less)
qed

lemma read_ciphertext_lsbs:
  assumes "map get_lsb (fst (to_channels L a)) = map get_lsb (fst (to_channels L b))"
  shows "read_ciphertext_region L a k n = read_ciphertext_region L b k n"
  using get_lsbs_cong [OF assms] map_eq_imp_length_eq [OF assms]
  by (simp add: read_ciphertext_region_def Let_def)

text \<open>
  Extraction reads nothing but the least significant bit of each channel sample:
  two images with the same bit plane give the same result, payload or error, for every
  passphrase, whatever their visible content.
\<close>
theorem extract_reads_only_lsbs:
  assumes "map get_lsb (fst (to_channels L a)) = map get_lsb (fst (to_channels L b))"
  shows "extract_payload L a pw = extract_payload L b pw"
  using read_header_lsbs [OF assms] read_ciphertext_lsbs [OF assms]
  by (simp add: extract_payload_def extract_stego_def Let_def)

theorem extract_reads_only_lsbs_witness:
  "extract_payload demo_lib demo_image demo_pass
     = extract_payload demo_lib (with_samples demo_image (replicate 1200 2)) demo_pass"
proof (rule extract_reads_only_lsbs)
  have "colour_image (with_samples demo_image (replicate 1200 2))"
    by (simp add: colour_with_samples)
  then show "map get_lsb (fst (to_channels demo_lib demo_image))
      = map get_lsb (fst (to_channels demo_lib (with_samples demo_image (replicate 1200 2))))"
    by (simp add: to_channels_colour) (simp add: demo_image_def with_samples_def get_lsb_def)
qed

text \<open>
  Property C9. The permutation hides nothing: from the image alone, without the passphrase, the
  header gives the permutation seed and the length, and reading at the permuted positions
  returns the very ciphertext that was embedded. Only the AEAD protects the payload.
\<close>
theorem ciphertext_positions_are_public:
  assumes "engine_spec L" "decoded_image im" "encodable pw" "length payload < 2 ^ 31"
    and "has_room im (length payload)"
  shows "\<exists>im' h key c.
    fst (embed_payload L im payload pw E) = Inr (png_save L im') \<and>
    bindR (read_header_region L im') parse_header = Inr h \<and>
    read_ciphertext_region L im' (h_salt h @ h_nonce h) (h_ciphertext_length h) = Inr c \<and>
    derive_key L pw (h_salt h) SCRYPT_N SCRYPT_R SCRYPT_P = Inr key \<and>
    aesgcm_encrypt L key (h_nonce h) payload = Inr c"
proof -
  obtain key c out where o:
    "embed_payload L im payload pw E =
       (Inr (png_save L (with_samples (carrier L im) out)), E\<lparr>cursor := cursor E + 28\<rparr>)"
    "length out = length (img_samples (carrier L im))" "embedded L E pw payload key c out"
    using embed_payload_ok [OF assms, of E] by metis
  define e where "e = default_envelope (window E (cursor E) 16) (window E (cursor E + 16) 12) c"
  have len: "HEADER_BITS + 8 * length c \<le> length out"
    using o(2,3) assms(5) room_bits [OF assms(1,2)] by (simp add: embedded_def Let_def)
  have col: "colour_image (with_samples (carrier L im) out)"
    by (rule colour_with_samples [OF carrier_decoded(1) [OF assms(1,2)] o(2)])
  have s: "img_samples (with_samples (carrier L im) out) = out" by (simp add: with_samples_def)
  have "HEADER_BITS \<le> length out" using len by simp
  note h = embedded_header [OF o(3) col s this]
  note ct = embedded_ciphertext [OF engine_specD(1) [OF assms(1)] o(3) col s len]
  from o(1,3) h ct show ?thesis
    by (intro exI [of _ "with_samples (carrier L im) out"] exI [of _ "header_of e"]
        exI [of _ key] exI [of _ c])
       (simp add: e_def embedded_def Let_def header_of_def default_envelope_def)
qed

theorem ciphertext_positions_are_public_witness:
  "\<exists>im' h key c.
    fst (embed_payload demo_lib demo_image [1] demo_pass demo_entropy) = Inr (png_save demo_lib im') \<and>
    bindR (read_header_region demo_lib im') parse_header = Inr h \<and>
    read_ciphertext_region demo_lib im' (h_salt h @ h_nonce h) (h_ciphertext_length h) = Inr c \<and>
    derive_key demo_lib demo_pass (h_salt h) SCRYPT_N SCRYPT_R SCRYPT_P = Inr key \<and>
    aesgcm_encrypt demo_lib key (h_nonce h) [1] = Inr c"
  by (rule ciphertext_positions_are_public [OF demo_engine demo_decoded demo_pass_encodable])
     (simp_all add: demo_room)

section \<open>Structural verification\<close>

lemma region_read_length:
  assumes "permutation_spec L" "0 \<le> n" "read_ciphertext_region L im k n = Inr c"
  shows "8 * nat n \<le> length (fst (to_channels L im)) - HEADER_BITS"
  using assms permuted_props(1) [OF assms(1), of k HEADER_BITS "length (fst (to_channels L im))"]
  by (auto simp: read_ciphertext_region_def Let_def split: if_splits)

text \<open>
  \<open>verify\<close> never raises, and it misses nothing: whenever some passphrase extracts a
  payload from an image, \<open>verify\<close> reports the payload as detected, its structure as valid, and
  version 1 of the format and of the key derivation.
\<close>
theorem verify_complete:
  assumes "engine_spec L" "decoded_image im" "extract_payload L im pw = Inr x"
  shows "verify L im = Inr \<lparr>compatible_payload_detected = True, envelope_structure_valid = True,
    format_version = Some 1, algorithm_version = Some 1\<rparr>"
proof -
  obtain h c where h: "bindR (read_header_region L im) parse_header = Inr h"
    and c: "read_ciphertext_region L im (h_salt h @ h_nonce h) (h_ciphertext_length h) = Inr c"
    using assms(3) unfolding extract_payload_def extract_Inr_iff by blast
  from h obtain d where "parse_header d = Inr h" by (auto simp: bindR_Inr_iff)
  note v = parse_header_Inr(3,4) [OF this]
  note n = header_length_nonneg [OF h]
  have "8 * nat (h_ciphertext_length h) \<le> img_width im * img_height im * channel_count im"
    using region_read_length [OF engine_specD(1) [OF assms(1)] n c]
      carrier_decoded(5) [OF assms(1,2)] by (simp add: to_channels_def)
  then have "nat (h_ciphertext_length h) \<le> total_capacity_bytes im"
    by (simp add: total_capacity_bytes_def)
  then show ?thesis using h v n
    by (simp add: verify_unfold FORMAT_VERSION_def KDF_SCRYPT_def)
qed

theorem verify_complete_witness:
  "\<exists>im x. extract_payload demo_lib im demo_pass = Inr x \<and>
    verify demo_lib im = Inr \<lparr>compatible_payload_detected = True, envelope_structure_valid = True,
      format_version = Some 1, algorithm_version = Some 1\<rparr>"
proof -
  have "length [5 :: byte] < 2 ^ 31" "has_room demo_image (length [5 :: byte])"
    by (simp_all add: demo_room)
  from embed_payload_ok [OF demo_engine demo_decoded demo_pass_encodable this, of demo_entropy]
  obtain key c out where e: "length out = length (img_samples (carrier demo_lib demo_image))"
    "embedded demo_lib demo_entropy demo_pass [5] key c out" by metis
  have col: "colour_image (with_samples demo_image out)"
    by (rule colour_with_samples) (use e(1) in simp_all)
  have "extract_stego demo_lib (with_samples demo_image out) demo_pass = Inr [5]"
    by (rule extract_embedded [OF demo_engine e(2) col])
       (use e in \<open>simp_all add: with_samples_def embedded_def Let_def HEADER_BITS_eq\<close>)
  then have "extract_payload demo_lib (with_samples demo_image out) demo_pass = Inr [5]"
    by (simp add: extract_payload_def)
  moreover have "decoded_image (with_samples demo_image out)"
    using col by (simp add: decoded_image_def colour_image_def)
  ultimately show ?thesis using verify_complete [OF demo_engine] by blast
qed

text \<open>
  Property C7. \<open>verify\<close> overclaims: its consistency check compares the declared ciphertext length
  with the capacity of the whole image and forgets the 46 bytes the header takes, so for a
  length in that gap it reports a valid structure although every extraction must fail.
\<close>
theorem verify_overclaims:
  assumes "permutation_spec L" "colour_image im"
    and "bindR (read_header_region L im) parse_header = Inr h"
    and "h_ciphertext_length h \<le> int (total_capacity_bytes im)"
    and "int (total_capacity_bytes im) < h_ciphertext_length h + int HEADER_LEN"
  shows "verify L im = Inr \<lparr>compatible_payload_detected = True, envelope_structure_valid = True,
      format_version = Some (h_version h), algorithm_version = Some (h_kdf_id h)\<rparr> \<and>
    (\<forall>pw. extract_payload L im pw = Inl (ExtractionError GENERIC_MESSAGE))"
proof
  show "verify L im = Inr \<lparr>compatible_payload_detected = True, envelope_structure_valid = True,
      format_version = Some (h_version h), algorithm_version = Some (h_kdf_id h)\<rparr>"
    using assms(3,4) by (simp add: verify_unfold)
  have cap: "total_capacity_bytes im = length (fst (to_channels L im)) div 8"
    using assms(2)
    by (simp add: to_channels_colour total_capacity_bytes_def colour_image_def channel_count_def
        mode_channels_def)
  let ?order = "permuted_positions L (h_salt h @ h_nonce h) [HEADER_BITS..<length (fst (to_channels L im))]"
  have "HEADER_BITS \<le> length (fst (to_channels L im))"
    using assms(3) by (auto simp: read_header_region_def bindR_Inr_iff Let_def split: if_splits)
  then have "int (length ?order) < h_ciphertext_length h * 8"
    unfolding permuted_props(1) [OF assms(1)] using assms(5) unfolding cap HEADER_BITS_eq HEADER_LEN_eq
    by linarith
  then have "read_ciphertext_region L im (h_salt h @ h_nonce h) (h_ciphertext_length h)
      = Inl (CapacityError ''declared ciphertext length exceeds image'')"
    by (simp add: read_ciphertext_region_def Let_def)
  then show "\<forall>pw. extract_payload L im pw = Inl (ExtractionError GENERIC_MESSAGE)"
    using assms(3) by (simp add: extract_payload_def extract_stego_def)
qed

theorem verify_overclaims_witness:
  "verify demo_lib (crafted_image (crafted_header (2 ^ 14) 150)) =
     Inr \<lparr>compatible_payload_detected = True, envelope_structure_valid = True,
      format_version = Some 1, algorithm_version = Some 1\<rparr> \<and>
    extract_payload demo_lib (crafted_image (crafted_header (2 ^ 14) 150)) demo_pass
      = Inl (ExtractionError GENERIC_MESSAGE)"
proof -
  let ?h = "crafted_header (2 ^ 14) 150"
  have "bindR (read_header_region demo_lib (crafted_image ?h)) parse_header = Inr ?h"
    by (rule crafted_reads) (simp_all add: uint_fits_def)
  moreover have "total_capacity_bytes (crafted_image ?h) = 150"
    by (simp add: total_capacity_bytes_def crafted_image_def channel_count_def)
  ultimately show ?thesis
    using verify_overclaims [OF demo_permutation crafted_colour, of ?h ?h]
    by (simp add: crafted_header_def FORMAT_VERSION_def KDF_SCRYPT_def)
qed

end
