(* ===== verification/Interleaving.thy ===== *)
theory Interleaving
  imports Prelude
begin

text \<open>
  Requests served at once. FastAPI runs the synchronous handlers in a thread pool; a handler that
  reads the database, decides and then writes is a thread with a stage between the accesses. The
  locale \<open>threads\<close> is what the step relations of the concurrent handlers have in common: a step
  moves one thread, towards its end, and no thread waits for another. It is interpreted for
  upload validations, rotations of a refresh token, logins and registrations.
\<close>

text \<open>The accesses that the first \<open>N\<close> threads still have to make, and that no other has any.\<close>

definition work :: "('p \<Rightarrow> nat) \<Rightarrow> nat \<Rightarrow> (nat \<Rightarrow> 'p) \<Rightarrow> nat" where
  "work left N st = (\<Sum>i < N. left (st i))"

definition only_first :: "('p \<Rightarrow> nat) \<Rightarrow> nat \<Rightarrow> (nat \<Rightarrow> 'p) \<Rightarrow> bool" where
  "only_first left N st \<longleftrightarrow> (\<forall>i \<ge> N. left (st i) = 0)"

text \<open>\<open>N\<close> threads at the stage \<open>p\<close>, the others at \<open>q\<close>.\<close>

definition first_threads :: "nat \<Rightarrow> 'p \<Rightarrow> 'p \<Rightarrow> nat \<Rightarrow> 'p" where
  "first_threads N p q i = (if i < N then p else q)"

lemma first_threads_simps [simp]:
  "first_threads 0 p q = (\<lambda>_. q)"
  "(first_threads N p q)(N := p) = first_threads (Suc N) p q"
  "i < N \<Longrightarrow> first_threads N p q i = p" "\<not> i < N \<Longrightarrow> first_threads N p q i = q"
  by (auto simp: first_threads_def less_Suc_eq fun_eq_iff)

lemma work_first_threads [simp]: "work left N (first_threads N p q) = left p * N"
  by (simp add: work_def)

lemma only_first_threads: "left q = 0 \<Longrightarrow> only_first left N (first_threads N p q)"
  by (simp add: only_first_def)

text \<open>The threads in \<open>P\<close> below \<open>N\<close> make the same move, one after the other.\<close>

lemma sweep:
  fixes N :: nat
  assumes "\<And>i st. i < N \<Longrightarrow> P i \<Longrightarrow> st i = p \<Longrightarrow> step (mk st) (mk (st(i := q)))"
    and "\<forall>i < N. P i \<longrightarrow> st i = p"
  shows "step\<^sup>*\<^sup>* (mk st) (mk (\<lambda>i. if i < N \<and> P i then q else st i))"
  using assms
proof (induction N)
  case (Suc N)
  let ?st = "\<lambda>i. if i < N \<and> P i then q else st i"
  have run: "step\<^sup>*\<^sup>* (mk st) (mk ?st)" using Suc by simp
  have "(\<lambda>i. if i < Suc N \<and> P i then q else st i) = (if P N then ?st(N := q) else ?st)"
    by (auto simp: less_Suc_eq)
  moreover have "step (mk ?st) (mk (?st(N := q)))" if "P N"
    by (rule Suc.prems(1)) (use that Suc.prems(2) in auto)
  ultimately show ?case using run by (auto intro: rtranclp.rtrancl_into_rtrancl)
qed simp

locale threads =
  fixes step :: "'s \<Rightarrow> 's \<Rightarrow> bool" and stage :: "'s \<Rightarrow> nat \<Rightarrow> 'p" and left :: "'p \<Rightarrow> nat"
  assumes moves: "step s t \<Longrightarrow> \<exists>i p. stage t = (stage s)(i := p) \<and> left p < left (stage s i)"
    and progress: "left (stage s i) \<noteq> 0 \<Longrightarrow> \<exists>t. step s t"
begin

lemma step_work:
  assumes "step s t" "only_first left N (stage s)"
  shows "work left N (stage t) < work left N (stage s) \<and> only_first left N (stage t)"
proof -
  obtain i p where i: "stage t = (stage s)(i := p)" "left p < left (stage s i)"
    using moves [OF assms(1)] by blast
  have "left (stage s i) \<noteq> 0" using i(2) by simp
  then have "i < N" using assms(2) unfolding only_first_def by (meson not_le)
  then have "work left N (stage t) < work left N (stage s)" unfolding work_def
    by (intro sum_strict_mono_ex1) (use i in auto)
  moreover have "only_first left N (stage t)"
    using assms(2) i \<open>i < N\<close> by (auto simp: only_first_def)
  ultimately show ?thesis by blast
qed

lemma steps_work:
  "(step ^^ k) s t \<Longrightarrow> only_first left N (stage s) \<Longrightarrow>
     k + work left N (stage t) \<le> work left N (stage s) \<and> only_first left N (stage t)"
proof (induction k arbitrary: t)
  case (Suc k)
  then obtain v where v: "(step ^^ k) s v" "step v t" by auto
  then show ?case using Suc.IH [OF v(1) Suc.prems(2)] step_work [OF v(2), of N] by force
qed simp

lemma stuck_iff:
  assumes "only_first left N (stage s)"
  shows "(\<nexists>t. step s t) \<longleftrightarrow> (\<forall>i < N. left (stage s i) = 0)"
proof -
  have "(\<nexists>t. step s t) \<longleftrightarrow> (\<forall>i. left (stage s i) = 0)"
    using progress moves by (metis not_less_zero)
  then show ?thesis using assms by (meson not_le only_first_def)
qed

text \<open>A run of \<open>N\<close> threads that started at the stage \<open>p\<close>.\<close>

lemma terminates:
  assumes "(step ^^ k) s t" "stage s = first_threads N p q" "left q = 0"
  shows "k \<le> left p * N" "(\<nexists>u. step t u) \<longleftrightarrow> (\<forall>i < N. left (stage t i) = 0)"
  using steps_work [OF assms(1), of N] stuck_iff [of N t] only_first_threads [of left q N p] assms(2,3)
  by simp_all

text \<open>A thread that is done stays as it is.\<close>

lemma finished_stays: "step\<^sup>*\<^sup>* s t \<Longrightarrow> left (stage s i) = 0 \<Longrightarrow> stage t i = stage s i"
proof (induction rule: rtranclp_induct)
  case (step v t)
  then show ?case using moves [OF step.hyps(2)] by (metis fun_upd_apply not_less_zero)
qed simp

end

end
