(* ===== verification/Validators.thy ===== *)
theory Validators
  imports Engine Interleaving
begin

text \<open>
  Hostile-file validation, \<^verbatim>\<open>app/files/validators.py\<close>. The state of the model is
  Pillow's process-wide \<^verbatim>\<open>Image.MAX_IMAGE_PIXELS\<close>, which \<open>validate_png\<close> sets for the
  duration of the decoding and restores in a \<^verbatim>\<open>finally\<close>. The last section runs the same
  three accesses to that global from several threads, as FastAPI's thread pool does.
\<close>

section \<open>The operation\<close>

definition DEFAULT_MAX_UPLOAD_BYTES :: int where
  "DEFAULT_MAX_UPLOAD_BYTES = 10 * 1024 * 1024"

definition DEFAULT_MAX_DIMENSION :: int where
  "DEFAULT_MAX_DIMENSION = 4096"

definition DEFAULT_MAX_PIXELS :: int where
  "DEFAULT_MAX_PIXELS = 16000000"

definition ALLOWED_MODES :: "string set" where
  "ALLOWED_MODES = {''RGB'', ''RGBA'', ''L'', ''P''}"

text \<open>The body of the \<^verbatim>\<open>try\<close>: probe, verify, open again, load.\<close>

definition decode_png :: "lib \<Rightarrow> bytes \<Rightarrow> (int, image) py" where
  "decode_png L data =
     bindM (gets (\<lambda>limit. limit)) (\<lambda>limit.
     bindM (liftR (pil_open L limit data)) (\<lambda>fmt.
     if fmt \<noteq> ''PNG'' then raise (FileValidationError ''NOT_PNG'')
     else
       thenM (liftR (pil_verify L limit data))
      (thenM (liftR (pil_open L limit data))
             (liftR (pil_load L limit data)))))"

text \<open>The \<^verbatim>\<open>except\<close> clauses, in their order.\<close>

fun decode_handler :: "exn \<Rightarrow> (int, image) py" where
  "decode_handler (FileValidationError c) = raise (FileValidationError c)"
| "decode_handler DecompressionBombError = raise (FileValidationError ''PIXEL_BOMB'')"
| "decode_handler e =
     (if e \<in> {UnidentifiedImageError, OSError, SyntaxError} \<or> is_value_error e
      then raise (FileValidationError ''MALFORMED'') else raise e)"

definition check_image :: "int \<Rightarrow> int \<Rightarrow> image \<Rightarrow> (int, image) py" where
  "check_image max_dimension max_pixels im =
     (if max_dimension < int (img_width im) \<or> max_dimension < int (img_height im)
      then raise (FileValidationError ''DIMENSIONS'')
      else if max_pixels < int (img_width im) * int (img_height im)
      then raise (FileValidationError ''PIXEL_BOMB'')
      else if img_mode im \<notin> ALLOWED_MODES then raise (FileValidationError ''COLOR_MODE'')
      else ret im)"

definition validate_png :: "lib \<Rightarrow> int \<Rightarrow> int \<Rightarrow> int \<Rightarrow> bytes \<Rightarrow> (int, image) py" where
  "validate_png L max_upload_bytes max_dimension max_pixels data =
     (if length data = 0 then raise (FileValidationError ''EMPTY_FILE'')
      else if max_upload_bytes < int (length data) then raise (FileValidationError ''FILE_TOO_LARGE'')
      else if take 8 data \<noteq> PNG_MAGIC then raise (FileValidationError ''BAD_MAGIC'')
      else
        bindM (gets (\<lambda>limit. limit)) (\<lambda>original_max.
        thenM (modify (\<lambda>_. max_pixels))
       (bindM (finallyM (catchM (decode_png L data) decode_handler) (\<lambda>_. original_max)) (\<lambda>im.
        check_image max_dimension max_pixels im))))"

section \<open>Its behaviour\<close>

lemma decode_png_state: "snd (decode_png L data m) = m"
  by (simp add: decode_png_def py_simps split: sum.split prod.split)

lemma decode_handler_state: "snd (decode_handler e m) = m"
  by (cases e rule: decode_handler.cases) auto

lemma decode_handler_raises: "fst (decode_handler e m) \<noteq> Inr im"
  by (cases e rule: decode_handler.cases) auto

lemma check_image_state: "snd (check_image d p im m) = m"
  by (simp add: check_image_def)

lemma validate_png_run:
  "validate_png L mu md mp data m =
     (if length data = 0 then (Inl (FileValidationError ''EMPTY_FILE''), m)
      else if mu < int (length data) then (Inl (FileValidationError ''FILE_TOO_LARGE''), m)
      else if take 8 data \<noteq> PNG_MAGIC then (Inl (FileValidationError ''BAD_MAGIC''), m)
      else
        (case fst (catchM (decode_png L data) decode_handler mp) of
           Inl e \<Rightarrow> (Inl e, m)
         | Inr im \<Rightarrow> (fst (check_image md mp im m), m)))"
  using check_image_state [of md mp _ m]
  by (auto simp: validate_png_def py_simps prod_eq_iff split: sum.split prod.split)

lemma decode_png_Inr:
  "fst (decode_png L data m) = Inr im \<longleftrightarrow>
     pil_open L m data = Inr ''PNG'' \<and> pil_verify L m data = Inr () \<and> pil_load L m data = Inr im"
  by (auto simp: decode_png_def py_simps split: sum.split prod.split)

lemma decode_caught_Inr:
  "fst (catchM (decode_png L data) decode_handler m) = Inr im \<longleftrightarrow>
     fst (decode_png L data m) = Inr im"
proof (cases "decode_png L data m")
  case (Pair r m')
  then show ?thesis
    by (cases r) (auto simp: py_simps decode_handler_raises)
qed

definition within_limits :: "int \<Rightarrow> int \<Rightarrow> image \<Rightarrow> bool" where
  "within_limits max_dimension max_pixels im \<longleftrightarrow>
     int (img_width im) \<le> max_dimension \<and> int (img_height im) \<le> max_dimension \<and>
     int (img_width im) * int (img_height im) \<le> max_pixels \<and>
     img_mode im \<in> {''RGB'', ''RGBA'', ''L'', ''P''}"

lemma check_image_Inr:
  "fst (check_image md mp im m) = Inr im' \<longleftrightarrow> within_limits md mp im \<and> im' = im"
  by (auto simp: check_image_def within_limits_def ALLOWED_MODES_def)

text \<open>Accepted data, and what accepting implies.\<close>

lemma validate_png_caught:
  "fst (validate_png L mu md mp data m) = Inr im \<longleftrightarrow>
     0 < length data \<and> int (length data) \<le> mu \<and> take 8 data = PNG_MAGIC \<and>
     fst (decode_png L data mp) = Inr im \<and> within_limits md mp im"
proof (cases "fst (catchM (decode_png L data) decode_handler mp)")
  case (Inl e)
  then have "fst (decode_png L data mp) \<noteq> Inr im"
    by (metis Inl_Inr_False decode_caught_Inr)
  with Inl show ?thesis by (auto simp: validate_png_run)
next
  case (Inr im')
  with decode_caught_Inr [of L data mp im'] show ?thesis
    by (auto simp: validate_png_run check_image_Inr)
qed

text \<open>
  Property C10. What \<open>validate_png\<close> accepts, exactly: non-empty data within the size limit that
  start with the PNG signature, that Pillow opens as PNG, verifies and loads under the given
  pixel limit, and whose decoded image respects dimension, pixel-count and mode limits. Nothing
  else is returned, and the returned image is the loaded one.
\<close>
theorem validate_png_accepts:
  "fst (validate_png L mu md mp data m) = Inr im \<longleftrightarrow>
     0 < length data \<and> int (length data) \<le> mu \<and> take 8 data = PNG_MAGIC \<and>
     pil_open L mp data = Inr ''PNG'' \<and> pil_verify L mp data = Inr () \<and>
     pil_load L mp data = Inr im \<and> within_limits md mp im"
  by (simp add: validate_png_caught decode_png_Inr)

text \<open>
  \<open>validate_png\<close> leaves \<^verbatim>\<open>Image.MAX_IMAGE_PIXELS\<close> as it found it on every
  path, whatever Pillow raises.
\<close>
theorem validate_png_restores_limit: "snd (validate_png L mu md mp data m) = m"
  by (simp add: validate_png_run split: sum.split)

text \<open>The exceptions Pillow documents for hostile input.\<close>

definition pil_errors_spec :: "lib \<Rightarrow> bool" where
  "pil_errors_spec L \<longleftrightarrow>
     (\<forall>m d e. pil_open L m d = Inl e \<or> pil_verify L m d = Inl e \<or> pil_load L m d = Inl e \<longrightarrow>
        e \<in> {DecompressionBombError, UnidentifiedImageError, OSError, ValueError, SyntaxError})"

text \<open>What Pillow loads is a decoded image.\<close>

definition pil_load_spec :: "lib \<Rightarrow> bool" where
  "pil_load_spec L \<longleftrightarrow> (\<forall>m d im. pil_load L m d = Inr im \<longrightarrow> decoded_image im)"

lemma validate_png_decoded:
  "pil_load_spec L \<Longrightarrow> fst (validate_png L mu md mp data m) = Inr im \<Longrightarrow> decoded_image im"
  by (auto simp: validate_png_caught decode_png_Inr pil_load_spec_def)

definition validation_codes :: "string set" where
  "validation_codes = {''EMPTY_FILE'', ''FILE_TOO_LARGE'', ''BAD_MAGIC'', ''NOT_PNG'',
     ''PIXEL_BOMB'', ''MALFORMED'', ''DIMENSIONS'', ''COLOR_MODE''}"

lemma decode_png_Inl:
  assumes "pil_errors_spec L" "fst (decode_png L data m) = Inl e"
  shows "e = FileValidationError ''NOT_PNG'' \<or>
    e \<in> {DecompressionBombError, UnidentifiedImageError, OSError, ValueError, SyntaxError}"
proof -
  from assms(2) have "e = FileValidationError ''NOT_PNG'' \<or> pil_open L m data = Inl e \<or>
      pil_verify L m data = Inl e \<or> pil_load L m data = Inl e"
    by (auto simp: decode_png_def py_simps split: sum.splits prod.splits if_splits)
  with assms(1) show ?thesis unfolding pil_errors_spec_def by blast
qed

text \<open>
  Every rejection is a \<open>FileValidationError\<close> with one of the eight stable codes, as
  long as Pillow raises only the exceptions it documents for bad files.
\<close>
theorem validate_png_rejects_with_code:
  assumes "pil_errors_spec L" "fst (validate_png L mu md mp data m) = Inl e"
  shows "\<exists>c \<in> validation_codes. e = FileValidationError c"
proof -
  have chk: "\<exists>c \<in> validation_codes. x = FileValidationError c" if "fst (check_image md mp im m) = Inl x" for im x
    using that by (auto simp: check_image_def validation_codes_def split: if_splits)
  have dec: "\<exists>c \<in> validation_codes. x = FileValidationError c"
    if "fst (catchM (decode_png L data) decode_handler mp) = Inl x" for x
  proof (cases "decode_png L data mp")
    case (Pair r m')
    show ?thesis
    proof (cases r)
      case (Inl y)
      with Pair decode_png_Inl [OF assms(1), of data mp y] that show ?thesis
        by (auto simp: py_simps is_value_error_def validation_codes_def)
    next
      case (Inr im)
      with Pair that show ?thesis by (simp add: py_simps)
    qed
  qed
  from assms(2) chk dec show ?thesis
    by (auto simp: validate_png_run validation_codes_def split: if_splits sum.splits)
qed

lemma demo_pil_errors: "pil_errors_spec demo_lib"
  by (auto simp: pil_errors_spec_def demo_lib_def demo_open_def demo_verify_def demo_load_def Let_def
      split: if_splits)

lemma demo_pil_load: "pil_load_spec demo_lib"
  by (auto simp: pil_load_spec_def demo_lib_def demo_load_def Let_def decoded_image_def colour_image_def
      split: if_splits)

theorem validate_png_rejects_with_code_witness:
  "\<exists>e. fst (validate_png demo_lib 100 10 100 [0xFF, 0xD8] 7) = Inl e \<and>
    (\<exists>c \<in> validation_codes. e = FileValidationError c)"
proof -
  have "fst (validate_png demo_lib 100 10 100 [0xFF, 0xD8] 7) = Inl (FileValidationError ''BAD_MAGIC'')"
    by (simp add: validate_png_run PNG_MAGIC_def)
  with validate_png_rejects_with_code [OF demo_pil_errors this] show ?thesis by blast
qed

section \<open>The global limit under concurrency\<close>

text \<open>
  One validation per thread, each a call of \<open>validate_png\<close> with its own data and limits. Its
  accesses to the global are steps of their own: it reads it (line 56), sets it to its own
  \<^verbatim>\<open>max_pixels\<close> (line 57), Pillow decodes under the value in force then (lines 58 to
  66, one step: the decoder reads the global before it decodes), and after the
  decoding it writes back what it had read (line 74).
\<close>

record validation =
  val_data :: bytes
  val_max_bytes :: int
  val_max_dimension :: int
  val_max_pixels :: int

definition validate :: "lib \<Rightarrow> validation \<Rightarrow> (int, image) py" where
  "validate L c = validate_png L (val_max_bytes c) (val_max_dimension c) (val_max_pixels c) (val_data c)"

text \<open>The checks before the global is touched, the decoding under a limit, and the checks after it.\<close>

definition precheck :: "validation \<Rightarrow> unit res" where
  "precheck c =
     (if length (val_data c) = 0 then Inl (FileValidationError ''EMPTY_FILE'')
      else if val_max_bytes c < int (length (val_data c)) then Inl (FileValidationError ''FILE_TOO_LARGE'')
      else if take 8 (val_data c) \<noteq> PNG_MAGIC then Inl (FileValidationError ''BAD_MAGIC'')
      else Inr ())"

definition decode_under :: "lib \<Rightarrow> validation \<Rightarrow> int \<Rightarrow> image res" where
  "decode_under L c limit = fst (catchM (decode_png L (val_data c)) decode_handler limit)"

definition postcheck :: "validation \<Rightarrow> image res \<Rightarrow> image res" where
  "postcheck c r = bindR r (\<lambda>im. fst (check_image (val_max_dimension c) (val_max_pixels c) im 0))"

datatype vpc = Waiting | Saved int | Decoding int | Decoded int "image res" | Answered "image res"

record vstate =
  max_image_pixels :: int
  threads :: "nat \<Rightarrow> vpc"

inductive validator_step :: "lib \<Rightarrow> (nat \<Rightarrow> validation) \<Rightarrow> vstate \<Rightarrow> vstate \<Rightarrow> bool" for L calls where
  refuse: "threads s i = Waiting \<Longrightarrow> precheck (calls i) = Inl e \<Longrightarrow>
    validator_step L calls s (s\<lparr>threads := (threads s)(i := Answered (Inl e))\<rparr>)"
| save: "threads s i = Waiting \<Longrightarrow> precheck (calls i) = Inr () \<Longrightarrow>
    validator_step L calls s (s\<lparr>threads := (threads s)(i := Saved (max_image_pixels s))\<rparr>)"
| set_limit: "threads s i = Saved v \<Longrightarrow>
    validator_step L calls s
      (s\<lparr>max_image_pixels := val_max_pixels (calls i), threads := (threads s)(i := Decoding v)\<rparr>)"
| decode: "threads s i = Decoding v \<Longrightarrow>
    validator_step L calls s
      (s\<lparr>threads := (threads s)(i := Decoded v (decode_under L (calls i) (max_image_pixels s)))\<rparr>)"
| restore: "threads s i = Decoded v r \<Longrightarrow>
    validator_step L calls s
      (s\<lparr>max_image_pixels := v, threads := (threads s)(i := Answered (postcheck (calls i) r))\<rparr>)"

inductive_simps validator_step_iff: "validator_step L calls s t"

definition idle :: "int \<Rightarrow> vstate" where
  "idle m = \<lparr>max_image_pixels = m, threads = (\<lambda>_. Waiting)\<rparr>"

text \<open>What \<open>validate_png\<close> answers, in these terms: it decodes under its own limit.\<close>

lemma check_image_any: "fst (check_image d p im m) = fst (check_image d p im 0)"
  by (simp add: check_image_def)

lemma validate_stages:
  "validate L c m =
     (bindR (precheck c) (\<lambda>_. postcheck c (decode_under L c (val_max_pixels c))), m)"
  using check_image_any [of "val_max_dimension c" "val_max_pixels c" _ m]
  by (auto simp: validate_def validate_png_run precheck_def decode_under_def postcheck_def split: sum.split)

text \<open>A thread that runs without interruption does what \<open>validate_png\<close> does.\<close>

lemma validation_alone:
  assumes "threads s i = Waiting"
  shows "(validator_step L calls)\<^sup>*\<^sup>* s
    (s\<lparr>max_image_pixels := snd (validate L (calls i) (max_image_pixels s)),
       threads := (threads s)(i := Answered (fst (validate L (calls i) (max_image_pixels s))))\<rparr>)"
proof (cases "precheck (calls i)")
  case (Inl e)
  then show ?thesis
    using validator_step.refuse [of s i calls, OF assms Inl] by (simp add: validate_stages r_into_rtranclp)
next
  case (Inr u)
  let ?m = "max_image_pixels s" and ?c = "calls i"
  define at where "at g p = s\<lparr>max_image_pixels := g, threads := (threads s)(i := p)\<rparr>" for g p
  have a: "max_image_pixels (at g p) = g" "threads (at g p) i = p"
    "(at g p)\<lparr>max_image_pixels := g', threads := (threads (at g p))(i := p')\<rparr> = at g' p'"
    "(at g p)\<lparr>threads := (threads (at g p))(i := p')\<rparr> = at g p'" for g p g' p'
    by (simp_all add: at_def)
  have "validator_step L calls s (at ?m (Saved ?m))"
    using validator_step.save [of s i calls L, OF assms] Inr by (simp add: at_def)
  moreover have "validator_step L calls (at ?m (Saved ?m)) (at (val_max_pixels ?c) (Decoding ?m))"
    using validator_step.set_limit [of "at ?m (Saved ?m)" i ?m L calls] by (simp add: a)
  moreover have "validator_step L calls (at (val_max_pixels ?c) (Decoding ?m))
      (at (val_max_pixels ?c) (Decoded ?m (decode_under L ?c (val_max_pixels ?c))))"
    using validator_step.decode [of "at (val_max_pixels ?c) (Decoding ?m)" i ?m L calls] by (simp add: a)
  moreover have "validator_step L calls (at (val_max_pixels ?c) (Decoded ?m r)) (at ?m (Answered (postcheck ?c r)))" for r
    using validator_step.restore [of "at (val_max_pixels ?c) (Decoded ?m r)" i ?m r L calls] by (simp add: a)
  ultimately have "(validator_step L calls)\<^sup>*\<^sup>* s
      (at ?m (Answered (postcheck ?c (decode_under L ?c (val_max_pixels ?c)))))"
    by (meson converse_rtranclp_into_rtranclp rtranclp.rtrancl_refl)
  then show ?thesis using Inr by (simp add: validate_stages at_def)
qed

text \<open>
  However threads interleave, the global only ever holds the original limit or the limit of one
  of the validations: no other value can appear.
\<close>

definition limit_inv :: "int \<Rightarrow> (nat \<Rightarrow> validation) \<Rightarrow> vstate \<Rightarrow> bool" where
  "limit_inv m calls s \<longleftrightarrow> max_image_pixels s \<in> insert m (range (val_max_pixels \<circ> calls)) \<and>
     (\<forall>i v r. threads s i \<in> {Saved v, Decoding v, Decoded v r} \<longrightarrow>
        v \<in> insert m (range (val_max_pixels \<circ> calls)))"

lemma validator_step_inv: "validator_step L calls s t \<Longrightarrow> limit_inv m calls s \<Longrightarrow> limit_inv m calls t"
  by (induction rule: validator_step.induct) (auto simp: limit_inv_def)

theorem concurrent_limit_range:
  assumes "(validator_step L calls)\<^sup>*\<^sup>* (idle m) s"
  shows "max_image_pixels s \<in> insert m (range (val_max_pixels \<circ> calls))"
proof -
  have "limit_inv m calls s" using assms
  proof (induction rule: rtranclp_induct)
    case base
    show ?case by (simp add: limit_inv_def idle_def)
  next
    case (step y z)
    then show ?case using validator_step_inv by blast
  qed
  then show ?thesis by (simp add: limit_inv_def)
qed

text \<open>
  Property C11. Concurrent validations do affect each other. Take any two calls of
  \<open>validate_png\<close>, each with its own data and limits, that pass the checks before the decoding,
  while the global holds \<open>m\<close>, which is not the limit of the first. Then there is an
  interleaving of the two in which the second decodes under \<open>m\<close>, so that it answers what the
  decoder makes of its data under \<open>m\<close> and not, as it does alone, under its own limit; and after
  both have answered the global is not \<open>m\<close> again, as after each of them alone, but stays at the
  limit of the first.
\<close>
theorem concurrent_validations_interfere:
  assumes pre: "precheck (calls 0) = Inr ()" "precheck (calls 1) = Inr ()"
    and other: "val_max_pixels (calls 0) \<noteq> m"
  shows "(\<exists>s t. (validator_step L calls)\<^sup>*\<^sup>* (idle m) s \<and>
      threads s 1 = Decoding (val_max_pixels (calls 0)) \<and> max_image_pixels s = m \<and>
      (validator_step L calls)\<^sup>*\<^sup>* s t \<and>
      threads t 0 = Answered (fst (validate L (calls 0) m)) \<and>
      threads t 1 = Answered (postcheck (calls 1) (decode_under L (calls 1) m)) \<and>
      max_image_pixels t = val_max_pixels (calls 0) \<and> max_image_pixels t \<noteq> m) \<and>
    validate L (calls 0) m = (postcheck (calls 0) (decode_under L (calls 0) (val_max_pixels (calls 0))), m) \<and>
    validate L (calls 1) m = (postcheck (calls 1) (decode_under L (calls 1) (val_max_pixels (calls 1))), m)"
proof (rule conjI)
  let ?st = "\<lambda>g a b. \<lparr>max_image_pixels = g, threads = (\<lambda>_. Waiting)(0 := a, 1 := b)\<rparr>"
  let ?p = "val_max_pixels (calls 0)" and ?q = "val_max_pixels (calls 1)"
  let ?d = "decode_under L (calls 0) ?p" and ?e = "decode_under L (calls 1) m"
  let ?step = "validator_step L calls"
  have "idle m = ?st m Waiting Waiting" by (auto simp: idle_def fun_eq_iff)
  have s1: "?step (idle m) (?st m (Saved m) Waiting)"
    using validator_step.save [of "idle m" 0 calls L] pre by (simp add: idle_def fun_upd_twist fun_upd_idem)
  have s2: "?step (?st m (Saved m) Waiting) (?st ?p (Decoding m) Waiting)"
    using validator_step.set_limit [of "?st m (Saved m) Waiting" 0 m L calls] by (simp add: fun_upd_twist)
  have s3: "?step (?st ?p (Decoding m) Waiting) (?st ?p (Decoding m) (Saved ?p))"
    using validator_step.save [of "?st ?p (Decoding m) Waiting" 1 calls L] pre by simp
  have s4: "?step (?st ?p (Decoding m) (Saved ?p)) (?st ?p (Decoded m ?d) (Saved ?p))"
    using validator_step.decode [of "?st ?p (Decoding m) (Saved ?p)" 0 m L calls] by (simp add: fun_upd_twist)
  have s5: "?step (?st ?p (Decoded m ?d) (Saved ?p)) (?st ?q (Decoded m ?d) (Decoding ?p))"
    using validator_step.set_limit [of "?st ?p (Decoded m ?d) (Saved ?p)" 1 ?p L calls] by simp
  have s6: "?step (?st ?q (Decoded m ?d) (Decoding ?p)) (?st m (Answered (postcheck (calls 0) ?d)) (Decoding ?p))"
    using validator_step.restore [of "?st ?q (Decoded m ?d) (Decoding ?p)" 0 m ?d L calls] by (simp add: fun_upd_twist)
  let ?a = "Answered (postcheck (calls 0) ?d)"
  have s7: "?step (?st m ?a (Decoding ?p)) (?st m ?a (Decoded ?p ?e))"
    using validator_step.decode [of "?st m ?a (Decoding ?p)" 1 ?p L calls] by simp
  have s8: "?step (?st m ?a (Decoded ?p ?e)) (?st ?p ?a (Answered (postcheck (calls 1) ?e)))"
    using validator_step.restore [of "?st m ?a (Decoded ?p ?e)" 1 ?p ?e L calls] by simp
  note steps = converse_rtranclp_into_rtranclp [where r = "validator_step L calls"]
  have to: "?step\<^sup>*\<^sup>* (idle m) (?st m ?a (Decoding ?p))"
    by (rule steps [OF s1], rule steps [OF s2], rule steps [OF s3], rule steps [OF s4], rule steps [OF s5],
        rule steps [OF s6], rule rtranclp.rtrancl_refl)
  have from_there: "?step\<^sup>*\<^sup>* (?st m ?a (Decoding ?p)) (?st ?p ?a (Answered (postcheck (calls 1) ?e)))"
    by (rule steps [OF s7], rule steps [OF s8], rule rtranclp.rtrancl_refl)
  show "\<exists>s t. ?step\<^sup>*\<^sup>* (idle m) s \<and> threads s 1 = Decoding ?p \<and> max_image_pixels s = m \<and> ?step\<^sup>*\<^sup>* s t \<and>
      threads t 0 = Answered (fst (validate L (calls 0) m)) \<and>
      threads t 1 = Answered (postcheck (calls 1) ?e) \<and> max_image_pixels t = ?p \<and> max_image_pixels t \<noteq> m"
    by (intro exI [of _ "?st m ?a (Decoding ?p)"] exI [of _ "?st ?p ?a (Answered (postcheck (calls 1) ?e))"]
        conjI to from_there) (use other pre in \<open>simp_all add: validate_stages\<close>)
  show "validate L (calls 0) m = (postcheck (calls 0) ?d, m) \<and>
      validate L (calls 1) m = (postcheck (calls 1) (decode_under L (calls 1) ?q), m)"
    using pre by (simp add: validate_stages)
qed

text \<open>An image of 3 times 2 pixels and a limit of 10: alone it is accepted; decoded under the
  limit of 2 that the other validation has put back, it is refused as a decompression bomb.\<close>

definition demo_small_png :: bytes where
  "demo_small_png = PNG_MAGIC @ [0, 1, 1, 1, 0, 1, 1, 0] @ replicate 18 7"

definition demo_validation :: validation where
  "demo_validation =
     \<lparr>val_data = demo_small_png, val_max_bytes = 100, val_max_dimension = 10, val_max_pixels = 10\<rparr>"

theorem concurrent_validations_interfere_witness:
  "(\<exists>t. (validator_step demo_lib (\<lambda>_. demo_validation))\<^sup>*\<^sup>* (idle 2) t \<and>
     threads t 1 = Answered (Inl (FileValidationError ''PIXEL_BOMB'')) \<and> max_image_pixels t = 10) \<and>
   (\<exists>im. validate demo_lib demo_validation 2 = (Inr im, 2))"
proof -
  have pre: "precheck demo_validation = Inr ()" by code_simp
  have "decode_under demo_lib demo_validation 2 = Inl (FileValidationError ''PIXEL_BOMB'')"
    "isl (decode_under demo_lib demo_validation 10) = False"
    "isl (postcheck demo_validation (decode_under demo_lib demo_validation 10)) = False"
    by code_simp+
  then have post: "postcheck demo_validation (decode_under demo_lib demo_validation 2) = Inl (FileValidationError ''PIXEL_BOMB'')"
    "\<exists>im. postcheck demo_validation (decode_under demo_lib demo_validation 10) = Inr im"
    by (simp_all add: postcheck_def isl_def) (metis sumE)
  have ten: "val_max_pixels demo_validation = 10" by (simp add: demo_validation_def)
  note both = concurrent_validations_interfere [of "\<lambda>_. demo_validation" 2 demo_lib, OF pre pre, unfolded ten post(1)]
  from both obtain s t where "(validator_step demo_lib (\<lambda>_. demo_validation))\<^sup>*\<^sup>* (idle 2) s"
    "(validator_step demo_lib (\<lambda>_. demo_validation))\<^sup>*\<^sup>* s t"
    "threads t 1 = Answered (Inl (FileValidationError ''PIXEL_BOMB''))" "max_image_pixels t = 10" by auto
  moreover have "\<exists>im. validate demo_lib demo_validation 2 = (Inr im, 2)" using both post(2) by auto
  ultimately show ?thesis using rtranclp_trans by metis
qed

text \<open>Validations never wait for each other: \<open>N\<close> of them make at most \<open>4 * N\<close> steps.\<close>

fun accesses :: "vpc \<Rightarrow> nat" where
  "accesses Waiting = 4"
| "accesses (Saved v) = 3"
| "accesses (Decoding v) = 2"
| "accesses (Decoded v r) = 1"
| "accesses (Answered r) = 0"

lemma validator_step_moves:
  "validator_step L calls s t \<Longrightarrow> \<exists>i p. threads t = (threads s)(i := p) \<and> accesses p < accesses (threads s i)"
  unfolding validator_step_iff by fastforce

lemma validator_can_step:
  assumes "accesses (threads s i) \<noteq> 0"
  shows "\<exists>t. validator_step L calls s t"
proof (cases "threads s i")
  case Waiting
  then show ?thesis
    using validator_step.save [of s i calls] validator_step.refuse [of s i calls]
    by (cases "precheck (calls i)") auto
next
  case (Saved v)
  then show ?thesis using validator_step.set_limit by blast
next
  case (Decoding v)
  then show ?thesis using validator_step.decode by blast
next
  case (Decoded v r)
  then show ?thesis using validator_step.restore by blast
qed (use assms in simp)

interpretation validating: threads "validator_step L calls" threads accesses for L calls
  by unfold_locales (rule validator_step_moves validator_can_step; assumption)+

lemma validations_terminate:
  assumes "(validator_step L calls ^^ k) \<lparr>max_image_pixels = m, threads = first_threads N Waiting (Answered a)\<rparr> s"
  shows "k \<le> 4 * N \<and> ((\<nexists>t. validator_step L calls s t) \<longleftrightarrow> (\<forall>i < N. accesses (threads s i) = 0))"
  using validating.terminates [OF assms, of N Waiting "Answered a"] by simp

end
