(* ===== verification/JobsApi.thy ===== *)
theory JobsApi
  imports AuthApi Validators
begin

text \<open>
  The jobs API, \<^verbatim>\<open>app/api/v1/jobs.py\<close>: embedding, extraction and verification over
  HTTP, and the job records with their ownership checks. A multipart upload is its file name and
  its bytes; the passphrase and payload fields are Unicode texts.
\<close>

record upload =
  filename :: "pystr option"
  file_bytes :: bytes

record file_response =
  content :: bytes
  x_job_id :: "string option"
  x_processing_time_ms :: "int option"

record job_summary =
  js_job_id :: string
  js_job_type :: string
  js_status :: string
  js_payload_size_bytes :: "int option"
  js_output_size_bytes :: "int option"
  js_algorithm_version :: "int option"
  js_created_at :: datetime
  js_expires_at :: "datetime option"

definition BAD_UPLOAD :: exn where
  "BAD_UPLOAD = HTTPException 400 ''The uploaded file could not be processed.''"

definition TOO_LARGE :: exn where
  "TOO_LARGE = HTTPException 413 ''Payload exceeds image capacity.''"

definition EXTRACTION_FAILED :: exn where
  "EXTRACTION_FAILED = HTTPException 422
     ''Payload extraction failed: the embedded content could not be authenticated.''"

definition load_png :: "lib \<Rightarrow> settings \<Rightarrow> upload \<Rightarrow> (world, image \<times> bytes) py" where
  "load_png L cfg upload =
     (let raw = file_bytes upload in
      if max_upload_bytes cfg < int (length raw)
      then thenM (increment INVALID_UPLOAD 1) (raise BAD_UPLOAD)
      else
        bindM (catchM
          (on_limit (validate_png L (max_upload_bytes cfg) (max_image_dimension cfg)
             (max_decoded_pixels cfg) raw))
          (\<lambda>e. case e of
                 FileValidationError c \<Rightarrow> thenM (increment INVALID_UPLOAD 1) (raise BAD_UPLOAD)
               | _ \<Rightarrow> raise e)) (\<lambda>im. ret (im, raw)))"

text \<open>The columns a new job has when the code does not set them.\<close>

definition new_job :: "uuid \<Rightarrow> string \<Rightarrow> string \<Rightarrow> uuid \<Rightarrow> instant \<Rightarrow> job" where
  "new_job user_id job_type status i created =
     \<lparr>j_id = i, j_user_id = user_id, j_type = job_type, j_status = status,
      j_source_filename_hash = None, j_input_size = None, j_output_size = None,
      j_payload_size = None, j_capacity_utilization = None, j_algorithm_version = None,
      j_artifact_storage_key = None, j_artifact_checksum = None, j_processing_time_ms = None,
      j_created_at = created, j_expires_at = None, j_deleted_at = None, j_failure_category = None\<rparr>"

text \<open>\<^verbatim>\<open>int((b - a) * 1000)\<close> of two counter readings in nanoseconds, truncated.\<close>

definition elapsed_ms :: "int \<Rightarrow> int \<Rightarrow> int" where
  "elapsed_ms a b = (if a \<le> b then (b - a) div 1000000 else - ((a - b) div 1000000))"

definition embed_job :: "lib \<Rightarrow> settings \<Rightarrow> upload \<Rightarrow> pystr \<Rightarrow> pystr \<Rightarrow> user \<Rightarrow> (world, file_response) py" where
  "embed_job L cfg upload passphrase payload u =
     bindM (load_png L cfg upload) (\<lambda>(img, raw).
     bindM (liftR (utf8_encode payload)) (\<lambda>payload_bytes.
     if cfg_max_payload_bytes cfg < int (length payload_bytes) then raise BAD_UPLOAD
     else
       bindM perf_counter (\<lambda>start.
       bindM (catchM (on_entropy (embed_payload L img payload_bytes passphrase))
                (\<lambda>e. case e of CapacityError m \<Rightarrow> raise TOO_LARGE | _ \<Rightarrow> raise e)) (\<lambda>stego.
       bindM perf_counter (\<lambda>stop.
       bindM (liftR (utf8_encode (case filename upload of Some f \<Rightarrow> f | None \<Rightarrow> []))) (\<lambda>name.
       bindM (insert_job (\<lambda>i created.
         (new_job (u_id u) JOB_EMBED JOB_SUCCEEDED i created)
         \<lparr>j_source_filename_hash := Some (hexdigest (sha256 L name)),
          j_input_size := Some (int (length raw)),
          j_output_size := Some (int (length stego)),
          j_payload_size := Some (int (length payload_bytes)),
          j_capacity_utilization :=
            Some (100 * int (length payload_bytes) div max (max_payload_bytes img) 1),
          j_algorithm_version := Some 1,
          j_artifact_checksum := Some (hexdigest (sha256 L stego)),
          j_processing_time_ms := Some (elapsed_ms start stop)\<rparr>)) (\<lambda>job.
       thenM commit
      (thenM (increment EMBED_JOB 1)
       (ret \<lparr>content = stego, x_job_id = Some (str_uuid (j_id job)),
             x_processing_time_ms = Some (elapsed_ms start stop)\<rparr>)))))))))"

definition extract_job :: "lib \<Rightarrow> settings \<Rightarrow> upload \<Rightarrow> pystr \<Rightarrow> user \<Rightarrow> (world, file_response) py" where
  "extract_job L cfg upload passphrase u =
     bindM (load_png L cfg upload) (\<lambda>(img, raw).
     bindM (catchM (liftR (extract_payload L img passphrase))
              (\<lambda>e. case e of
                     ExtractionError m \<Rightarrow>
                       thenM (increment CRYPTO_AUTH_FAILURE 1) (raise EXTRACTION_FAILED)
                   | _ \<Rightarrow> raise e)) (\<lambda>payload.
     bindM (insert_job (\<lambda>i created.
       (new_job (u_id u) JOB_EXTRACT JOB_SUCCEEDED i created)
       \<lparr>j_payload_size := Some (int (length payload)), j_algorithm_version := Some 1\<rparr>)) (\<lambda>_.
     thenM commit
    (thenM (increment EXTRACT_JOB 1)
     (ret \<lparr>content = payload, x_job_id = None, x_processing_time_ms = None\<rparr>)))))"

definition verify_job :: "lib \<Rightarrow> settings \<Rightarrow> upload \<Rightarrow> user \<Rightarrow> (world, verify_result) py" where
  "verify_job L cfg upload u =
     bindM (load_png L cfg upload) (\<lambda>(img, raw).
     bindM (liftR (verify L img)) (\<lambda>r.
     bindM (insert_job (new_job (u_id u) JOB_VERIFY JOB_SUCCEEDED)) (\<lambda>_.
     thenM commit
    (thenM (increment VERIFY_JOB 1) (ret r)))))"

definition summary :: "settings \<Rightarrow> job \<Rightarrow> job_summary" where
  "summary cfg j =
     \<lparr>js_job_id = str_uuid (j_id j), js_job_type = j_type j, js_status = j_status j,
      js_payload_size_bytes = j_payload_size j, js_output_size_bytes = j_output_size j,
      js_algorithm_version = j_algorithm_version j, js_created_at = col_dt cfg (j_created_at j),
      js_expires_at = map_option (col_dt cfg) (j_expires_at j)\<rparr>"

definition list_jobs :: "settings \<Rightarrow> user \<Rightarrow> (world, job_summary list) py" where
  "list_jobs cfg u =
     bindM (gets (\<lambda>w. filter (\<lambda>j. j_user_id j = u_id u \<and> j_deleted_at j = None) (t_jobs (db w))))
       (\<lambda>rows. ret (map (summary cfg) rows))"

definition owned_job_or_404 :: "string \<Rightarrow> user \<Rightarrow> (world, job) py" where
  "owned_job_or_404 job_id u =
     bindM (liftR (catchR (parse_uuid job_id) (\<lambda>e. if is_value_error e then Inl NOT_FOUND else Inl e)))
       (\<lambda>jid.
     bindM (get_job_row jid) (\<lambda>found.
     case found of
       None \<Rightarrow> thenM (increment AUTHORIZATION_DENIAL 1) (raise NOT_FOUND)
     | Some j \<Rightarrow>
         if j_user_id j \<noteq> u_id u \<or> j_deleted_at j \<noteq> None
         then thenM (increment AUTHORIZATION_DENIAL 1) (raise NOT_FOUND)
         else ret j))"

definition get_job :: "settings \<Rightarrow> string \<Rightarrow> user \<Rightarrow> (world, job_summary) py" where
  "get_job cfg job_id u = bindM (owned_job_or_404 job_id u) (\<lambda>j. ret (summary cfg j))"

definition delete_job :: "string \<Rightarrow> user \<Rightarrow> (world, unit) py" where
  "delete_job job_id u =
     bindM (owned_job_or_404 job_id u) (\<lambda>j.
     bindM now (\<lambda>n.
     thenM (update_job (j_id j) (\<lambda>r. r\<lparr>j_deleted_at := Some n\<rparr>)) commit))"

section \<open>Routes\<close>

definition post_embed ::
  "lib \<Rightarrow> settings \<Rightarrow> string option \<Rightarrow> upload \<Rightarrow> pystr \<Rightarrow> pystr \<Rightarrow> (world, file_response) py" where
  "post_embed L cfg a upload passphrase payload =
     with_db (bindM (get_current_user L cfg a) (embed_job L cfg upload passphrase payload))"

definition post_extract ::
  "lib \<Rightarrow> settings \<Rightarrow> string option \<Rightarrow> upload \<Rightarrow> pystr \<Rightarrow> (world, file_response) py" where
  "post_extract L cfg a upload passphrase =
     with_db (bindM (get_current_user L cfg a) (extract_job L cfg upload passphrase))"

definition post_verify :: "lib \<Rightarrow> settings \<Rightarrow> string option \<Rightarrow> upload \<Rightarrow> (world, verify_result) py" where
  "post_verify L cfg a upload =
     with_db (bindM (get_current_user L cfg a) (verify_job L cfg upload))"

definition get_jobs :: "lib \<Rightarrow> settings \<Rightarrow> string option \<Rightarrow> (world, job_summary list) py" where
  "get_jobs L cfg a = with_db (bindM (get_current_user L cfg a) (list_jobs cfg))"

definition get_one_job :: "lib \<Rightarrow> settings \<Rightarrow> string option \<Rightarrow> string \<Rightarrow> (world, job_summary) py" where
  "get_one_job L cfg a job_id =
     with_db (bindM (get_current_user L cfg a) (get_job cfg job_id))"

definition del_job :: "lib \<Rightarrow> settings \<Rightarrow> string option \<Rightarrow> string \<Rightarrow> (world, unit) py" where
  "del_job L cfg a job_id =
     with_db (bindM (get_current_user L cfg a) (delete_job job_id))"

end
