(* ===== verification/AdminApi.thy ===== *)
theory AdminApi
  imports JobsApi
begin

text \<open>
  The administrator API (\<^verbatim>\<open>app/api/v1/admin.py\<close>) and the application's own routes and
  request-ID middleware (\<^verbatim>\<open>app/main.py\<close>).
\<close>

record user_entry =
  ue_id :: string
  ue_email :: string
  ue_role :: string
  ue_status :: string

record job_entry =
  je_job_id :: string
  je_user_id :: string
  je_job_type :: string
  je_status :: string
  je_created_at :: datetime

definition INVALID_STATUS :: exn where
  "INVALID_STATUS = HTTPException 400 ''Invalid status''"

definition list_users :: "(world, user_entry list) py" where
  "list_users =
     bindM (gets (\<lambda>w. t_users (db w))) (\<lambda>rows.
     ret (map (\<lambda>u. \<lparr>ue_id = str_uuid (u_id u), ue_email = u_email u, ue_role = u_role u,
                     ue_status = u_status u\<rparr>) rows))"

definition set_status :: "string \<Rightarrow> string \<Rightarrow> (world, string \<times> string) py" where
  "set_status user_id new_status =
     (if new_status \<noteq> STATUS_ACTIVE \<and> new_status \<noteq> STATUS_DISABLED then raise INVALID_STATUS
      else
        bindM (liftR (catchR (parse_uuid user_id) (\<lambda>e. if is_value_error e then Inl NOT_FOUND else Inl e)))
          (\<lambda>uid.
        bindM (get_user uid) (\<lambda>found.
        case found of
          None \<Rightarrow> raise NOT_FOUND
        | Some target \<Rightarrow>
            thenM (update_user (u_id target) (\<lambda>r. r\<lparr>u_status := new_status\<rparr>))
           (thenM commit
           (ret (str_uuid (u_id target), new_status))))))"

definition list_all_jobs :: "settings \<Rightarrow> (world, job_entry list) py" where
  "list_all_jobs cfg =
     bindM (gets (\<lambda>w. t_jobs (db w))) (\<lambda>rows.
     ret (map (\<lambda>j. \<lparr>je_job_id = str_uuid (j_id j), je_user_id = str_uuid (j_user_id j),
                     je_job_type = j_type j, je_status = j_status j,
                     je_created_at = col_dt cfg (j_created_at j)\<rparr>) rows))"

section \<open>Routes\<close>

definition get_users :: "lib \<Rightarrow> settings \<Rightarrow> string option \<Rightarrow> (world, user_entry list) py" where
  "get_users L cfg a = with_db (bindM (require_admin_user L cfg a) (\<lambda>_. list_users))"

definition patch_status ::
  "lib \<Rightarrow> settings \<Rightarrow> string option \<Rightarrow> string \<Rightarrow> string \<Rightarrow> (world, string \<times> string) py" where
  "patch_status L cfg a user_id new_status =
     with_db (bindM (require_admin_user L cfg a) (\<lambda>_. set_status user_id new_status))"

definition get_all_jobs :: "lib \<Rightarrow> settings \<Rightarrow> string option \<Rightarrow> (world, job_entry list) py" where
  "get_all_jobs L cfg a = with_db (bindM (require_admin_user L cfg a) (\<lambda>_. list_all_jobs cfg))"

definition get_metrics ::
  "lib \<Rightarrow> settings \<Rightarrow> string option \<Rightarrow> (world, string \<Rightarrow> int option) py" where
  "get_metrics L cfg a = with_db (bindM (require_admin_user L cfg a) (\<lambda>_. snapshot))"

definition health_live :: "(world, string) py" where "health_live = ret ''live''"

definition health_ready :: "(world, string) py" where "health_ready = ret ''ready''"

text \<open>
  The middleware: the request's ID is the header's if that is not empty, a fresh UUID otherwise,
  and every response that is produced carries it.
\<close>

definition request_id_middleware ::
  "string option \<Rightarrow> (world, 'a) py \<Rightarrow> (world, 'a \<times> string) py" where
  "request_id_middleware header call_next =
     bindM (case header of
              Some h \<Rightarrow> if h = [] then bindM uuid4 (\<lambda>i. ret (str_uuid i)) else ret h
            | None \<Rightarrow> bindM uuid4 (\<lambda>i. ret (str_uuid i))) (\<lambda>req_id.
     bindM call_next (\<lambda>response. ret (response, req_id)))"

end
