(* ===== verification/System.thy ===== *)
theory System
  imports AdminApi
begin

text \<open>
  The whole service: one constructor per route, \<open>serve\<close> as the dispatcher, and the states that
  sequences of requests reach. The locales \<open>owner_order\<close> and \<open>app_order\<close> list the storage
  changes the handlers make; a relation on tables that admits them holds between the committed
  tables before and after any request. Every invariant below is one interpretation of them.
\<close>

section \<open>Routes and dispatch\<close>

type_synonym auth = "string option"

datatype call =
    Register body
  | Login body request
  | Refresh body
  | Logout body
  | Me auth
  | DeleteMe auth
  | ListSessions auth
  | RevokeSession auth string
  | Embed auth upload pystr pystr
  | Extract auth upload pystr
  | Verify auth upload
  | ListJobs auth
  | GetJob auth string
  | DeleteJob auth string
  | ListUsers auth
  | SetStatus auth string string
  | ListAllJobs auth
  | GetMetrics auth
  | HealthLive
  | HealthReady

datatype answer =
    Status string
  | Tokens_answer token_response
  | No_content
  | Me_answer me_response
  | Session_list "session_info list"
  | File_answer file_response
  | Verify_answer verify_result
  | Job_list "job_summary list"
  | Job_answer job_summary
  | User_list "user_entry list"
  | Status_change "string \<times> string"
  | All_jobs "job_entry list"
  | Metrics_answer "string \<Rightarrow> int option"

definition answer_with :: "('a \<Rightarrow> answer) \<Rightarrow> (world, 'a) py \<Rightarrow> (world, answer) py" where
  "answer_with f m = bindM m (\<lambda>x. ret (f x))"

fun serve :: "lib \<Rightarrow> settings \<Rightarrow> call \<Rightarrow> (world, answer) py" where
  "serve L cfg (Register b) = answer_with Status (post_register L cfg b)"
| "serve L cfg (Login b r) = answer_with Tokens_answer (post_login L cfg b r)"
| "serve L cfg (Refresh b) = answer_with Tokens_answer (post_refresh L cfg b)"
| "serve L cfg (Logout b) = answer_with (\<lambda>_. No_content) (post_logout L b)"
| "serve L cfg (Me a) = answer_with Me_answer (get_me L cfg a)"
| "serve L cfg (DeleteMe a) = answer_with (\<lambda>_. No_content) (del_me L cfg a)"
| "serve L cfg (ListSessions a) = answer_with Session_list (get_sessions L cfg a)"
| "serve L cfg (RevokeSession a i) = answer_with (\<lambda>_. No_content) (del_session L cfg a i)"
| "serve L cfg (Embed a f p d) = answer_with File_answer (post_embed L cfg a f p d)"
| "serve L cfg (Extract a f p) = answer_with File_answer (post_extract L cfg a f p)"
| "serve L cfg (Verify a f) = answer_with Verify_answer (post_verify L cfg a f)"
| "serve L cfg (ListJobs a) = answer_with Job_list (get_jobs L cfg a)"
| "serve L cfg (GetJob a i) = answer_with Job_answer (get_one_job L cfg a i)"
| "serve L cfg (DeleteJob a i) = answer_with (\<lambda>_. No_content) (del_job L cfg a i)"
| "serve L cfg (ListUsers a) = answer_with User_list (get_users L cfg a)"
| "serve L cfg (SetStatus a i s) = answer_with Status_change (patch_status L cfg a i s)"
| "serve L cfg (ListAllJobs a) = answer_with All_jobs (get_all_jobs L cfg a)"
| "serve L cfg (GetMetrics a) = answer_with Metrics_answer (get_metrics L cfg a)"
| "serve L cfg HealthLive = answer_with Status health_live"
| "serve L cfg HealthReady = answer_with Status health_ready"

lemma answer_with_state [simp]: "snd (answer_with f m w) = snd (m w)"
  by (simp add: answer_with_def bindM_def split: prod.split sum.split)

text \<open>What a request leaves committed.\<close>

definition after :: "lib \<Rightarrow> settings \<Rightarrow> call \<Rightarrow> world \<Rightarrow> tables" where
  "after L cfg c w = disk (snd (serve L cfg c w))"

section \<open>Rules that know the row a handler loaded\<close>

text \<open>\<open>safe_at D w m\<close>: \<open>safe\<close> from the one state \<open>w\<close>.\<close>

definition safe_at :: "(tables \<Rightarrow> tables \<Rightarrow> bool) \<Rightarrow> world \<Rightarrow> (world, 'a) py \<Rightarrow> bool" where
  "safe_at D w m \<longleftrightarrow>
     (\<forall>base. D base (db w) \<and> D base (disk w) \<longrightarrow>
        D base (db (snd (m w))) \<and> D base (disk (snd (m w))))"

lemma safe_iff_at: "safe D m \<longleftrightarrow> (\<forall>w. safe_at D w m)"
  by (auto simp: safe_def safe_at_def keeps_def)

lemma safe_at_then: "safe_at D w m \<Longrightarrow> safe D k \<Longrightarrow> safe_at D w (thenM m k)"
  unfolding safe_at_def safe_def keeps_def thenM_apply
  by (cases "m w"; cases "fst (m w)") auto

lemma safe_gets: "(\<And>w. safe_at D w (f (g w))) \<Longrightarrow> safe D (bindM (gets g) f)"
  by (simp add: safe_iff_at safe_at_def bindM_def)

lemma safe_at_safe: "safe D m \<Longrightarrow> safe_at D w m"
  by (simp add: safe_iff_at)

lemma row_get_in: "row_get key k rows = Some r \<Longrightarrow> r \<in> set rows \<and> key r = k"
  by (auto simp: row_get_def find_Some_iff)

text \<open>\<open>safe_with Q D m\<close>: \<open>safe\<close> from states whose session view satisfies \<open>Q\<close>, which \<open>m\<close> keeps.\<close>

definition safe_with :: "(tables \<Rightarrow> bool) \<Rightarrow> (tables \<Rightarrow> tables \<Rightarrow> bool) \<Rightarrow> (world, 'a) py \<Rightarrow> bool" where
  "safe_with Q D m \<longleftrightarrow> (\<forall>base. keeps (\<lambda>w. D base (db w) \<and> D base (disk w) \<and> Q (db w)) m)"

named_theorems with_rules \<open>structural rules for safe_with\<close>

lemma safe_with_at: "safe_with Q D m \<Longrightarrow> Q (db w) \<Longrightarrow> safe_at D w m"
  by (simp add: safe_with_def safe_at_def keeps_def)

lemma with_bind [with_rules]:
  "safe_with Q D m \<Longrightarrow> (\<And>x. safe_with Q D (f x)) \<Longrightarrow> safe_with Q D (bindM m f)"
  unfolding safe_with_def by (blast intro: keeps_bind)

lemma with_then [with_rules]: "safe_with Q D m \<Longrightarrow> safe_with Q D k \<Longrightarrow> safe_with Q D (thenM m k)"
  unfolding thenM_def by (rule with_bind)

lemma with_if [with_rules]:
  "safe_with Q D m \<Longrightarrow> safe_with Q D n \<Longrightarrow> safe_with Q D (if b then m else n)"
  by simp

lemma with_let [with_rules]: "safe_with Q D (l z) \<Longrightarrow> safe_with Q D (Let z l)"
  by simp

lemma with_pair [with_rules]:
  "(\<And>a b. safe_with Q D (p a b)) \<Longrightarrow> safe_with Q D (case q of (a, b) \<Rightarrow> p a b)"
  by (cases q) simp

lemma with_commit [with_rules]: "safe_with Q D commit"
  by (simp add: safe_with_def keeps_def commit_def)

lemma with_catch [with_rules]:
  "safe_with Q D m \<Longrightarrow> (\<And>e. safe_with Q D (h e)) \<Longrightarrow> safe_with Q D (catchM m h)"
  unfolding safe_with_def by (blast intro: keeps_catch)

lemma readonly_with: "readonly m \<Longrightarrow> safe_with Q D m"
  by (simp add: safe_with_def keeps_def readonlyD)

lemma safe_both: "safe D m \<Longrightarrow> keeps (\<lambda>w. Q (db w)) m \<Longrightarrow> safe_with Q D m"
  by (simp add: safe_def safe_with_def keeps_def)

lemmas with_prims [with_rules] = readonly_prims [THEN readonly_with]
  readonly_queries [THEN readonly_with] readonly_uuid4 [THEN readonly_with]
  readonly_create_token [THEN readonly_with]

definition has_user :: "uuid \<Rightarrow> tables \<Rightarrow> bool" where
  "has_user i t \<longleftrightarrow> i \<in> u_id ` set (t_users t)"

lemma has_user_updates [simp]:
  "has_user i (t\<lparr>t_sessions := ss\<rparr>) = has_user i t" "has_user i (t\<lparr>t_jobs := js\<rparr>) = has_user i t"
  by (simp_all add: has_user_def)

lemma modify_row_keys:
  "(\<And>r. key (f r) = key r) \<Longrightarrow> map key (modify_row key i f rows) = map key rows"
  by (auto simp: modify_row_def row_update_key split: option.split)

lemma keeps_has_user: "(\<And>r. u_id (f r) = u_id r) \<Longrightarrow> keeps (\<lambda>w. has_user i (db w)) (update_user k f)"
  by (simp add: keeps_def update_user_def py_simps get_user_def now_def has_user_def
      modify_row_keys flip: set_map)

text \<open>\<open>gives P m\<close>: what holds whenever \<open>m\<close> returns.\<close>

definition gives :: "('a \<Rightarrow> world \<Rightarrow> bool) \<Rightarrow> (world, 'a) py \<Rightarrow> bool" where
  "gives P m \<longleftrightarrow> (\<forall>w x w'. m w = (Inr x, w') \<longrightarrow> P x w')"

lemma gives_bind: "(\<And>x. gives P (f x)) \<Longrightarrow> gives P (bindM m f)"
  by (auto simp: gives_def bindM_def split: prod.splits sum.splits)

lemma gives_cases:
  "gives P m \<Longrightarrow> gives P n \<Longrightarrow> gives P (if b then m else n)"
  "gives P (raise e)" "gives P (l z) \<Longrightarrow> gives P (Let z l)"
  by (simp_all add: gives_def)

text \<open>A bind whose first step is known to give only values that satisfy \<open>P\<close>.\<close>

lemma safe_bind_gives:
  assumes "safe D m" "gives (\<lambda>x _. P x) m" "\<And>x. P x \<Longrightarrow> safe D (f x)"
  shows "safe D (bindM m f)"
  unfolding safe_def keeps_def
proof (intro allI impI)
  fix base and w :: world assume pre: "D base (db w) \<and> D base (disk w)"
  show "D base (db (snd (bindM m f w))) \<and> D base (disk (snd (bindM m f w)))"
  proof (cases "m w")
    case (Pair r w')
    have "D base (db w') \<and> D base (disk w')"
      using assms(1) pre Pair unfolding safe_def keeps_def by (metis snd_conv)
    moreover have "P x" if "r = Inr x" for x
      using assms(2) Pair that by (auto simp: gives_def)
    ultimately show ?thesis using assms(3) Pair
      by (cases r) (auto simp: bindM_def safe_def keeps_def)
  qed
qed

lemma with_bind_gives:
  assumes "safe_with Q D m" "gives (\<lambda>x _. P x) m" "\<And>x. P x \<Longrightarrow> safe_with Q D (f x)"
  shows "safe_with Q D (bindM m f)"
  unfolding safe_with_def keeps_def
proof (intro allI impI)
  fix base and w :: world assume pre: "D base (db w) \<and> D base (disk w) \<and> Q (db w)"
  show "D base (db (snd (bindM m f w))) \<and> D base (disk (snd (bindM m f w))) \<and> Q (db (snd (bindM m f w)))"
  proof (cases "m w")
    case (Pair r w')
    have "D base (db w') \<and> D base (disk w') \<and> Q (db w')"
      using assms(1) pre Pair unfolding safe_with_def keeps_def by (metis snd_conv)
    moreover have "P x" if "r = Inr x" for x
      using assms(2) Pair that by (auto simp: gives_def)
    ultimately show ?thesis using assms(3) Pair
      by (cases r) (auto simp: bindM_def safe_with_def keeps_def)
  qed
qed

lemma gives_liftR: "(\<And>x. r = Inr x \<Longrightarrow> P x) \<Longrightarrow> gives (\<lambda>x _. P x) (liftR r)"
  by (auto simp: gives_def py_simps)

lemma gives_hash_password: "columns_spec L \<Longrightarrow> gives (\<lambda>h _. length h \<le> 255) (hash_password L pw)"
  by (auto simp: gives_def hash_password_def py_simps on_entropy_def urandom_def columns_spec_def)

lemma length_hash_token: "columns_spec L \<Longrightarrow> hash_token L raw = Inr h \<Longrightarrow> length h = 64"
  by (auto simp: hash_token_def bindR_Inr_iff length_hexdigest)

lemma length_ip_hash: "columns_spec L \<Longrightarrow> ip_hash L cfg req = Inr h \<Longrightarrow> length h = 64"
  by (auto simp: ip_hash_def Let_def bindR_Inr_iff length_hexdigest)

lemma within_ua: "within 256 (ua req)"
  by (simp add: ua_def split: option.split)

lemma parsed_email: "parse_register cfg b = Inr r \<Longrightarrow> length (reg_email r) \<le> 320"
  by (auto simp: parse_register_def bindR_Inr_iff valid_email_def Let_def split: if_splits)

lemma current_user_known: "gives (\<lambda>u w. has_user (u_id u) (db w)) (get_current_user L cfg a)"
proof -
  have "gives (\<lambda>u w. has_user (u_id u) (db w)) (bindM (get_user i) (\<lambda>found. case found of
      None \<Rightarrow> raise UNAUTHORIZED
    | Some u \<Rightarrow> if u_status u \<noteq> STATUS_ACTIVE then raise UNAUTHORIZED else ret u))" for i
    using row_get_in [of u_id]
    by (auto simp: gives_def bindM_def get_user_def has_user_def split: option.splits if_splits)
  then show ?thesis unfolding get_current_user_def
    by (cases a) (simp_all add: gives_cases gives_bind Let_def)
qed

lemma safe_authenticated:
  assumes "\<And>u w. has_user (u_id u) (db w) \<Longrightarrow> safe_at D w (f u)"
  shows "safe D (bindM (get_current_user L cfg a) f)"
  unfolding safe_iff_at
proof
  fix w
  show "safe_at D w (bindM (get_current_user L cfg a) f)"
  proof (cases "get_current_user L cfg a w")
    case (Pair r w')
    have same: "db w' = db w" "disk w' = disk w"
      using readonlyD [OF readonly_current_user, of L cfg a w] Pair by simp_all
    show ?thesis
    proof (cases r)
      case (Inr u)
      then have "has_user (u_id u) (db w')"
        using current_user_known Pair by (auto simp: gives_def)
      from assms [OF this] show ?thesis using Pair Inr same by (simp add: safe_at_def bindM_def)
    qed (use Pair same in \<open>simp add: safe_at_def bindM_def\<close>)
  qed
qed

section \<open>The changes a logged-in user makes\<close>

locale owner_order = table_order D for D :: "tables \<Rightarrow> tables \<Rightarrow> bool" +
  fixes own :: "uuid \<Rightarrow> bool" and limits :: bool
  assumes ins_job: "own (j_user_id j) \<Longrightarrow> has_user (j_user_id j) t \<Longrightarrow> limits \<longrightarrow> job_fits j \<Longrightarrow> row_insert j_id j_id j (t_jobs t) = Inr js \<Longrightarrow>
        D t (t\<lparr>t_jobs := js\<rparr>)"
    and del_job: "j \<in> set (t_jobs t) \<Longrightarrow> own (j_user_id j) \<Longrightarrow>
        D t (t\<lparr>t_jobs := modify_row j_id (j_id j) (\<lambda>r. r\<lparr>j_deleted_at := Some n\<rparr>) (t_jobs t)\<rparr>)"
    and revoke: "s \<in> set (t_sessions t) \<Longrightarrow> own (s_user_id s) \<Longrightarrow> live s \<Longrightarrow>
        D t (t\<lparr>t_sessions :=
          modify_row s_id (s_id s) (\<lambda>x. x\<lparr>s_revoked_at := Some n\<rparr>) (t_sessions t)\<rparr>)"
begin

lemma with_new_job:
  assumes "own i" "\<And>k c. j_user_id (mk k c) = i" "\<And>k c. limits \<longrightarrow> job_fits (mk k c)"
  shows "safe_with (has_user i) D (insert_job mk)"
proof -
  have "D t (t\<lparr>t_jobs := js\<rparr>)" if "has_user i t" "row_insert j_id j_id (mk k c) (t_jobs t) = Inr js" for t k c js
    using ins_job [OF _ _ _ that(2)] that(1) assms by simp
  then show ?thesis using trans
    by (auto simp: safe_with_def keeps_def insert_job_def py_simps uuid4_def on_entropy_def urandom_def
        now_def with_tables_def Let_def bindR_Inr_iff split: sum.split)
qed

lemma readonly_load_png: "readonly (load_png L cfg f)"
proof -
  have "readonly (case e of FileValidationError c \<Rightarrow> thenM (increment INVALID_UPLOAD 1) (raise BAD_UPLOAD)
      | _ \<Rightarrow> raise e)" for e :: exn
    by (cases e) (simp_all add: readonly_rules)
  then show ?thesis unfolding load_png_def by (intro readonly_rules) auto
qed

lemma with_embed:
  assumes u: "own (u_id u)" and L: "limits \<longrightarrow> columns_spec L"
  shows "safe_with (has_user (u_id u)) D (embed_job L cfg f p d u)"
proof -
  have "readonly (case e of CapacityError m \<Rightarrow> raise TOO_LARGE | _ \<Rightarrow> raise e)" for e :: exn
    by (cases e) (simp_all add: readonly_rules)
  then show ?thesis unfolding embed_job_def
    by (intro with_rules readonly_with [OF readonly_load_png] with_new_job [OF u])
      (use L in \<open>auto simp: new_job_def job_fits_def JOB_EMBED_def JOB_SUCCEEDED_def length_hexdigest
        intro: readonly_with readonly_rules\<close>)
qed

lemma with_extract: "own (u_id u) \<Longrightarrow> safe_with (has_user (u_id u)) D (extract_job L cfg f p u)"
proof -
  assume u: "own (u_id u)"
  have "readonly (case e of ExtractionError m \<Rightarrow>
      thenM (increment CRYPTO_AUTH_FAILURE 1) (raise EXTRACTION_FAILED) | _ \<Rightarrow> raise e)" for e :: exn
    by (cases e) (simp_all add: readonly_rules)
  then show ?thesis unfolding extract_job_def
    by (intro with_rules readonly_with [OF readonly_load_png] with_new_job [OF u])
      (auto simp: new_job_def job_fits_def JOB_EXTRACT_def JOB_SUCCEEDED_def intro: readonly_with readonly_rules)
qed

lemma with_verify: "own (u_id u) \<Longrightarrow> safe_with (has_user (u_id u)) D (verify_job L cfg f u)"
  unfolding verify_job_def
  by (intro with_rules readonly_with [OF readonly_load_png] with_new_job [of "u_id u"])
    (auto simp: new_job_def job_fits_def JOB_VERIFY_def JOB_SUCCEEDED_def)

lemma safe_at_revoke:
  assumes "s \<in> set (t_sessions (db w))" "own (s_user_id s)"
  shows "safe_at D w (revoke_session s)"
  using revoke [OF assms] trans
  by (auto simp: safe_at_def revoke_session_def py_simps now_def update_session_def live_def)

lemma safe_at_revoke_commit:
  "s \<in> set (t_sessions (db w)) \<Longrightarrow> own (s_user_id s) \<Longrightarrow>
     safe_at D w (thenM (revoke_session s) commit)"
  by (rule safe_at_then [OF safe_at_revoke safe_commit])

lemma safe_revoke_one: "own (u_id u) \<Longrightarrow> safe D (revoke_one i u)"
proof -
  assume u: "own (u_id u)"
  have "safe_at D w (case row_get s_id k (t_sessions (db w)) of
      None \<Rightarrow> thenM (increment AUTHORIZATION_DENIAL 1) (raise NOT_FOUND)
    | Some s \<Rightarrow> if s_user_id s \<noteq> u_id u then thenM (increment AUTHORIZATION_DENIAL 1) (raise NOT_FOUND)
                else thenM (revoke_session s) commit)" for w k
  proof (cases "row_get s_id k (t_sessions (db w))")
    case (Some s)
    then have "s \<in> set (t_sessions (db w))" using row_get_in by metis
    then show ?thesis using Some u safe_at_revoke_commit [of s w]
      by (auto intro!: safe_at_safe safe_rules)
  qed (simp add: safe_at_safe safe_rules)
  then show ?thesis unfolding revoke_one_def get_session_def
    by (intro safe_rules safe_gets) auto
qed

lemma safe_delete_job: "own (u_id u) \<Longrightarrow> safe D (delete_job i u)"
proof -
  assume u: "own (u_id u)"
  have j: "owned_job_or_404 i u w = (Inr j, w') \<Longrightarrow>
      j \<in> set (t_jobs (db w)) \<and> j_user_id j = u_id u \<and> w' = w" for j w w'
    using row_get_in [of j_id _ "t_jobs (db w)" j]
    by (auto simp: owned_job_or_404_def py_simps get_job_row_def increment_def
        split: sum.splits option.splits if_splits)
  have ro: "readonly (owned_job_or_404 i u)"
    unfolding owned_job_or_404_def by (intro readonly_rules)
  show ?thesis unfolding safe_iff_at
  proof
    fix w
    show "safe_at D w (delete_job i u)"
    proof (cases "owned_job_or_404 i u w")
      case (Pair r w')
      then show ?thesis
        using readonlyD [OF ro, of w] j [of w] del_job [of _ "db w"] u trans
        by (cases r) (auto simp: safe_at_def delete_job_def py_simps now_def update_job_def commit_def)
    qed
  qed
qed

end

section \<open>The changes any request makes\<close>

text \<open>
  \<open>deletes\<close> and \<open>logins\<close> tell whether the relation is required for the deletion of accounts
  and for the sessions that logins open, \<open>limits\<close> whether it may rely on the lengths of the columns.
\<close>

locale app_order = owner_order D "\<lambda>_. True" limits for D :: "tables \<Rightarrow> tables \<Rightarrow> bool" and limits :: bool +
  fixes deletes :: bool and logins :: bool
  assumes ins_user: "u_role u = ROLE_USER \<Longrightarrow> limits \<longrightarrow> user_fits u \<Longrightarrow> row_insert u_id u_email u (t_users t) = Inr us \<Longrightarrow>
        D t (t\<lparr>t_users := us\<rparr>)"
    and upd_user: "(\<And>r. u_id (f r) = u_id r \<and> u_email (f r) = u_email r \<and> u_role (f r) = u_role r) \<Longrightarrow>
        limits \<longrightarrow> (\<forall>r. user_fits r \<longrightarrow> user_fits (f r)) \<Longrightarrow> D t (t\<lparr>t_users := modify_row u_id i f (t_users t)\<rparr>)"
    and ins_session: "logins \<Longrightarrow> live s \<Longrightarrow> limits \<longrightarrow> session_fits s \<Longrightarrow> row_insert s_id s_hash s (t_sessions t) = Inr ss \<Longrightarrow>
        has_user (s_user_id s) t \<Longrightarrow> D t (t\<lparr>t_sessions := ss\<rparr>)"
    and rotate: "s \<in> set (t_sessions t) \<Longrightarrow> live s \<Longrightarrow> live new \<Longrightarrow> s_family new = s_family s \<Longrightarrow>
        s_user_id new = s_user_id s \<Longrightarrow> limits \<longrightarrow> session_fits s \<longrightarrow> session_fits new \<Longrightarrow>
        row_insert s_id s_hash new (t_sessions t) = Inr ss \<Longrightarrow>
        D t (t\<lparr>t_sessions := modify_row s_id (s_id s) (retire n (s_id new)) ss\<rparr>)"
    and burn: "D t (t\<lparr>t_sessions := fst (stamp clk (\<lambda>x. s_family x = fam) k (t_sessions t))\<rparr>)"
    and drop: "deletes \<Longrightarrow> D t (drop_user i t)"
begin

lemma safe_register:
  assumes "limits \<longrightarrow> columns_spec L \<and> length (reg_email b) \<le> 320"
  shows "safe D (register L b)"
proof -
  have "safe D (bindM (hash_password L p) (\<lambda>h. bindM (insert_user (mk h)) (\<lambda>_. thenM commit (ret x))))"
    if "\<And>h i c n. u_role (mk h i c n) = ROLE_USER \<and> (length h \<le> 255 \<longrightarrow> limits \<longrightarrow> user_fits (mk h i c n))"
    for p :: pystr and x :: string and mk
  proof (rule safe_bind_gives [where P = "\<lambda>h. limits \<longrightarrow> length h \<le> 255"])
    show "gives (\<lambda>h _. limits \<longrightarrow> length h \<le> 255) (hash_password L p)"
      using gives_hash_password [of L p] assms by (auto simp: gives_def)
  next
    fix h :: string assume "limits \<longrightarrow> length h \<le> 255"
    then show "safe D (bindM (insert_user (mk h)) (\<lambda>_. thenM commit (ret x)))"
      using that by (intro safe_rules safe_insert_user) (auto intro!: ins_user)
  qed (intro safe_rules)
  from this [of "\<lambda>h i c n. \<lparr>u_id = i, u_email = reg_email b, u_password_hash = h, u_role = ROLE_USER,
      u_status = STATUS_ACTIVE, u_mfa_enabled = False, u_mfa_secret_encrypted = None, u_created_at = c,
      u_updated_at = n, u_last_login_at = None, u_failed_login_count = 0, u_locked_until = None\<rparr>"]
  have new: "safe D (bindM (hash_password L (text_of (reg_password b))) (\<lambda>h.
      bindM (insert_user (\<lambda>i created updated.
         \<lparr>u_id = i, u_email = reg_email b, u_password_hash = h, u_role = ROLE_USER,
          u_status = STATUS_ACTIVE, u_mfa_enabled = False, u_mfa_secret_encrypted = None,
          u_created_at = created, u_updated_at = updated, u_last_login_at = None,
          u_failed_login_count = 0, u_locked_until = None\<rparr>)) (\<lambda>_. thenM commit (ret ''registered''))))"
    using assms by (simp add: user_fits_def) (simp add: ROLE_USER_def STATUS_ACTIVE_def)
  show ?thesis unfolding register_def
    by (rule safe_bind [OF _ safe_if [OF _ new]]) (intro safe_rules)+
qed

lemma safe_upd_user:
  assumes "\<And>r. u_id (f r) = u_id r \<and> u_email (f r) = u_email r \<and> u_role (f r) = u_role r"
    and "\<And>r. u_password_hash (f r) = u_password_hash r \<and>
      u_mfa_secret_encrypted (f r) = u_mfa_secret_encrypted r \<and>
      (length (u_status r) \<le> 16 \<longrightarrow> length (u_status (f r)) \<le> 16)"
  shows "safe D (update_user i f)"
  by (rule safe_update_user, rule upd_user) (use assms in \<open>auto simp: user_fits_def\<close>)

lemma safe_record_failure: "safe D (record_failure cfg u)"
  unfolding record_failure_def by (intro safe_rules safe_upd_user) simp_all

lemma safe_record_success: "safe D (record_success n u)"
  unfolding record_success_def by (intro safe_upd_user) simp_all

lemma safe_set_status: "safe D (set_status i s)"
proof (cases "s \<noteq> STATUS_ACTIVE \<and> s \<noteq> STATUS_DISABLED")
  case False
  then have "length s \<le> 16" by (auto simp: STATUS_ACTIVE_def STATUS_DISABLED_def)
  then show ?thesis unfolding set_status_def by (intro safe_rules safe_upd_user) simp_all
qed (simp add: set_status_def safe_rules)

lemma safe_rotate:
  assumes L: "limits \<longrightarrow> columns_spec L"
  shows "safe D (rotate_token L cfg raw)"
  unfolding safe_def keeps_def
proof (intro allI impI)
  fix base and w :: world assume pre: "D base (db w) \<and> D base (disk w)"
  obtain r w' where run: "rotate_token L cfg raw w = (r, w')" by (cases "rotate_token L cfg raw w")
  have "D (db w) (db w') \<and> disk w' = disk w"
  proof (cases r)
    case (Inl e)
    from rotate_token_Inl [OF run [unfolded Inl]] show ?thesis
      using refl burn by (auto simp: revoke_family_def revoke_where_run)
  next
    case (Inr i)
    then obtain h s ss where s: "row_get s_hash h (t_sessions (db w)) = Some s" "live s"
      and ins: "row_insert s_id s_hash (successor L cfg s w) (t_sessions (db w)) = Inr ss"
      and w': "w' = w\<lparr>db := (db w)\<lparr>t_sessions := modify_row s_id (s_id s)
               (retire (wall w (Suc (Suc (Suc (ticks w))))) (s_id (successor L cfg s w))) ss\<rparr>,
             ticks := Suc (Suc (Suc (Suc (ticks w)))),
             rnd := rnd w\<lparr>cursor := cursor (rnd w) + TOKEN_BYTES + 16\<rparr>\<rparr>"
      using run unfolding Inr rotate_token_Inr by blast
    have "s \<in> set (t_sessions (db w))" using row_get_in [OF s(1)] by simp
    moreover have "limits \<longrightarrow> session_fits s \<longrightarrow> session_fits (successor L cfg s w)"
      using L by (auto simp: session_fits_def successor_def token_digest_def length_hexdigest)
    ultimately show ?thesis using rotate [OF _ s(2) _ _ _ _ ins] by (simp add: w')
  qed
  then show "D base (db (snd (rotate_token L cfg raw w))) \<and> D base (disk (snd (rotate_token L cfg raw w)))"
    using pre trans run by auto
qed

lemma safe_refresh:
  assumes L: "limits \<longrightarrow> columns_spec L"
  shows "safe D (refresh L cfg t)"
proof -
  have "safe D (case e of ReplayDetected \<Rightarrow>
        thenM commit (thenM (increment REFRESH_REPLAY 1) (raise INVALID))
      | InvalidRefreshToken m \<Rightarrow> raise INVALID | _ \<Rightarrow> raise e)" for e :: exn
    by (cases e) (simp_all add: safe_rules)
  then show ?thesis unfolding refresh_def by (intro safe_rules safe_rotate [OF L]) auto
qed

lemma safe_logout: "safe D (logout L t)"
proof -
  have "safe_at D w (case row_get s_hash h (t_sessions (db w)) of None \<Rightarrow> skip
      | Some s \<Rightarrow> thenM (revoke_session s) commit)" for w h
  proof (cases "row_get s_hash h (t_sessions (db w))")
    case (Some s)
    then have "s \<in> set (t_sessions (db w))" using row_get_in by metis
    then show ?thesis using Some safe_at_revoke_commit [of s w] by simp
  qed (simp add: safe_at_safe safe_rules)
  then show ?thesis unfolding logout_def find_session_by_hash_def
    by (intro safe_rules safe_gets) auto
qed

lemma with_upd_user:
  assumes "\<And>r. u_id (f r) = u_id r \<and> u_email (f r) = u_email r \<and> u_role (f r) = u_role r"
    and "\<And>r. u_password_hash (f r) = u_password_hash r \<and>
      u_mfa_secret_encrypted (f r) = u_mfa_secret_encrypted r \<and>
      (length (u_status r) \<le> 16 \<longrightarrow> length (u_status (f r)) \<le> 16)"
  shows "safe_with (has_user i) D (update_user k f)"
  by (intro safe_both safe_upd_user keeps_has_user) (use assms in auto)

lemma with_insert_session:
  assumes logins and "\<And>k. live (mk k) \<and> s_user_id (mk k) = i" "\<And>k. limits \<longrightarrow> session_fits (mk k)"
  shows "safe_with (has_user i) D (insert_session mk)"
  unfolding safe_with_def keeps_def
proof (intro allI impI, elim conjE)
  fix base and w :: world assume pre: "D base (db w)" "D base (disk w)" "has_user i (db w)"
  let ?s = "mk (uuid4_of (window (rnd w) (cursor (rnd w)) 16))"
  show "D base (db (snd (insert_session mk w))) \<and> D base (disk (snd (insert_session mk w))) \<and>
      has_user i (db (snd (insert_session mk w)))"
  proof (cases "row_insert s_id s_hash ?s (t_sessions (db w))")
    case (Inr ss)
    have "D (db w) ((db w)\<lparr>t_sessions := ss\<rparr>)"
      using ins_session [OF assms(1) _ _ Inr] assms(2,3) pre(3) by simp
    then show ?thesis using Inr pre trans
      by (auto simp: insert_session_def py_simps uuid4_def on_entropy_def urandom_def with_tables_def
          has_user_def Let_def)
  qed (use pre in \<open>auto simp: insert_session_def py_simps uuid4_def on_entropy_def urandom_def with_tables_def
      Let_def\<close>)
qed

lemma with_issue_initial:
  assumes logins "limits \<longrightarrow> columns_spec L" "limits \<longrightarrow> within 256 a \<and> within 64 h"
    "safe_with (has_user i) D pending"
  shows "safe_with (has_user i) D (issue_initial L cfg pending i a h)"
  unfolding issue_initial_def
proof (rule with_bind, goal_cases)
  case 1
  show ?case unfolding new_raw_def by (intro with_rules)
next
  case (2 raw)
  show ?case
  proof (rule with_bind_gives [where P = "\<lambda>x. limits \<longrightarrow> length x = 64"], goal_cases)
    case 2
    show ?case by (rule gives_liftR) (use assms(2) length_hash_token in blast)
  next
    case (3 x)
    then show ?case using assms
      by (intro with_rules with_insert_session) (auto simp: live_def session_fits_def)
  qed (intro with_rules)
qed

lemma with_token_response:
  assumes logins "limits \<longrightarrow> columns_spec L"
  shows "safe_with (has_user (u_id u)) D (make_token_response L cfg (record_success n u) u req)"
  unfolding make_token_response_def case_prod_beta
proof (rule with_bind, goal_cases)
  case 1
  show ?case by (intro with_rules)
next
  case (2 a)
  have "safe_with (has_user (u_id u)) D (record_success n u)"
    unfolding record_success_def by (intro with_upd_user) simp_all
  then have "safe_with (has_user (u_id u)) D (issue_initial L cfg (record_success n u) (u_id u) (ua req) (Some h))"
    if "limits \<longrightarrow> length h = 64" for h
    using with_issue_initial assms within_ua that by simp
  moreover have "gives (\<lambda>h _. limits \<longrightarrow> length h = 64) (liftR (ip_hash L cfg req))"
    by (rule gives_liftR) (use assms(2) length_ip_hash in blast)
  ultimately show ?case
    by (intro with_bind_gives [where P = "\<lambda>h. limits \<longrightarrow> length h = 64" and m = "liftR (ip_hash L cfg req)"])
      (auto intro!: with_rules)
qed

lemma safe_login:
  assumes logins "limits \<longrightarrow> columns_spec L" shows "safe D (login L cfg b req)"
proof -
  have "safe_at D w (bindM (case found of None \<Rightarrow> ret False | Some u \<Rightarrow> is_locked cfg u) (\<lambda>locked.
     if locked then raise INVALID
     else
       bindM (case found of
                Some u \<Rightarrow> if u_status u = STATUS_ACTIVE
                  then liftR (verify_password L (u_password_hash u) (text_of (log_password b)))
                  else ret False
              | None \<Rightarrow> ret False) (\<lambda>ok.
       case found of
         None \<Rightarrow> thenM (increment LOGIN_FAILURE 1) (raise INVALID)
       | Some u \<Rightarrow>
           if \<not> ok
           then thenM (record_failure cfg u) (thenM commit
                  (thenM (increment LOGIN_FAILURE 1) (raise INVALID)))
           else bindM now (\<lambda>n. make_token_response L cfg (record_success n u) u req))))"
    if found: "found = row_get u_email (log_email b) (t_users (db w))" for w found
  proof (cases found)
    case None
    show ?thesis unfolding None option.case by (intro safe_at_safe safe_rules)
  next
    case (Some u)
    then have "has_user (u_id u) (db w)"
      using found row_get_in [of u_email _ _ u] by (auto simp: has_user_def)
    moreover have "safe_with (has_user (u_id u)) D (is_locked cfg u)"
      unfolding is_locked_def by (intro readonly_with readonly_rules)
    moreover have "safe_with (has_user (u_id u)) D (record_failure cfg u)"
      unfolding record_failure_def by (intro with_rules with_upd_user) simp_all
    ultimately show ?thesis unfolding Some option.case
      by (intro safe_with_at [where Q = "has_user (u_id u)"] with_rules with_token_response [OF assms])
  qed
  then show ?thesis unfolding login_def find_user_by_email_def
    by (intro safe_gets) simp
qed

lemma safe_delete_me: "deletes \<Longrightarrow> safe D (delete_me u)"
  unfolding delete_me_def by (intro safe_rules safe_delete_user) (rule drop)

lemma readonly_lists:
  "readonly (me cfg u)" "readonly (list_sessions cfg u)" "readonly (list_jobs cfg u)"
  "readonly (get_job cfg i u)" "readonly list_users" "readonly (list_all_jobs cfg)"
  unfolding me_def list_sessions_def list_jobs_def get_job_def owned_job_or_404_def list_users_def
    list_all_jobs_def
  by (intro readonly_rules)+

lemma serve_order:
  assumes "deletes \<or> (\<forall>a. c \<noteq> DeleteMe a)" "logins \<or> (\<forall>b r. c \<noteq> Login b r)"
    and L: "limits \<longrightarrow> columns_spec L"
  shows "D (disk w) (after L cfg c w)"
proof -
  note auth = safe_authenticated [THEN with_db_committed]
  have safe_parsed: "safe D (bindM (validated (parse_register cfg b)) (register L))" for b
  proof (rule safe_bind_gives [where P = "\<lambda>r. length (reg_email r) \<le> 320"])
    show "gives (\<lambda>r _. length (reg_email r) \<le> 320) (validated (parse_register cfg b))"
      unfolding validated_def by (rule gives_liftR) (auto simp: catchR_Inr_iff dest: parsed_email)
  qed (use L in \<open>simp_all add: safe_rules safe_register\<close>)
  note lists = readonly_lists [THEN readonly_safe, unfolded safe_iff_at, THEN spec]
  show ?thesis unfolding after_def
  proof (cases c)
    case (Register b)
    then show "D (disk w) (disk (snd (serve L cfg c w)))"
      by (simp add: post_register_def with_db_committed safe_parsed)
  next
    case (Login b r)
    then show "D (disk w) (disk (snd (serve L cfg c w)))"
      using assms by (simp add: post_login_def with_db_committed safe_rules safe_login)
  next
    case (Refresh b)
    then show "D (disk w) (disk (snd (serve L cfg c w)))"
      by (simp add: post_refresh_def with_db_committed safe_rules safe_refresh [OF L])
  next
    case (Logout b)
    then show "D (disk w) (disk (snd (serve L cfg c w)))"
      by (simp add: post_logout_def with_db_committed safe_rules safe_logout)
  next
    case (DeleteMe a)
    then show "D (disk w) (disk (snd (serve L cfg c w)))"
      using assms by (simp add: del_me_def with_db_committed safe_rules safe_delete_me)
  next
    case (RevokeSession a i)
    then show "D (disk w) (disk (snd (serve L cfg c w)))"
      by (simp add: del_session_def with_db_committed safe_rules safe_revoke_one)
  next
    case (Embed a f p d)
    then show "D (disk w) (disk (snd (serve L cfg c w)))"
      by (auto simp: post_embed_def intro!: auth safe_with_at [OF with_embed [OF _ L]])
  next
    case (Extract a f p)
    then show "D (disk w) (disk (snd (serve L cfg c w)))"
      by (auto simp: post_extract_def intro!: auth safe_with_at [OF with_extract])
  next
    case (Verify a f)
    then show "D (disk w) (disk (snd (serve L cfg c w)))"
      by (auto simp: post_verify_def intro!: auth safe_with_at [OF with_verify])
  next
    case (DeleteJob a i)
    then show "D (disk w) (disk (snd (serve L cfg c w)))"
      by (simp add: del_job_def with_db_committed safe_rules safe_delete_job)
  next
    case (SetStatus a i s)
    then show "D (disk w) (disk (snd (serve L cfg c w)))"
      by (simp add: patch_status_def with_db_committed safe_rules safe_set_status)
  qed (simp_all add: get_me_def get_sessions_def get_jobs_def get_one_job_def get_users_def
      get_all_jobs_def get_metrics_def health_live_def health_ready_def refl
      with_db_committed safe_rules readonly_lists readonly_safe)
qed

end

end
