(* ===== verification/Invariants.thy ===== *)
theory Invariants
  imports System
begin

text \<open>
  What every sequence of requests preserves: the tables stay consistent (unique keys, references
  to existing users), nobody becomes an administrator through the API, and a revoked session is
  never live again. Each is an interpretation of \<open>app_order\<close>; reachability is an inductive
  relation over requests.
\<close>

section \<open>Reachable states\<close>

text \<open>\<open>reachable L cfg allowed w w'\<close>: \<open>w'\<close> follows from \<open>w\<close> by requests that \<open>allowed\<close> admits.\<close>

inductive reachable ::
  "lib \<Rightarrow> settings \<Rightarrow> (call \<Rightarrow> bool) \<Rightarrow> world \<Rightarrow> world \<Rightarrow> bool" for L cfg allowed where
  start: "reachable L cfg allowed w w"
| request: "reachable L cfg allowed w v \<Longrightarrow> allowed c \<Longrightarrow> reachable L cfg allowed w (snd (serve L cfg c v))"

lemma reach_one: "allowed c \<Longrightarrow> reachable L cfg allowed w (snd (serve L cfg c w))"
  by (rule request [OF start])

section \<open>Consistency\<close>

definition consistent :: "tables \<Rightarrow> bool" where
  "consistent t \<longleftrightarrow>
     row_wf u_id u_email (t_users t) \<and> row_wf s_id s_hash (t_sessions t) \<and>
     row_wf j_id j_id (t_jobs t) \<and>
     (\<forall>s \<in> set (t_sessions t). has_user (s_user_id s) t) \<and>
     (\<forall>j \<in> set (t_jobs t). has_user (j_user_id j) t)"

definition stays_consistent :: "tables \<Rightarrow> tables \<Rightarrow> bool" where
  "stays_consistent t t' \<longleftrightarrow> (consistent t \<longrightarrow> consistent t')"

lemma modify_row_set:
  assumes "r' \<in> set (modify_row key i f rows)"
  shows "r' \<in> set rows \<or> (\<exists>r \<in> set rows. key r = i \<and> r' = f r)"
proof (cases "row_get key i rows")
  case (Some r)
  then have "r \<in> set rows" "key r = i" using row_get_in by metis+
  then show ?thesis using assms Some by (auto simp: modify_row_def row_update_def)
qed (use assms in \<open>simp add: modify_row_def\<close>)

lemma modify_row_wf:
  assumes "row_wf key uniq rows" "\<And>r. key (f r) = key r" "\<And>r. uniq (f r) = uniq r"
  shows "row_wf key uniq (modify_row key i f rows)"
proof (cases "row_get key i rows")
  case (Some r)
  then have "row_get key (key (f r)) rows = Some r" using row_get_in assms(2) by metis
  from row_update_uniq [OF _ this, of uniq] show ?thesis
    using assms(1,3) Some by (simp add: row_wf_def modify_row_def row_update_key)
qed (use assms in \<open>simp add: modify_row_def\<close>)

lemma row_insert_set: "row_insert key uniq r rows = Inr rows' \<Longrightarrow> rows' = rows @ [r]"
  by (auto simp: row_insert_def split: if_splits)

lemma row_insert_wf: "row_wf key uniq rows \<Longrightarrow> row_insert key uniq r rows = Inr rows' \<Longrightarrow> row_wf key uniq rows'"
  by (auto simp: row_wf_def row_insert_def split: if_splits)

lemma has_user_keys: "map u_id us = map u_id (t_users t) \<Longrightarrow> has_user i (t\<lparr>t_users := us\<rparr>) = has_user i t"
  by (simp add: has_user_def flip: set_map)

lemma stamp_set:
  assumes "s' \<in> set (fst (stamp clk P k ss))"
  shows "\<exists>s \<in> set ss. revoked_from P s s'"
proof -
  obtain i where "i < length ss" "s' = fst (stamp clk P k ss) ! i"
    using assms list_all2_lengthD [OF stamp_rel [of P ss clk k]] by (metis in_set_conv_nth)
  then show ?thesis using list_all2_nthD [OF stamp_rel [of P ss clk k], of i] nth_mem by auto
qed

lemma revoked_from_user: "revoked_from P s s' \<Longrightarrow> s_user_id s' = s_user_id s"
  by (auto simp: revoked_from_def split: if_splits)

lemma filter_wf: "row_wf key uniq rows \<Longrightarrow> row_wf key uniq (filter P rows)"
  by (simp add: row_wf_def distinct_map_filter)

text \<open>A change of the sessions, or of the jobs, that keeps their keys unique and their owners known.\<close>

lemma stays_sessions:
  assumes "consistent t \<Longrightarrow> row_wf s_id s_hash ss"
    "\<And>s. consistent t \<Longrightarrow> s \<in> set ss \<Longrightarrow> has_user (s_user_id s) t"
  shows "stays_consistent t (t\<lparr>t_sessions := ss\<rparr>)"
  using assms by (simp add: stays_consistent_def consistent_def)

lemma stays_jobs:
  assumes "consistent t \<Longrightarrow> row_wf j_id j_id js"
    "\<And>j. consistent t \<Longrightarrow> j \<in> set js \<Longrightarrow> has_user (j_user_id j) t"
  shows "stays_consistent t (t\<lparr>t_jobs := js\<rparr>)"
  using assms by (simp add: stays_consistent_def consistent_def)

interpretation consistency: app_order stays_consistent False True True
proof unfold_locales
  show "stays_consistent t t" for t by (simp add: stays_consistent_def)
  show "stays_consistent a c" if "stays_consistent a b" "stays_consistent b c" for a b c
    using that by (simp add: stays_consistent_def)
  show "stays_consistent t (t\<lparr>t_jobs := js\<rparr>)"
    if "has_user (j_user_id j) t" "row_insert j_id j_id j (t_jobs t) = Inr js" for j t js
    using row_insert_wf [OF _ that(2)] row_insert_set [OF that(2)] that(1)
    by (intro stays_jobs) (auto simp: consistent_def)
  show "stays_consistent t (t\<lparr>t_jobs := modify_row j_id (j_id j) (\<lambda>r. r\<lparr>j_deleted_at := Some n\<rparr>) (t_jobs t)\<rparr>)"
    for t j n
    by (intro stays_jobs modify_row_wf) (auto simp: consistent_def dest!: modify_row_set)
  show "stays_consistent t (t\<lparr>t_sessions :=
      modify_row s_id (s_id s) (\<lambda>x. x\<lparr>s_revoked_at := Some n\<rparr>) (t_sessions t)\<rparr>)" for t s n
    by (intro stays_sessions modify_row_wf) (auto simp: consistent_def dest!: modify_row_set)
  show "stays_consistent t (t\<lparr>t_users := us\<rparr>)"
    if "row_insert u_id u_email u (t_users t) = Inr us" for u t us
    using row_insert_wf [OF _ that] row_insert_set [OF that]
    by (auto simp: stays_consistent_def consistent_def has_user_def)
  show "stays_consistent t (t\<lparr>t_users := modify_row u_id i f (t_users t)\<rparr>)"
    if "\<And>r. u_id (f r) = u_id r \<and> u_email (f r) = u_email r \<and> u_role (f r) = u_role r" for t i f
    using modify_row_wf [of u_id u_email "t_users t" f i] that
      has_user_keys [of "modify_row u_id i f (t_users t)" t] modify_row_keys [of u_id f]
    by (simp add: stays_consistent_def consistent_def)
  show "stays_consistent t (t\<lparr>t_sessions := ss\<rparr>)"
    if "row_insert s_id s_hash s (t_sessions t) = Inr ss" "has_user (s_user_id s) t" for s t ss
    using row_insert_wf [OF _ that(1)] row_insert_set [OF that(1)] that(2)
    by (intro stays_sessions) (auto simp: consistent_def)
  show "stays_consistent t (t\<lparr>t_sessions := modify_row s_id (s_id s) (retire n (s_id new)) ss\<rparr>)"
    if "s \<in> set (t_sessions t)" "s_user_id new = s_user_id s"
      "row_insert s_id s_hash new (t_sessions t) = Inr ss" for s t new ss n
    using row_insert_wf [OF _ that(3)] row_insert_set [OF that(3)] that(1,2)
    by (intro stays_sessions modify_row_wf) (auto simp: consistent_def dest!: modify_row_set)
  show "stays_consistent t (t\<lparr>t_sessions := fst (stamp clk (\<lambda>s. s_family s = f) k (t_sessions t))\<rparr>)" for t clk f k
    by (intro stays_sessions)
      (auto simp: consistent_def row_wf_def stamp_keys revoked_from_user dest!: stamp_set)
  show "stays_consistent t (drop_user i t)" for t i
    by (auto simp: stays_consistent_def consistent_def drop_user_def has_user_def intro: filter_wf)
qed

lemma reachable_order:
  assumes "app_order D limits deletes True" "reachable L cfg allowed w v" "deletes \<or> (\<forall>a. \<not> allowed (DeleteMe a))"
    and "limits \<longrightarrow> columns_spec L"
  shows "D (disk w) (disk v)"
  using assms(2)
proof induction
  case (start w)
  show ?case using assms(1) by (simp add: app_order_def owner_order_def table_order_def)
next
  case (request w v c)
  have "D (disk v) (after L cfg c v)"
    by (rule app_order.serve_order [OF assms(1)]) (use assms(3,4) request.hyps(2) in auto)
  then show ?case using request.IH assms(1)
    unfolding app_order_def owner_order_def table_order_def after_def by blast
qed

text \<open>
  Property C12. Every reachable database is consistent: ids, e-mail addresses and token hashes are
  unique, and every session and job belongs to an existing user. It holds for all requests, those
  that raise and those that delete accounts included.
\<close>

theorem reachable_consistent:
  assumes "reachable L cfg allowed w v" "consistent (disk w)"
  shows "consistent (disk v)"
  using reachable_order [OF consistency.app_order_axioms assms(1)] assms(2)
  by (simp add: stays_consistent_def)

lemma demo_consistent: "consistent demo_tables"
  by (simp add: consistent_def demo_defs row_wf_def has_user_def)

text \<open>A concrete request: the logout of the live session of the demo world.\<close>

definition demo_logout :: call where
  "demo_logout = Logout [(''refresh_token'', JText ''a'')]"

lemma demo_logout_effect:
  "disk (snd (serve demo_lib default_settings demo_logout demo_world)) =
     demo_tables\<lparr>t_sessions := [demo_session\<lparr>s_revoked_at := Some 0\<rparr>]\<rparr>"
proof -
  have p: "parse_refresh [(''refresh_token'', JText ''a'')] = Inr ''a''" by code_simp
  have h: "hash_token demo_lib (text_of ''a'') = Inr (s_hash demo_session)"
    using demo_hash by (simp add: text_of_def demo_token_def)
  show ?thesis
    by (simp add: demo_logout_def post_logout_def with_db_run validated_def bindM_def p logout_def h
        find_session_by_hash_def revoke_session_def update_session_def live_def py_simps now_def commit_def
        demo_world_def row_get_def demo_tables_def modify_row_def row_update_def demo_session_def)
qed

theorem reachable_consistent_witness:
  "consistent (disk (snd (serve demo_lib default_settings demo_logout demo_world))) \<and>
   disk (snd (serve demo_lib default_settings demo_logout demo_world)) \<noteq> disk demo_world"
proof
  show "consistent (disk (snd (serve demo_lib default_settings demo_logout demo_world)))"
    by (rule reachable_consistent [OF reach_one [of "\<lambda>_. True"]]) (simp_all add: demo_world_def demo_consistent)
qed (simp add: demo_logout_effect, simp add: demo_defs)

section \<open>No privilege escalation\<close>

definition admins_from :: "tables \<Rightarrow> tables \<Rightarrow> bool" where
  "admins_from t t' \<longleftrightarrow>
     (\<forall>u' \<in> set (t_users t'). u_role u' = ROLE_ADMIN \<longrightarrow>
        (\<exists>u \<in> set (t_users t). u_id u = u_id u' \<and> u_email u = u_email u' \<and> u_role u = ROLE_ADMIN))"

lemma admins_from_same: "t_users t' = t_users t \<Longrightarrow> admins_from t t'"
  by (auto simp: admins_from_def)

interpretation privileges: app_order admins_from False True True
proof unfold_locales
  show "admins_from a c" if "admins_from a b" "admins_from b c" for a b c
    using that unfolding admins_from_def by metis
  show "admins_from t (t\<lparr>t_users := us\<rparr>)"
    if "u_role u = ROLE_USER" "row_insert u_id u_email u (t_users t) = Inr us" for u t us
    using row_insert_set [OF that(2)] that(1) by (auto simp: admins_from_def)
  show "admins_from t (t\<lparr>t_users := modify_row u_id i f (t_users t)\<rparr>)"
    if "\<And>r. u_id (f r) = u_id r \<and> u_email (f r) = u_email r \<and> u_role (f r) = u_role r" for t i f
    using that unfolding admins_from_def by (auto dest!: modify_row_set)
  show "admins_from t (drop_user i t)" for t i
    by (auto simp: admins_from_def drop_user_def)
qed (simp_all add: admins_from_same)

text \<open>
  Property C13. No sequence of requests makes anybody an administrator: whoever has the role in a
  reachable database had it, with the same id and address, at the start. Roles are only ever set
  by provisioning outside the API.
\<close>

theorem no_privilege_escalation:
  assumes "reachable L cfg allowed w v" "u' \<in> set (t_users (disk v))" "is_admin u'"
  shows "\<exists>u \<in> set (t_users (disk w)). u_id u = u_id u' \<and> u_email u = u_email u' \<and> is_admin u"
  using reachable_order [OF privileges.app_order_axioms assms(1)] assms(2,3)
  by (auto simp: admins_from_def is_admin_def)

theorem no_privilege_escalation_witness:
  "demo_admin \<in> set (t_users (disk (snd (serve demo_lib default_settings demo_logout demo_world)))) \<and>
   (\<exists>u \<in> set (t_users (disk demo_world)). u_id u = 8 \<and> u_email u = ''root@b.c'' \<and> is_admin u)"
proof
  show in_out: "demo_admin \<in> set (t_users (disk (snd (serve demo_lib default_settings demo_logout demo_world))))"
    by (simp add: demo_logout_effect) (simp add: demo_tables_def)
  have "is_admin demo_admin" by (simp add: is_admin_def demo_admin_def)
  from no_privilege_escalation [OF reach_one [of "\<lambda>_. True"] in_out this]
  show "\<exists>u \<in> set (t_users (disk demo_world)). u_id u = 8 \<and> u_email u = ''root@b.c'' \<and> is_admin u"
    by (simp add: demo_admin_def)
qed

section \<open>Revocation is permanent\<close>

definition session_step :: "session \<Rightarrow> session \<Rightarrow> bool" where
  "session_step s s' \<longleftrightarrow>
     s_id s' = s_id s \<and> s_hash s' = s_hash s \<and> s_user_id s' = s_user_id s \<and>
     s_family s' = s_family s \<and> s_issued_at s' = s_issued_at s \<and> s_expires_at s' = s_expires_at s \<and>
     (s_revoked_at s \<noteq> None \<longrightarrow> s_revoked_at s' = s_revoked_at s)"

definition sessions_kept :: "tables \<Rightarrow> tables \<Rightarrow> bool" where
  "sessions_kept t t' \<longleftrightarrow>
     (sessions_wf (t_sessions t) \<longrightarrow> sessions_wf (t_sessions t') \<and>
        (\<forall>s \<in> set (t_sessions t). \<exists>s' \<in> set (t_sessions t'). session_step s s'))"

lemma session_step_refl [simp]: "session_step s s"
  by (simp add: session_step_def)

lemma session_step_trans: "session_step a b \<Longrightarrow> session_step b c \<Longrightarrow> session_step a c"
  by (auto simp: session_step_def)

lemma sessions_kept_same:
  assumes "t_sessions t' = t_sessions t" shows "sessions_kept t t'"
proof -
  have "\<exists>s' \<in> set (t_sessions t). session_step s s'" if "s \<in> set (t_sessions t)" for s
    using that session_step_refl by (rule bexI [rotated])
  then show ?thesis using assms by (simp add: sessions_kept_def)
qed

lemma modify_row_mem:
  assumes "distinct (map key rows)" "\<And>r. key (f r) = key r" "x \<in> set rows"
  shows "(if key x = i then f x else x) \<in> set (modify_row key i f rows)"
proof (cases "row_get key i rows")
  case (Some r)
  then have r: "r \<in> set rows" "key r = i" using row_get_in by metis+
  show ?thesis
  proof (cases "key x = i")
    case True
    then have "x = r" using r assms(1,3) by (simp add: distinct_map inj_on_def)
    then show ?thesis using r assms Some by (auto simp: modify_row_def row_update_def image_iff)
  next
    case False
    then show ?thesis using r assms Some by (auto simp: modify_row_def row_update_def image_iff)
  qed
next
  case None
  then have "key x \<noteq> i" using assms(3) by (auto simp: row_get_def find_None_iff)
  then show ?thesis using None assms(3) by (simp add: modify_row_def)
qed

lemma sessions_kept_modify:
  assumes "s \<in> set ss" "live s" "row_wf s_id s_hash ss" "set (t_sessions t) \<subseteq> set ss"
    and f: "\<And>r. s_id (f r) = s_id r" "\<And>r. s_hash (f r) = s_hash r" "live s \<Longrightarrow> session_step s (f s)"
  shows "sessions_wf (modify_row s_id (s_id s) f ss) \<and>
    (\<forall>x \<in> set (t_sessions t). \<exists>x' \<in> set (modify_row s_id (s_id s) f ss). session_step x x')"
proof (intro conjI ballI)
  show "sessions_wf (modify_row s_id (s_id s) f ss)" using modify_row_wf assms(3) f by blast
  fix x assume "x \<in> set (t_sessions t)"
  then have x: "x \<in> set ss" using assms(4) by blast
  have d: "distinct (map s_id ss)" using assms(3) by (simp add: row_wf_def)
  have "s_id x = s_id s \<Longrightarrow> x = s" using d x assms(1) by (simp add: distinct_map inj_on_def)
  then have "session_step x (if s_id x = s_id s then f x else x)" using f(3) assms(2) by auto
  then show "\<exists>x' \<in> set (modify_row s_id (s_id s) f ss). session_step x x'"
    using modify_row_mem [OF d f(1) x] by blast
qed

lemma revoked_from_step: "revoked_from P s s' \<Longrightarrow> session_step s s'"
  by (auto simp: revoked_from_def session_step_def live_def split: if_splits)

interpretation revocations: app_order sessions_kept False False True
proof unfold_locales
  show "sessions_kept t t" for t by (simp add: sessions_kept_same)
  show "sessions_kept a c" if "sessions_kept a b" "sessions_kept b c" for a b c
    using that unfolding sessions_kept_def by (meson session_step_trans)
  show "sessions_kept t (t\<lparr>t_sessions :=
      modify_row s_id (s_id s) (\<lambda>x. x\<lparr>s_revoked_at := Some n\<rparr>) (t_sessions t)\<rparr>)"
    if "s \<in> set (t_sessions t)" "live s" for t s n
    using sessions_kept_modify [OF that(1,2), of t "\<lambda>x. x\<lparr>s_revoked_at := Some n\<rparr>"]
    by (simp add: sessions_kept_def session_step_def live_def)
  show "sessions_kept t (t\<lparr>t_sessions := ss\<rparr>)"
    if "row_insert s_id s_hash s (t_sessions t) = Inr ss" for s t ss
    using row_insert_wf [OF _ that] row_insert_set [OF that]
    unfolding sessions_kept_def by (auto intro: session_step_refl)
  show "sessions_kept t (t\<lparr>t_sessions := modify_row s_id (s_id s) (retire n (s_id new)) ss\<rparr>)"
    if "s \<in> set (t_sessions t)" "live s" "row_insert s_id s_hash new (t_sessions t) = Inr ss"
    for s t new ss n
  proof -
    have ss: "ss = t_sessions t @ [new]" by (rule row_insert_set [OF that(3)])
    have "session_step s (retire n (s_id new) s)"
      using that(2) by (simp add: session_step_def live_def) (simp add: retire_def)
    moreover have "s \<in> set ss" "set (t_sessions t) \<subseteq> set ss" using that(1) ss by auto
    ultimately show ?thesis unfolding sessions_kept_def
      using sessions_kept_modify [of s ss t "retire n (s_id new)"] that(2)
        row_insert_wf [OF _ that(3)] by simp
  qed
  show "sessions_kept t (t\<lparr>t_sessions := fst (stamp clk (\<lambda>s. s_family s = f) k (t_sessions t))\<rparr>)" for t clk f k
  proof -
    have "\<exists>s' \<in> set (fst (stamp clk (\<lambda>s. s_family s = f) k (t_sessions t))). session_step s s'"
      if s: "s \<in> set (t_sessions t)" for s
    proof -
      obtain i where i: "i < length (t_sessions t)" "s = t_sessions t ! i"
        using s by (auto simp: in_set_conv_nth)
      let ?ss = "fst (stamp clk (\<lambda>s. s_family s = f) k (t_sessions t))"
      have "session_step s (?ss ! i)"
        unfolding i(2) by (rule revoked_from_step [OF list_all2_nthD [OF stamp_rel i(1)]])
      moreover have "?ss ! i \<in> set ?ss"
        using i(1) list_all2_lengthD [OF stamp_rel [of "\<lambda>s. s_family s = f" "t_sessions t" clk k]] by simp
      ultimately show ?thesis by blast
    qed
    then show ?thesis by (simp add: sessions_kept_def row_wf_def stamp_keys)
  qed
qed (simp_all add: sessions_kept_same)

text \<open>The one request that removes sessions, and what it commits.\<close>

lemma delete_me_disk:
  "after L cfg (DeleteMe a) w = disk w \<or> (\<exists>i. after L cfg (DeleteMe a) w = drop_user i (disk w))"
proof (cases "get_current_user L cfg a (w\<lparr>db := disk w\<rparr>)")
  case (Pair r w')
  have "db w' = disk w" "disk w' = disk w"
    using readonlyD [OF readonly_current_user, of L cfg a "w\<lparr>db := disk w\<rparr>"] Pair by simp_all
  then show ?thesis using Pair
    by (cases r) (auto simp: after_def del_me_def with_db_run bindM_def delete_me_def
        delete_user_def commit_def py_simps)
qed

lemma kept_until_deleted:
  assumes "consistent (disk v)" "s \<in> set (t_sessions (disk v))"
  shows "(\<exists>s' \<in> set (t_sessions (after L cfg c v)). session_step s s') \<or>
    (\<exists>a. c = DeleteMe a \<and> \<not> has_user (s_user_id s) (after L cfg c v) \<and>
       (\<forall>x \<in> set (t_sessions (after L cfg c v)). s_user_id x \<noteq> s_user_id s))"
proof (cases "\<exists>a. c = DeleteMe a")
  case True
  then obtain a where a: "c = DeleteMe a" by blast
  consider "after L cfg c v = disk v" | i where "after L cfg c v = drop_user i (disk v)"
    using delete_me_disk a by blast
  then show ?thesis
  proof cases
    case (2 i)
    show ?thesis
    proof (cases "s_user_id s = i")
      case True
      then show ?thesis using a 2 by (auto simp: drop_user_def has_user_def)
    next
      case False
      then have "s \<in> set (t_sessions (after L cfg c v))" using 2 assms(2) by (simp add: drop_user_def)
      then show ?thesis using session_step_refl by blast
    qed
  qed (use assms(2) session_step_refl in \<open>metis\<close>)
next
  case False
  then have "sessions_kept (disk v) (after L cfg c v)" using revocations.serve_order [of c L v cfg] by simp
  then show ?thesis using assms unfolding sessions_kept_def consistent_def by blast
qed

text \<open>
  Property C14. Revocation is permanent. Whatever requests follow, a session stays in the table
  with its id, token hash, owner, family and expiry, and, if it is revoked, with the revocation
  time it has; or its owner's account was deleted by one of them: up to that request the session
  was kept in this way, and the request removed the account and every session of it.
\<close>

theorem revocation_permanent:
  assumes "reachable L cfg allowed w v" "consistent (disk w)" "s \<in> set (t_sessions (disk w))"
  shows "(\<exists>s' \<in> set (t_sessions (disk v)). s_id s' = s_id s \<and> s_hash s' = s_hash s \<and>
       s_user_id s' = s_user_id s \<and> s_family s' = s_family s \<and> s_expires_at s' = s_expires_at s \<and>
       (s_revoked_at s \<noteq> None \<longrightarrow> s_revoked_at s' = s_revoked_at s)) \<or>
    (\<exists>u a. reachable L cfg allowed w u \<and> allowed (DeleteMe a) \<and>
       reachable L cfg allowed (snd (serve L cfg (DeleteMe a) u)) v \<and>
       (\<exists>s' \<in> set (t_sessions (disk u)). session_step s s') \<and>
       \<not> has_user (s_user_id s) (after L cfg (DeleteMe a) u) \<and>
       (\<forall>x \<in> set (t_sessions (after L cfg (DeleteMe a) u)). s_user_id x \<noteq> s_user_id s))"
    (is "_ \<or> ?gone w v")
proof -
  have "(\<exists>s' \<in> set (t_sessions (disk v)). session_step s s') \<or> ?gone w v"
    using assms
  proof induction
    case (start w)
    then show ?case using session_step_refl by blast
  next
    case (request w v c)
    have con: "consistent (disk v)"
      using reachable_order [OF consistency.app_order_axioms request.hyps(1)] request.prems(1)
      by (simp add: stays_consistent_def)
    from request.IH [OF request.prems] show ?case
    proof
      assume "\<exists>s' \<in> set (t_sessions (disk v)). session_step s s'"
      then obtain s' where s': "s' \<in> set (t_sessions (disk v))" "session_step s s'" by blast
      then have "s_user_id s' = s_user_id s" by (simp add: session_step_def)
      from kept_until_deleted [OF con s'(1), of L cfg c, unfolded \<open>s_user_id s' = s_user_id s\<close>]
      show ?thesis
      proof
        assume "\<exists>s'' \<in> set (t_sessions (after L cfg c v)). session_step s' s''"
        then show ?thesis using session_step_trans [OF s'(2)] unfolding after_def by blast
      next
        assume "\<exists>a. c = DeleteMe a \<and> \<not> has_user (s_user_id s) (after L cfg c v) \<and>
          (\<forall>x \<in> set (t_sessions (after L cfg c v)). s_user_id x \<noteq> s_user_id s)"
        then obtain a where a: "c = DeleteMe a" "\<not> has_user (s_user_id s) (after L cfg (DeleteMe a) v)"
          "\<forall>x \<in> set (t_sessions (after L cfg (DeleteMe a) v)). s_user_id x \<noteq> s_user_id s" by blast
        have "?gone w (snd (serve L cfg c v))"
          by (intro exI [of _ v] exI [of _ a] conjI)
            (use a s' request.hyps in \<open>auto simp del: serve.simps intro: reachable.start\<close>)
        then show ?thesis ..
      qed
    qed (use request.hyps(2) reachable.request in blast)
  qed
  then show ?thesis unfolding session_step_def by blast
qed

text \<open>The session is revoked at time 5, and its owner logs out again with the same token.\<close>

theorem revocation_permanent_witness:
  "\<exists>s' \<in> set (t_sessions (disk (snd (serve demo_lib default_settings demo_logout
      (demo_world\<lparr>disk := demo_tables\<lparr>t_sessions := [demo_session\<lparr>s_revoked_at := Some 5\<rparr>]\<rparr>\<rparr>))))).
     s_id s' = 9 \<and> s_revoked_at s' = Some 5"
proof -
  let ?w = "demo_world\<lparr>disk := demo_tables\<lparr>t_sessions := [demo_session\<lparr>s_revoked_at := Some 5\<rparr>]\<rparr>\<rparr>"
  have "consistent (disk ?w)" "demo_session\<lparr>s_revoked_at := Some 5\<rparr> \<in> set (t_sessions (disk ?w))"
    using demo_consistent by (simp_all add: consistent_def demo_tables_def row_wf_def has_user_def)
  from revocation_permanent [OF reach_one [of "\<lambda>c. c = demo_logout", OF refl] this]
  show ?thesis by (simp add: demo_logout_def del: serve.simps) (auto simp: demo_session_def simp del: serve.simps)
qed

end
