(* ===== verification/Isolation.thy ===== *)
theory Isolation
  imports Invariants
begin

text \<open>
  Ownership: a request made by one user neither changes the rows of another nor tells whether they
  exist. \<open>others_same A\<close> is interpreted as an \<open>owner_order\<close> for the rows that \<open>A\<close> owns.
\<close>

section \<open>Rows of others\<close>

definition others_same :: "uuid \<Rightarrow> tables \<Rightarrow> tables \<Rightarrow> bool" where
  "others_same A t t' \<longleftrightarrow> (consistent t \<longrightarrow> consistent t' \<and>
     filter (\<lambda>u. u_id u \<noteq> A) (t_users t') = filter (\<lambda>u. u_id u \<noteq> A) (t_users t) \<and>
     filter (\<lambda>s. s_user_id s \<noteq> A) (t_sessions t') = filter (\<lambda>s. s_user_id s \<noteq> A) (t_sessions t) \<and>
     filter (\<lambda>j. j_user_id j \<noteq> A) (t_jobs t') = filter (\<lambda>j. j_user_id j \<noteq> A) (t_jobs t))"

lemma others_sameI:
  assumes "stays_consistent t t'"
    and "consistent t \<Longrightarrow> filter (\<lambda>u. u_id u \<noteq> A) (t_users t') = filter (\<lambda>u. u_id u \<noteq> A) (t_users t)"
    "consistent t \<Longrightarrow> filter (\<lambda>s. s_user_id s \<noteq> A) (t_sessions t') = filter (\<lambda>s. s_user_id s \<noteq> A) (t_sessions t)"
    "consistent t \<Longrightarrow> filter (\<lambda>j. j_user_id j \<noteq> A) (t_jobs t') = filter (\<lambda>j. j_user_id j \<noteq> A) (t_jobs t)"
  shows "others_same A t t'"
  using assms by (simp add: others_same_def stays_consistent_def)

text \<open>Rewriting a row that \<open>A\<close> owns into another that \<open>A\<close> owns leaves the others alone.\<close>

lemma modify_others:
  assumes "distinct (map key rows)" "x \<in> set rows" "owner x = A" "\<And>r. key (f r) = key r"
    "\<And>r. owner (f r) = owner r"
  shows "filter (\<lambda>r. owner r \<noteq> A) (modify_row key (key x) f rows) = filter (\<lambda>r. owner r \<noteq> A) rows"
proof -
  have get: "row_get key (key x) rows = Some x"
    using assms(1,2) by (simp add: row_get_def find_key_iff)
  have "filter (\<lambda>r. owner r \<noteq> A) (map (\<lambda>y. if key y = key (f x) then f x else y) ys) =
      filter (\<lambda>r. owner r \<noteq> A) ys" if ys: "set ys \<subseteq> set rows" for ys
    using ys
  proof (induction ys)
    case (Cons y ys)
    have "key y = key x \<Longrightarrow> y = x" using Cons.prems assms(1,2) by (simp add: distinct_map inj_on_def)
    then show ?case using Cons assms(3-5) by auto
  qed simp
  then show ?thesis using get by (simp add: modify_row_def row_update_def)
qed

interpretation isolation: owner_order "others_same A" "\<lambda>i. i = A" False for A
proof unfold_locales
  show "others_same A t t" for t by (simp add: others_same_def)
  show "others_same A a c" if "others_same A a b" "others_same A b c" for a b c
    using that by (simp add: others_same_def)
  show "others_same A t (t\<lparr>t_jobs := js\<rparr>)"
    if "j_user_id j = A" "has_user (j_user_id j) t" "row_insert j_id j_id j (t_jobs t) = Inr js" for j t js
    using consistency.ins_job [OF _ that(2) _ that(3)] row_insert_set [OF that(3)] that(1)
    by (intro others_sameI) simp_all
  show "others_same A t (t\<lparr>t_jobs := modify_row j_id (j_id j) (\<lambda>r. r\<lparr>j_deleted_at := Some n\<rparr>) (t_jobs t)\<rparr>)"
    if "j \<in> set (t_jobs t)" "j_user_id j = A" for j t n
    using consistency.del_job [OF that(1), of n] modify_others [of j_id "t_jobs t" j j_user_id A] that
    by (intro others_sameI) (simp_all add: consistent_def row_wf_def)
  show "others_same A t (t\<lparr>t_sessions :=
      modify_row s_id (s_id s) (\<lambda>x. x\<lparr>s_revoked_at := Some n\<rparr>) (t_sessions t)\<rparr>)"
    if "s \<in> set (t_sessions t)" "s_user_id s = A" "live s" for s t n
    using consistency.revoke [OF that(1) _ that(3), of n] modify_others [of s_id "t_sessions t" s s_user_id A] that
    by (intro others_sameI) (simp_all add: consistent_def row_wf_def)
qed

lemma others_same_drop: "others_same A t (drop_user A t)"
  using consistency.drop by (intro others_sameI) (simp_all add: drop_user_def)

section \<open>Requests of a logged-in user\<close>

text \<open>The header of the routes that act for the caller, and who the caller is.\<close>

fun caller_header :: "call \<Rightarrow> auth option" where
  "caller_header (Me a) = Some a"
| "caller_header (DeleteMe a) = Some a"
| "caller_header (ListSessions a) = Some a"
| "caller_header (RevokeSession a i) = Some a"
| "caller_header (Embed a f p d) = Some a"
| "caller_header (Extract a f p) = Some a"
| "caller_header (Verify a f) = Some a"
| "caller_header (ListJobs a) = Some a"
| "caller_header (GetJob a i) = Some a"
| "caller_header (DeleteJob a i) = Some a"
| "caller_header _ = None"

definition caller :: "lib \<Rightarrow> settings \<Rightarrow> auth \<Rightarrow> world \<Rightarrow> user res" where
  "caller L cfg a w = fst (get_current_user L cfg a (w\<lparr>db := disk w\<rparr>))"

lemma caller_Inr:
  assumes "caller L cfg a w = Inr u" "D (disk w) (disk w)"
    "\<And>v. has_user (u_id u) (db v) \<Longrightarrow> safe_at D v (f u)"
  shows "D (disk w) (disk (snd (with_db (bindM (get_current_user L cfg a) f) w)))"
proof -
  obtain v where v: "get_current_user L cfg a (w\<lparr>db := disk w\<rparr>) = (Inr u, v)"
    using assms(1) by (cases "get_current_user L cfg a (w\<lparr>db := disk w\<rparr>)") (simp add: caller_def)
  have "db v = disk w" "disk v = disk w"
    using readonlyD [OF readonly_current_user, of L cfg a "w\<lparr>db := disk w\<rparr>"] v by simp_all
  moreover have "has_user (u_id u) (db v)" using current_user_known v unfolding gives_def by blast
  ultimately show ?thesis
    using assms(2) assms(3) [of v] v by (simp add: with_db_run bindM_def safe_at_def)
qed

lemma caller_Inl:
  assumes "caller L cfg a w = Inl e"
  shows "disk (snd (with_db (bindM (get_current_user L cfg a) f) w)) = disk w"
    "fst (with_db (bindM (get_current_user L cfg a) f) w) = Inl e"
  using assms readonlyD [OF readonly_current_user, of L cfg a "w\<lparr>db := disk w\<rparr>"]
  by (cases "get_current_user L cfg a (w\<lparr>db := disk w\<rparr>)"; simp add: caller_def with_db_run bindM_def)+

text \<open>The demonstration users' tokens.\<close>

definition demo_claims :: "user \<Rightarrow> claims" where
  "demo_claims u =
     [(''sub'', JStr (str_uuid (u_id u))), (''role'', JStr (u_role u)), (''iat'', JInt 0),
      (''exp'', JInt 900)]"

definition demo_header :: "user \<Rightarrow> auth" where
  "demo_header u =
     Some (''Bearer '' @ jwt_encode demo_lib (demo_claims u) (jwt_signing_key default_settings))"

lemma demo_caller:
  assumes "u = demo_user \<or> u = demo_admin"
  shows "caller demo_lib default_settings (demo_header u) demo_world = Inr u"
proof -
  have id: "u_id u < 2 ^ 128" using assms by (auto simp: demo_user_def demo_admin_def)
  have "map_of (demo_claims u) ''exp'' = Some (JInt 900)"
    "map_of (demo_claims u) ''sub'' = Some (JStr (str_uuid (u_id u)))"
    "map_of (demo_claims u) ''role'' = Some (JStr (u_role u))"
    "map_of (demo_claims u) ''iat'' = Some (JInt 0)" "(0::int) \<le> 0 div 1000000"
    "fst ` set (demo_claims u) \<subseteq> {''sub'', ''role'', ''iat'', ''exp'', ''jti''}"
    "\<forall>v. map_of (demo_claims u) ''jti'' = Some v \<longrightarrow> (\<exists>j. v = JStr j)"
    by (simp_all add: demo_claims_def)
  then have "jwt_decode demo_lib (jwt_encode demo_lib (demo_claims u) (jwt_signing_key default_settings))
      (jwt_signing_key default_settings) 0 = (if 0 div 1000000 < (900::int) then Inr (demo_claims u) else Inl PyJWTError)"
    using demo_jwt unfolding jwt_spec_def by blast
  then have "token_user demo_lib default_settings
      (jwt_encode demo_lib (demo_claims u) (jwt_signing_key default_settings)) 0 = Inr (u_id u)"
    using id by (simp add: token_user_def demo_claims_def parse_str_uuid)
  moreover have "row_get u_id (u_id u) (t_users demo_tables) = Some u" "u_status u = STATUS_ACTIVE"
    using assms by (auto simp: demo_defs row_get_def)
  ultimately show ?thesis
    using has_bearer_Bearer bearer_of_token [OF demo_jwt]
    by (simp add: caller_def demo_header_def get_current_user_run [OF demo_jwt] demo_world_def)
qed

lemma others_same_request:
  assumes "caller_header c = Some a" "caller L cfg a w = Inr u"
  shows "others_same (u_id u) (disk w) (after L cfg c w)"
proof -
  note route = caller_Inr [OF assms(2), of "others_same (u_id u)", OF isolation.refl]
  note at = safe_at_safe [OF readonly_safe]
  have d: "safe_at (others_same (u_id u)) v (delete_me u)" for v
    unfolding delete_me_def
    by (intro safe_at_safe safe_rules isolation.safe_delete_user others_same_drop)
  have r: "safe_at (others_same (u_id u)) v (revoke_one i u)"
    "safe_at (others_same (u_id u)) v (delete_job i u)" for v i
    by (intro safe_at_safe isolation.safe_revoke_one isolation.safe_delete_job refl)+
  have e: "has_user (u_id u) (db v) \<Longrightarrow> safe_at (others_same (u_id u)) v (embed_job L cfg f p x u)"
    "has_user (u_id u) (db v) \<Longrightarrow> safe_at (others_same (u_id u)) v (extract_job L cfg f p u)"
    "has_user (u_id u) (db v) \<Longrightarrow> safe_at (others_same (u_id u)) v (verify_job L cfg f u)" for v f p x
    by (rule safe_with_at [OF isolation.with_embed] safe_with_at [OF isolation.with_extract]
        safe_with_at [OF isolation.with_verify]; simp)+
  show ?thesis unfolding after_def using assms(1)
    by (cases c) (simp_all add: get_me_def del_me_def get_sessions_def del_session_def post_embed_def
        post_extract_def post_verify_def get_jobs_def get_one_job_def del_job_def route d r e at
        consistency.readonly_lists)
qed

text \<open>
  Property C28. Isolation of the ten routes that act for the caller, those behind
  \<^verbatim>\<open>get_current_user\<close> (account, sessions and jobs; \<open>caller_header\<close> lists them): whichever of
  them a logged-in user requests and whether it succeeds or not, the accounts, the sessions and the jobs of every
  other user stay exactly as they were; and if the caller is not authenticated, the request changes nothing at all
  and gets the authentication error. The other routes are outside this statement: those of
  administrators, one of which changes another account by design, and register, login, refresh and
  logout, which identify their account by what is in the body.
\<close>

theorem request_isolation:
  assumes "consistent (disk w)" "caller_header c = Some a"
  shows "case caller L cfg a w of
      Inl e \<Rightarrow> after L cfg c w = disk w \<and> fst (serve L cfg c w) = Inl e
    | Inr u \<Rightarrow>
        filter (\<lambda>v. u_id v \<noteq> u_id u) (t_users (after L cfg c w)) =
          filter (\<lambda>v. u_id v \<noteq> u_id u) (t_users (disk w)) \<and>
        filter (\<lambda>s. s_user_id s \<noteq> u_id u) (t_sessions (after L cfg c w)) =
          filter (\<lambda>s. s_user_id s \<noteq> u_id u) (t_sessions (disk w)) \<and>
        filter (\<lambda>j. j_user_id j \<noteq> u_id u) (t_jobs (after L cfg c w)) =
          filter (\<lambda>j. j_user_id j \<noteq> u_id u) (t_jobs (disk w))"
proof (cases "caller L cfg a w")
  case (Inr u)
  from others_same_request [OF assms(2) this] assms(1) Inr show ?thesis
    by (simp add: others_same_def)
next
  case (Inl e)
  have fst_answer: "fst (m w) = Inl e \<Longrightarrow> fst (answer_with f m w) = Inl e" for m :: "(world, 'b) py" and f
    by (cases "m w") (simp add: answer_with_def bindM_def)
  show ?thesis using assms(2) Inl unfolding after_def
    by (cases c) (simp_all add: get_me_def del_me_def get_sessions_def del_session_def post_embed_def
        post_extract_def post_verify_def get_jobs_def get_one_job_def del_job_def caller_Inl fst_answer)
qed

theorem request_isolation_witness:
  "filter (\<lambda>v. u_id v \<noteq> 7) (t_users (after demo_lib default_settings (DeleteMe (demo_header demo_user)) demo_world))
     = [demo_admin]"
proof -
  have c: "caller demo_lib default_settings (demo_header demo_user) demo_world = Inr demo_user"
    using demo_caller by blast
  have d: "consistent (disk demo_world)" using demo_consistent by (simp add: demo_world_def)
  from request_isolation [OF d, of "DeleteMe (demo_header demo_user)" "demo_header demo_user"
      demo_lib default_settings] c
  show ?thesis by (simp add: demo_world_def demo_tables_def) (simp add: demo_user_def demo_admin_def)
qed

section \<open>No existence oracle\<close>

text \<open>The jobs a user can see, and the lookup that the ownership check amounts to.\<close>

definition visible :: "uuid \<Rightarrow> job \<Rightarrow> bool" where
  "visible A j \<longleftrightarrow> j_user_id j = A \<and> j_deleted_at j = None"

definition visible_job :: "uuid \<Rightarrow> uuid \<Rightarrow> job list \<Rightarrow> job option" where
  "visible_job A k js =
     (case row_get j_id k js of None \<Rightarrow> None | Some j \<Rightarrow> if visible A j then Some j else None)"

lemma owned_job_run:
  "owned_job_or_404 i u w =
     (case parse_uuid i of
        Inl e \<Rightarrow> (Inl NOT_FOUND, w)
      | Inr k \<Rightarrow>
          (case visible_job (u_id u) k (t_jobs (db w)) of
             None \<Rightarrow> (Inl NOT_FOUND, snd (increment AUTHORIZATION_DENIAL 1 w))
           | Some j \<Rightarrow> (Inr j, w)))"
proof (cases "parse_uuid i")
  case (Inl e)
  then show ?thesis using parse_uuid_Inl [OF Inl]
    by (simp add: owned_job_or_404_def py_simps is_value_error_def)
next
  case (Inr k)
  then show ?thesis
    by (auto simp: owned_job_or_404_def py_simps visible_job_def visible_def get_job_row_def
        increment_def split: option.split)
qed

lemma visible_job_iff:
  assumes "distinct (map j_id js)"
  shows "visible_job A k js = Some j \<longleftrightarrow> j \<in> set (filter (visible A) js) \<and> j_id j = k"
proof -
  have "visible_job A k js = Some j \<longleftrightarrow> row_get j_id k js = Some j \<and> visible A j"
    by (auto simp: visible_job_def split: option.splits if_splits)
  then show ?thesis using assms by (auto simp: row_get_def find_key_iff)
qed

lemma visible_job_cong:
  assumes "distinct (map j_id js)" "distinct (map j_id js')"
    "filter (visible A) js' = filter (visible A) js"
  shows "visible_job A k js' = visible_job A k js"
proof -
  have iff: "visible_job A k js' = Some j \<longleftrightarrow> visible_job A k js = Some j" for j
    using assms by (simp only: visible_job_iff)
  show ?thesis
  proof (cases "visible_job A k js'")
    case None
    then have "visible_job A k js \<noteq> Some j" for j using iff by simp
    then show ?thesis using None by (metis not_None_eq)
  next
    case (Some j)
    then show ?thesis using iff by simp
  qed
qed

lemma current_user_ticks:
  assumes "jwt_spec L" "fst (get_current_user L cfg a w) = Inr u"
  shows "get_current_user L cfg a w = (Inr u, w\<lparr>ticks := Suc (ticks w)\<rparr>)"
  using assms(2) by (auto simp: get_current_user_run [OF assms(1)] split: option.splits if_splits sum.splits)

lemma caller_state:
  assumes "jwt_spec L" "caller L cfg a w = Inr u"
  shows "get_current_user L cfg a (w\<lparr>db := disk w\<rparr>) = (Inr u, w\<lparr>db := disk w, ticks := Suc (ticks w)\<rparr>)"
  using current_user_ticks [OF assms(1), of cfg a "w\<lparr>db := disk w\<rparr>" u] assms(2) by (simp add: caller_def)

lemma caller_jobs:
  "jwt_spec L \<Longrightarrow> caller L cfg a (w\<lparr>disk := (disk w)\<lparr>t_jobs := js\<rparr>\<rparr>) = caller L cfg a w"
  by (simp add: caller_def get_current_user_run split: option.split sum.split)

lemma answer_with_result:
  "fst (answer_with f m w) = (case fst (m w) of Inl e \<Rightarrow> Inl e | Inr x \<Rightarrow> Inr (f x))"
  by (simp add: answer_with_def bindM_def split: prod.split sum.split)

text \<open>
  Property C29. No existence oracle: the answers to listing, reading and deleting jobs, and the metric
  counters they leave, depend only on the caller's own undeleted jobs. Replacing all other job
  rows by any others (a foreign job added, removed, or deleted) changes no answer, so another
  user's job is indistinguishable from one that does not exist.
\<close>

theorem job_no_existence_oracle:
  assumes spec: "jwt_spec L" and u: "caller L cfg a w = Inr u"
    and w': "w' = w\<lparr>disk := (disk w)\<lparr>t_jobs := js\<rparr>\<rparr>"
    and wf: "consistent (disk w)" "consistent (disk w')"
    and same: "filter (visible (u_id u)) js = filter (visible (u_id u)) (t_jobs (disk w))"
    and c: "c = ListJobs a \<or> (\<exists>i. c = GetJob a i \<or> c = DeleteJob a i)"
  shows "fst (serve L cfg c w') = fst (serve L cfg c w) \<and>
    counters (snd (serve L cfg c w')) = counters (snd (serve L cfg c w))"
proof -
  have "caller L cfg a w' = Inr u" using caller_jobs [OF spec] u by (simp add: w')
  note auth = caller_state [OF spec u] caller_state [OF spec this]
  have same_job: "visible_job (u_id u) k (t_jobs (disk w')) = visible_job (u_id u) k (t_jobs (disk w))" for k
    using visible_job_cong [of "t_jobs (disk w)" js "u_id u" k] wf same
    by (simp add: consistent_def row_wf_def w')
  have same_list: "filter (\<lambda>j. j_user_id j = u_id u \<and> j_deleted_at j = None) (t_jobs (disk w')) =
      filter (\<lambda>j. j_user_id j = u_id u \<and> j_deleted_at j = None) (t_jobs (disk w))"
    using same by (simp add: visible_def [abs_def] w')
  have rest: "counters w' = counters w" "ticks w' = ticks w" "wall w' = wall w" by (simp_all add: w')
  from c consider "c = ListJobs a" | i where "c = GetJob a i" | i where "c = DeleteJob a i" by blast
  then show ?thesis
  proof cases
    case 1
    then show ?thesis using same_list rest
      by (simp add: get_jobs_def answer_with_result with_db_run bindM_def auth list_jobs_def)
  next
    case 2
    then show ?thesis using same_job rest
      by (auto simp: get_one_job_def answer_with_result with_db_run bindM_def auth get_job_def
          owned_job_run increment_def counter_def split: sum.split option.split)
  next
    case 3
    then show ?thesis using same_job rest
      by (auto simp: del_job_def answer_with_result with_db_run py_simps auth delete_job_def
          owned_job_run increment_def counter_def now_def update_job_def commit_def
          split: sum.split option.split)
  qed
qed

theorem job_no_existence_oracle_witness:
  "fst (serve demo_lib default_settings (GetJob (demo_header demo_admin) (str_uuid 11)) demo_world) =
   fst (serve demo_lib default_settings (GetJob (demo_header demo_admin) (str_uuid 11))
     (demo_world\<lparr>disk := demo_tables\<lparr>t_jobs := []\<rparr>\<rparr>))"
proof -
  have "caller demo_lib default_settings (demo_header demo_admin) demo_world = Inr demo_admin"
    using demo_caller by blast
  moreover have "consistent (demo_tables\<lparr>t_jobs := []\<rparr>)"
    using demo_consistent by (simp add: consistent_def row_wf_def)
  moreover have "filter (visible (u_id demo_admin)) (t_jobs demo_tables) = []"
    by (simp add: demo_defs visible_def)
  moreover have "disk demo_world = demo_tables" by (simp add: demo_world_def)
  ultimately show ?thesis
    using job_no_existence_oracle [OF demo_jwt, of default_settings "demo_header demo_admin" demo_world
        demo_admin _ "[]" "GetJob (demo_header demo_admin) (str_uuid 11)"] demo_consistent
    by simp
qed

end
