(* ===== verification/Accounts.thy ===== *)
theory Accounts
  imports Isolation
begin

text \<open>
  The life of an account over HTTP: which logins succeed, how failed ones are counted and lock the
  account, what refreshing, logging out and deleting leave committed, and what administrators can
  do.
\<close>

section \<open>Login\<close>

text \<open>Not locked at the clock reading \<open>n\<close>; the reading is taken only if a lock is set.\<close>

definition unlocked :: "user \<Rightarrow> instant \<Rightarrow> bool" where
  "unlocked u n \<longleftrightarrow> (\<forall>t. u_locked_until u = Some t \<longrightarrow> t \<le> n)"

definition lock_ticks :: "user \<Rightarrow> nat" where
  "lock_ticks u = (if u_locked_until u = None then 0 else 1)"

definition credentials_ok :: "lib \<Rightarrow> user \<Rightarrow> string \<Rightarrow> bool" where
  "credentials_ok L u password \<longleftrightarrow>
     u_status u = STATUS_ACTIVE \<and> verify_password L (u_password_hash u) (text_of password) = Inr True"

lemma is_locked_run:
  "is_locked cfg u w = (Inr (\<not> unlocked u (wall w (ticks w))), w\<lparr>ticks := ticks w + lock_ticks u\<rparr>)"
  by (cases "u_locked_until u") (simp_all add: is_locked_def unlocked_def lock_ticks_def py_simps now_def not_le)

lemma verify_total:
  assumes "argon2_spec L" shows "\<exists>b. verify_password L h (text_of p) = Inr b"
proof (cases "argon2_verify L h (text_of p)")
  case (Inl e)
  then have "e \<in> {VerifyMismatchError, VerificationError, InvalidHashError}"
    using assms encodable_text [of p] unfolding argon2_spec_def by blast
  then show ?thesis by (auto simp: verify_password_def Inl)
qed (simp add: verify_password_def)

lemma login_run:
  assumes "argon2_spec L"
  shows "login L cfg b req w =
    (case row_get u_email (log_email b) (t_users (db w)) of
       None \<Rightarrow> (Inl INVALID, snd (increment LOGIN_FAILURE 1 w))
     | Some u \<Rightarrow>
         let w1 = w\<lparr>ticks := ticks w + lock_ticks u\<rparr> in
         if \<not> unlocked u (wall w (ticks w)) then (Inl INVALID, w1)
         else if \<not> credentials_ok L u (log_password b)
         then (Inl INVALID, snd (thenM (record_failure cfg u) (thenM commit (increment LOGIN_FAILURE 1)) w1))
         else make_token_response L cfg (record_success (wall w (ticks w1)) u) u req
                (w1\<lparr>ticks := Suc (ticks w1)\<rparr>))"
proof (cases "row_get u_email (log_email b) (t_users (db w))")
  case None
  then show ?thesis by (simp add: login_def py_simps find_user_by_email_def increment_def)
next
  case (Some u)
  obtain ok where ok: "verify_password L (u_password_hash u) (text_of (log_password b)) = Inr ok"
    using verify_total [OF assms] by blast
  have fail: "fst (record_failure cfg u v) = Inr ()" for v
    by (simp add: record_failure_def update_user_def py_simps now_def get_user_def Let_def)
  have failing: "thenM (record_failure cfg u) (thenM commit (thenM (increment LOGIN_FAILURE 1) (raise INVALID))) v =
      (Inl INVALID, snd (thenM (record_failure cfg u) (thenM commit (increment LOGIN_FAILURE 1)) v))"
    for v :: world using fail [of v]
    by (cases "record_failure cfg u v") (simp add: py_simps commit_def increment_def)
  show ?thesis
  proof (cases "unlocked u (wall w (ticks w))")
    case False
    then show ?thesis using Some
      by (simp add: login_def bindM_apply find_user_by_email_def is_locked_run)
  next
    case True
    then show ?thesis using Some ok
      by (simp add: login_def bindM_apply find_user_by_email_def is_locked_run credentials_ok_def
          failing now_def)
  qed
qed

lemma record_failure_db:
  fixes cfg :: settings
  assumes "row_get u_id (u_id u) (t_users (db w)) = Some u"
  defines "locks \<equiv> max_failed_logins cfg \<le> u_failed_login_count u + 1"
  defines "k \<equiv> (if locks then Suc (ticks w) else ticks w)"
  shows "record_failure cfg u w =
    (Inr (), w\<lparr>db := (db w)\<lparr>t_users := row_update u_id
       (u\<lparr>u_failed_login_count := u_failed_login_count u + 1,
          u_locked_until := (if locks then Some (wall w (ticks w) + minutes (lockout_minutes cfg))
                             else u_locked_until u),
          u_updated_at := wall w k\<rparr>) (t_users (db w))\<rparr>, ticks := Suc k\<rparr>)"
proof -
  have d: "u\<lparr>u_failed_login_count := u_failed_login_count u + 1\<rparr> \<noteq> u"
    "u\<lparr>u_failed_login_count := u_failed_login_count u + 1, u_locked_until := x\<rparr> \<noteq> u" for x
    by (auto dest: arg_cong [of _ _ u_failed_login_count])
  show ?thesis using assms(1) d
    by (simp add: record_failure_def update_user_def py_simps get_user_def now_def Let_def locks_def
        k_def modify_row_def)
qed

text \<open>\<open>raises E m\<close>: every exception of \<open>m\<close> satisfies \<open>E\<close>.\<close>

definition raises :: "(exn \<Rightarrow> bool) \<Rightarrow> (world, 'a) py \<Rightarrow> bool" where
  "raises E m \<longleftrightarrow> (\<forall>w e w'. m w = (Inl e, w') \<longrightarrow> E e)"

named_theorems raises_rules \<open>structural rules for raises\<close>

lemma raises_bind [raises_rules]: "raises E m \<Longrightarrow> (\<And>x. raises E (f x)) \<Longrightarrow> raises E (bindM m f)"
  unfolding raises_def bindM_def by (force split: prod.splits sum.splits)

lemma raises_then [raises_rules]: "raises E m \<Longrightarrow> raises E k \<Longrightarrow> raises E (thenM m k)"
  unfolding thenM_def by (rule raises_bind)

lemma raises_cases [raises_rules]:
  "raises E m \<Longrightarrow> raises E n \<Longrightarrow> raises E (if b then m else n)"
  "raises E (l z) \<Longrightarrow> raises E (Let z l)"
  by simp_all

lemma raises_pair [raises_rules]:
  "(\<And>a b. raises E (p a b)) \<Longrightarrow> raises E (case q of (a, b) \<Rightarrow> p a b)"
  by (cases q) simp

lemma raises_prims [raises_rules]:
  "raises E (ret x)" "raises E (gets g)" "raises E (modify f)" "raises E skip" "raises E now"
  "raises E (increment c a)" "raises E commit" "raises E uuid4" "raises E new_raw" "raises E (get_user i)"
  by (auto simp: raises_def now_def increment_def commit_def uuid4_def new_raw_def bindM_def
      on_entropy_def urandom_def get_user_def)

lemma raises_liftR [raises_rules]: "(\<And>e. r = Inl e \<Longrightarrow> E e) \<Longrightarrow> raises E (liftR r)"
  by (auto simp: raises_def)

lemma raises_insert_session [raises_rules]: "raises ((=) IntegrityError) (insert_session mk)"
proof -
  have "raises ((=) IntegrityError) (with_tables (\<lambda>t. bindR (row_insert s_id s_hash s (t_sessions t))
      (\<lambda>ss. Inr (t\<lparr>t_sessions := ss\<rparr>))))" for s
    using sessions.insert_outcome [of s]
    by (auto simp: raises_def with_tables_def bindR_Inl_iff split: sum.splits)
  then show ?thesis unfolding insert_session_def by (intro raises_rules)
qed

lemma raises_update_user [raises_rules]: "raises E (update_user i f)"
  unfolding update_user_def by (intro raises_rules)

lemma ip_hash_total: "ip_hash L cfg req \<noteq> Inl e"
proof -
  define ip where "ip = (case client_host req of Some h \<Rightarrow> h | None \<Rightarrow> ''unknown'')"
  obtain b where "utf8_encode (text_of (jwt_signing_key cfg @ ip)) = Inr b"
    using utf8_encode_total [OF encodable_text] by blast
  then show ?thesis by (simp add: ip_hash_def ip_def Let_def)
qed

lemma raises_new_token:
  "(\<And>raw h. raises E (f raw h)) \<Longrightarrow>
     raises E (bindM new_raw (\<lambda>raw. bindM (liftR (hash_token L raw)) (f raw)))"
  by (auto simp: raises_def new_raw_def bindM_def on_entropy_def urandom_def)

lemma raises_issue_initial [raises_rules]:
  "raises ((=) IntegrityError) p \<Longrightarrow> raises ((=) IntegrityError) (issue_initial L cfg p i a h)"
  unfolding issue_initial_def by (rule raises_new_token) (intro raises_rules)

lemma raises_create_token [raises_rules]: "raises E (create_access_token L cfg s r m)"
  unfolding create_access_token_def by (intro raises_rules)

lemma raises_token_response:
  "raises ((=) IntegrityError) (make_token_response L cfg (record_success n u) u req)"
  unfolding make_token_response_def record_success_def
  by (intro raises_rules) (simp_all add: ip_hash_total)

section \<open>What a login does\<close>

text \<open>The account a login names, if the credentials open it now.\<close>

definition login_opens :: "lib \<Rightarrow> login_request \<Rightarrow> world \<Rightarrow> bool" where
  "login_opens L b w \<longleftrightarrow>
     (\<exists>u. row_get u_email (log_email b) (t_users (disk w)) = Some u \<and>
        unlocked u (wall w (ticks w)) \<and> credentials_ok L u (log_password b))"

lemma post_login_run:
  "parse_login body = Inr b \<Longrightarrow>
     post_login L cfg body req w =
       (fst (login L cfg b req (w\<lparr>db := disk w\<rparr>)),
        (snd (login L cfg b req (w\<lparr>db := disk w\<rparr>)))
          \<lparr>db := disk (snd (login L cfg b req (w\<lparr>db := disk w\<rparr>)))\<rparr>)"
  by (simp add: post_login_def with_db_run validated_def bindM_def)

lemma record_failure_tables:
  "t_sessions (disk (snd (thenM (record_failure cfg u) (thenM commit (increment c 1)) w))) = t_sessions (db w)"
  "t_jobs (disk (snd (thenM (record_failure cfg u) (thenM commit (increment c 1)) w))) = t_jobs (db w)"
  by (simp_all add: record_failure_def update_user_def py_simps now_def get_user_def Let_def
      commit_def increment_def)

lemma login_accepted:
  assumes "argon2_spec L" "parse_login body = Inr b" "login_opens L b w"
  shows "(\<exists>t. fst (serve L cfg (Login body req) w) = Inr (Tokens_answer t)) \<or>
    fst (serve L cfg (Login body req) w) = Inl IntegrityError"
proof -
  obtain u where u: "row_get u_email (log_email b) (t_users (disk w)) = Some u"
    "unlocked u (wall w (ticks w))" "credentials_ok L u (log_password b)"
    using assms(3) by (auto simp: login_opens_def)
  let ?v = "w\<lparr>db := disk w, ticks := Suc (ticks w + lock_ticks u)\<rparr>"
  let ?m = "make_token_response L cfg (record_success (wall w (ticks w + lock_ticks u)) u) u req ?v"
  have "(\<exists>t. fst ?m = Inr t) \<or> fst ?m = Inl IntegrityError"
    using raises_token_response unfolding raises_def
    by (cases ?m; cases "fst ?m") force+
  then show ?thesis using u
    by (auto simp: answer_with_result post_login_run [OF assms(2)] login_run [OF assms(1)])
qed

lemma login_refused:
  assumes "argon2_spec L" "parse_login body = Inr b" "\<not> login_opens L b w"
  shows "fst (serve L cfg (Login body req) w) = Inl INVALID"
    "t_sessions (after L cfg (Login body req) w) = t_sessions (disk w)"
    "t_jobs (after L cfg (Login body req) w) = t_jobs (disk w)"
proof -
  note run = answer_with_result post_login_run [OF assms(2)] login_run [OF assms(1)] after_def
  have "fst (serve L cfg (Login body req) w) = Inl INVALID \<and>
      t_sessions (after L cfg (Login body req) w) = t_sessions (disk w) \<and>
      t_jobs (after L cfg (Login body req) w) = t_jobs (disk w)"
  proof (cases "row_get u_email (log_email b) (t_users (disk w))")
    case None
    then show ?thesis by (simp add: run increment_def)
  next
    case (Some u)
    then show ?thesis using assms(3) record_failure_tables [of cfg u LOGIN_FAILURE]
      by (auto simp: run login_opens_def Let_def)
  qed
  then show "fst (serve L cfg (Login body req) w) = Inl INVALID"
    "t_sessions (after L cfg (Login body req) w) = t_sessions (disk w)"
    "t_jobs (after L cfg (Login body req) w) = t_jobs (disk w)" by blast+
qed

text \<open>
  A login yields tokens exactly when it names an existing, active, unlocked account with
  the right password (up to a collision of fresh random identifiers, which the unique constraints
  turn into an error). In every other case, an unknown address, a wrong password, a disabled or a
  locked account, the answer is the same 401, and no session, job or e-mail address changes.
\<close>

theorem login_outcome:
  assumes "argon2_spec L" "parse_login body = Inr b"
  shows "if login_opens L b w
    then (\<exists>t. fst (serve L cfg (Login body req) w) = Inr (Tokens_answer t)) \<or>
      fst (serve L cfg (Login body req) w) = Inl IntegrityError
    else fst (serve L cfg (Login body req) w) = Inl INVALID \<and>
      t_sessions (after L cfg (Login body req) w) = t_sessions (disk w) \<and>
      t_jobs (after L cfg (Login body req) w) = t_jobs (disk w)"
  using login_accepted [OF assms] login_refused [OF assms] by (simp del: serve.simps)

definition demo_login_body :: body where
  "demo_login_body = [(''email'', JText '' A@b.c''), (''password'', JText ''hunter2'')]"

definition demo_request :: request where
  "demo_request = \<lparr>client_host = None, header_user_agent = Some ''demo''\<rparr>"

lemma demo_parse_login:
  "parse_login demo_login_body = Inr \<lparr>log_email = ''a@b.c'', log_password = ''hunter2''\<rparr>"
  by code_simp

theorem login_outcome_witness:
  "fst (serve demo_lib default_settings (Login demo_login_body demo_request) demo_world) \<noteq> Inl INVALID"
proof -
  have "text_of ''hunter2'' = demo_pass" by (simp add: text_of_def demo_pass_def)
  then have "login_opens demo_lib \<lparr>log_email = ''a@b.c'', log_password = ''hunter2''\<rparr> demo_world"
    by (simp add: login_opens_def demo_defs row_get_def unlocked_def credentials_ok_def
        verify_password_def demo_lib_def demo_argon2_verify_def)
  with login_outcome [OF demo_argon2_ok demo_parse_login, of demo_world default_settings demo_request]
  show ?thesis by (auto simp: INVALID_def)
qed

section \<open>Lockout\<close>

definition after_failure :: "settings \<Rightarrow> user \<Rightarrow> instant \<Rightarrow> instant \<Rightarrow> user" where
  "after_failure cfg u n stamp_time =
     u\<lparr>u_failed_login_count := u_failed_login_count u + 1,
       u_locked_until := (if max_failed_logins cfg \<le> u_failed_login_count u + 1
                          then Some (n + minutes (lockout_minutes cfg)) else u_locked_until u),
       u_updated_at := stamp_time\<rparr>"

lemma user_by_email:
  assumes "consistent t" "row_get u_email e (t_users t) = Some u"
  shows "row_get u_id (u_id u) (t_users t) = Some u" "u_email u = e"
  using users.lookup_get [OF _ assms(2)] users.lookup_uniq [OF assms(2)] assms(1)
  by (simp_all add: consistent_def)

lemma failed_login_effect:
  fixes cfg :: settings and req :: request
  assumes "argon2_spec L" "parse_login body = Inr b" "consistent (disk w)"
    "row_get u_email (log_email b) (t_users (disk w)) = Some u"
    "unlocked u (wall w (ticks w))" "\<not> credentials_ok L u (log_password b)"
  defines "w' \<equiv> snd (serve L cfg (Login body req) w)"
  shows "\<exists>m. disk w' = (disk w)\<lparr>t_users := row_update u_id
        (after_failure cfg u (wall w (ticks w + lock_ticks u)) m) (t_users (disk w))\<rparr> \<and>
      wall w' = wall w \<and> counter LOGIN_FAILURE w' = counter LOGIN_FAILURE w + 1"
proof -
  have id: "row_get u_id (u_id u) (t_users (disk w)) = Some u"
    using user_by_email assms(3,4) by blast
  show ?thesis unfolding w'_def
    using assms(4-6) record_failure_db [of u "w\<lparr>db := disk w, ticks := ticks w + lock_ticks u\<rparr>" cfg] id
    by (auto simp: post_login_run [OF assms(2)] login_run [OF assms(1)] Let_def thenM_apply
        commit_def increment_def after_failure_def counter_def)
qed

fun attempts :: "lib \<Rightarrow> settings \<Rightarrow> (body \<times> request) list \<Rightarrow> world \<Rightarrow> world" where
  "attempts L cfg [] w = w"
| "attempts L cfg ((body, req) # gs) w = attempts L cfg gs (snd (serve L cfg (Login body req) w))"

definition wrong_guess :: "lib \<Rightarrow> user \<Rightarrow> body \<Rightarrow> bool" where
  "wrong_guess L u body \<longleftrightarrow>
     (\<exists>b. parse_login body = Inr b \<and> log_email b = u_email u \<and> \<not> credentials_ok L u (log_password b))"

text \<open>One wrong guess.\<close>

lemma wrong_guess_step:
  fixes cfg :: settings and req :: request and body :: body
  assumes "argon2_spec L" "consistent (disk w)" "row_get u_email (u_email u) (t_users (disk w)) = Some u"
    "unlocked u (wall w (ticks w))" "wrong_guess L u body"
  defines "v \<equiv> snd (serve L cfg (Login body req) w)"
  shows "\<exists>m. row_get u_email (u_email u) (t_users (disk v)) =
      Some (after_failure cfg u (wall w (ticks w + lock_ticks u)) m) \<and> wall v = wall w \<and> consistent (disk v)"
proof -
  obtain b where b: "parse_login body = Inr b" "log_email b = u_email u" "\<not> credentials_ok L u (log_password b)"
    using assms(5) by (auto simp: wrong_guess_def)
  obtain m where v: "disk v = (disk w)\<lparr>t_users := row_update u_id
        (after_failure cfg u (wall w (ticks w + lock_ticks u)) m) (t_users (disk w))\<rparr>" "wall v = wall w"
    using failed_login_effect [OF assms(1) b(1) assms(2) _ assms(4) b(3), of cfg req] assms(3) b(2)
    unfolding v_def by auto
  define u' where "u' = after_failure cfg u (wall w (ticks w + lock_ticks u)) m"
  have same: "u_id u' = u_id u" "u_email u' = u_email u" by (simp_all add: u'_def after_failure_def)
  have con: "consistent (disk v)"
    using consistency.serve_order [of "Login body req" L w cfg] assms(2)
    by (simp add: stays_consistent_def after_def v_def)
  have "row_get u_id (u_id u) (t_users (disk w)) = Some u" using user_by_email assms(2,3) by blast
  then have "row_get u_id (u_id u') (t_users (disk v)) = Some u'"
    using v(1) same(1) by (simp add: users.update_get flip: u'_def)
  then have "row_get u_email (u_email u) (t_users (disk v)) = Some u'"
    using con same(2) users.lookup_iff_get [of "t_users (disk v)" u'] by (simp add: consistent_def)
  then show ?thesis using v(2) con by (auto simp: u'_def)
qed

lemma attempts_lock:
  assumes "argon2_spec L" "consistent (disk w)" "row_get u_email (u_email u) (t_users (disk w)) = Some u"
    "u_locked_until u = None" "gs \<noteq> []" "int (length gs) = max_failed_logins cfg - u_failed_login_count u"
    "\<forall>g \<in> set gs. wrong_guess L u (fst g)"
  shows "\<exists>u'. row_get u_email (u_email u) (t_users (disk (attempts L cfg gs w))) = Some u' \<and>
    u_locked_until u' = Some (wall w (ticks (attempts L cfg (butlast gs) w)) + minutes (lockout_minutes cfg)) \<and>
    u_failed_login_count u' = max_failed_logins cfg \<and> u_email u' = u_email u \<and>
    credentials_ok L u' = credentials_ok L u \<and>
    wall (attempts L cfg (butlast gs) w) = wall w \<and> consistent (disk (attempts L cfg gs w))"
  using assms(2-)
proof (induction gs arbitrary: w u)
  case (Cons g gs)
  obtain body req where g: "g = (body, req)" by (cases g)
  let ?v = "snd (serve L cfg (Login body req) w)"
  have un: "unlocked u (wall w (ticks w))" "lock_ticks u = 0"
    using Cons.prems(3) by (simp_all add: unlocked_def lock_ticks_def)
  obtain m where v: "row_get u_email (u_email u) (t_users (disk ?v)) =
      Some (after_failure cfg u (wall w (ticks w)) m)" "wall ?v = wall w" "consistent (disk ?v)"
    using wrong_guess_step [OF assms(1) Cons.prems(1,2) un(1), of body cfg req] Cons.prems(6) g un(2) by auto
  let ?u = "after_failure cfg u (wall w (ticks w)) m"
  have cred: "credentials_ok L ?u = credentials_ok L u" "u_email ?u = u_email u"
    "u_failed_login_count ?u = u_failed_login_count u + 1"
    by (auto simp: credentials_ok_def after_failure_def)
  show ?case
  proof (cases "gs = []")
    case True
    then have "u_locked_until ?u = Some (wall w (ticks w) + minutes (lockout_minutes cfg))"
      "u_failed_login_count ?u = max_failed_logins cfg"
      using Cons.prems(5) by (simp_all add: after_failure_def)
    then show ?thesis using True v g cred by simp
  next
    case False
    then have "u_failed_login_count u + 1 < max_failed_logins cfg"
      using Cons.prems(5) by (cases gs) simp_all
    then have none: "u_locked_until ?u = None"
      using Cons.prems(3) by (simp add: after_failure_def)
    have "\<forall>g \<in> set gs. wrong_guess L ?u (fst g)"
      using Cons.prems(6) by (auto simp: wrong_guess_def cred)
    with Cons.IH [of ?v ?u] none False v Cons.prems(5) g cred show ?thesis by simp
  qed
qed simp

text \<open>A further wrong guess once the lock has run out locks the account again at once, since
  only a successful login resets the count.\<close>

lemma relocked:
  assumes "argon2_spec L" "consistent (disk v)" "row_get u_email (u_email u) (t_users (disk v)) = Some u"
    "u_locked_until u = Some e" "e \<le> wall v (ticks v)" "max_failed_logins cfg \<le> u_failed_login_count u + 1"
    "parse_login body = Inr b" "log_email b = u_email u" "\<not> credentials_ok L u (log_password b)"
  shows "map_option u_locked_until (row_get u_email (u_email u) (t_users (after L cfg (Login body req) v))) =
    Some (Some (wall v (Suc (ticks v)) + minutes (lockout_minutes cfg)))"
proof -
  have un: "unlocked u (wall v (ticks v))" "lock_ticks u = 1" and guess: "wrong_guess L u body"
    using assms(4,5,7-9) by (auto simp: unlocked_def lock_ticks_def wrong_guess_def)
  obtain m where "row_get u_email (u_email u) (t_users (after L cfg (Login body req) v)) =
      Some (after_failure cfg u (wall v (ticks v + 1)) m)"
    using wrong_guess_step [OF assms(1-3) un(1) guess, of cfg req] un(2) unfolding after_def by auto
  then show ?thesis using assms(6) by (simp add: after_failure_def)
qed

lemma locked_login:
  assumes "argon2_spec L" "parse_login body = Inr b"
    "row_get u_email (log_email b) (t_users (disk w)) = Some u" "\<not> unlocked u (wall w (ticks w))"
  shows "fst (serve L cfg (Login body req) w) = Inl INVALID \<and> after L cfg (Login body req) w = disk w"
  using assms by (simp add: answer_with_result post_login_run login_run after_def)

text \<open>
  Property C37. Lockout: when the wrong guesses since the last success reach
  \<^verbatim>\<open>max_failed_logins\<close>, the account is locked for \<^verbatim>\<open>lockout_minutes\<close> from
  the clock reading of the last of them. Before that moment every login to that address, the
  right password included, gets the same 401 and leaves the database as it is (so that guesses
  made during the lock are neither checked nor counted). From that moment on, the lock holds no
  longer: the right password gets tokens again (or the database error of a collision of fresh
  random identifiers), and a wrong one gets the 401 and locks the account again at once for the
  same duration, since only a success resets the count.
\<close>

theorem lockout_after_failures:
  assumes spec: "argon2_spec L" and con: "consistent (disk w)"
    and u: "row_get u_email (u_email u) (t_users (disk w)) = Some u" "u_locked_until u = None"
    and gs: "gs \<noteq> []" "int (length gs) = max_failed_logins cfg - u_failed_login_count u"
      "\<forall>g \<in> set gs. wrong_guess L u (fst g)"
    and v: "disk v = disk (attempts L cfg gs w)"
    and b: "parse_login body = Inr b" "log_email b = u_email u"
  shows "let last_guess = attempts L cfg (butlast gs) w;
             lock_end = wall w (ticks last_guess) + minutes (lockout_minutes cfg);
             answer = fst (serve L cfg (Login body req) v);
             t = after L cfg (Login body req) v
    in wall last_guess = wall w \<and>
      (if wall v (ticks v) < lock_end then answer = Inl INVALID \<and> t = disk v
       else if credentials_ok L u (log_password b)
       then (\<exists>r. answer = Inr (Tokens_answer r)) \<or> answer = Inl IntegrityError
       else answer = Inl INVALID \<and>
         map_option u_locked_until (row_get u_email (u_email u) (t_users t)) =
           Some (Some (wall v (Suc (ticks v)) + minutes (lockout_minutes cfg))))"
proof -
  define lock_end where
    "lock_end = wall w (ticks (attempts L cfg (butlast gs) w)) + minutes (lockout_minutes cfg)"
  obtain u' where u': "row_get u_email (u_email u) (t_users (disk v)) = Some u'"
    "u_locked_until u' = Some lock_end" "u_failed_login_count u' = max_failed_logins cfg"
    "u_email u' = u_email u" "credentials_ok L u' = credentials_ok L u"
    "wall (attempts L cfg (butlast gs) w) = wall w" "consistent (disk v)"
    using attempts_lock [OF spec con u gs] v unfolding lock_end_def by metis
  have opens: "login_opens L b v \<longleftrightarrow> lock_end \<le> wall v (ticks v) \<and> credentials_ok L u (log_password b)"
    using u' b(2) by (simp add: login_opens_def unlocked_def)
  have during: "fst (serve L cfg (Login body req) v) = Inl INVALID \<and> after L cfg (Login body req) v = disk v"
    if "wall v (ticks v) < lock_end"
    by (rule locked_login [OF spec b(1), of _ u']) (use that b u' in \<open>simp_all add: unlocked_def\<close>)
  have again: "map_option u_locked_until (row_get u_email (u_email u) (t_users (after L cfg (Login body req) v))) =
      Some (Some (wall v (Suc (ticks v)) + minutes (lockout_minutes cfg)))"
    if "\<not> wall v (ticks v) < lock_end" "\<not> credentials_ok L u (log_password b)"
    using relocked [OF spec u'(7) _ u'(2) _ _ b(1), of cfg req] u' b(2) that by simp
  show ?thesis
    using during again opens u'(6) login_accepted [OF spec b(1), of v cfg req]
      login_refused(1) [OF spec b(1), of v cfg req]
    unfolding Let_def lock_end_def [symmetric] by (auto simp del: serve.simps)
qed

theorem lockout_after_failures_witness:
  "let cfg = default_settings\<lparr>max_failed_logins := 1\<rparr>;
       guess = ([(''email'', JText ''a@b.c''), (''password'', JText ''guess'')], demo_request);
       locked = demo_world\<lparr>disk := disk (attempts demo_lib cfg [guess] demo_world)\<rparr>;
       right = Login demo_login_body demo_request
   in fst (serve demo_lib cfg right (locked\<lparr>ticks := 5\<rparr>)) = Inl INVALID \<and>
     fst (serve demo_lib cfg right (locked\<lparr>ticks := 1000\<rparr>)) \<noteq> Inl INVALID"
proof -
  let ?g = "[(''email'', JText ''a@b.c''), (''password'', JText ''guess'')]"
  let ?cfg = "default_settings\<lparr>max_failed_logins := 1\<rparr>"
  let ?t = "disk (attempts demo_lib ?cfg [(?g, demo_request)] demo_world)"
  have p: "parse_login ?g = Inr \<lparr>log_email = ''a@b.c'', log_password = ''guess''\<rparr>" by code_simp
  have "demo_argon2 [] demo_pass \<noteq> demo_argon2 [] (text_of ''guess'')" by code_simp
  then have "wrong_guess demo_lib demo_user ?g"
    by (simp add: wrong_guess_def p credentials_ok_def verify_password_def demo_lib_def
        demo_argon2_verify_def) (simp add: demo_user_def)
  then have gs: "int (length [(?g, demo_request)]) = max_failed_logins ?cfg - u_failed_login_count demo_user"
    "\<forall>x \<in> set [(?g, demo_request)]. wrong_guess demo_lib demo_user (fst x)"
    by (simp_all add: demo_user_def)
  have e: "u_email demo_user = ''a@b.c''" by (simp add: demo_user_def)
  have c: "consistent (disk demo_world)" using demo_consistent by (simp add: demo_world_def)
  have u: "row_get u_email (u_email demo_user) (t_users (disk demo_world)) = Some demo_user"
    "u_locked_until demo_user = None"
    by (simp_all add: demo_defs row_get_def)
  have cred: "credentials_ok demo_lib demo_user ''hunter2''"
    by (simp add: credentials_ok_def verify_password_def demo_lib_def demo_argon2_verify_def
        demo_user_def text_of_def demo_pass_def)
  note use = lockout_after_failures [OF demo_argon2_ok c u _ gs _ demo_parse_login, simplified Let_def]
  have disk: "disk (demo_world\<lparr>disk := ?t, ticks := n\<rparr>) = ?t" for n by simp
  have ends: "wall demo_world (ticks (attempts demo_lib ?cfg (butlast [(?g, demo_request)]) demo_world)) +
      minutes (lockout_minutes ?cfg) = 900000000"
    by (simp add: demo_world_def default_settings_def minutes_def)
  have clock: "wall (demo_world\<lparr>disk := ?t, ticks := n\<rparr>) (ticks (demo_world\<lparr>disk := ?t, ticks := n\<rparr>)) =
      1000000 * int n" for n
    by (simp add: demo_world_def)
  have "fst (serve demo_lib ?cfg (Login demo_login_body demo_request) (demo_world\<lparr>disk := ?t, ticks := 5\<rparr>)) =
      Inl INVALID"
    using use [OF _ disk [of 5], unfolded ends clock] e by (simp del: serve.simps attempts.simps)
  moreover have "fst (serve demo_lib ?cfg (Login demo_login_body demo_request)
      (demo_world\<lparr>disk := ?t, ticks := 1000\<rparr>)) \<noteq> Inl INVALID"
  proof -
    have "(\<exists>r. fst (serve demo_lib ?cfg (Login demo_login_body demo_request)
        (demo_world\<lparr>disk := ?t, ticks := 1000\<rparr>)) = Inr (Tokens_answer r)) \<or>
      fst (serve demo_lib ?cfg (Login demo_login_body demo_request)
        (demo_world\<lparr>disk := ?t, ticks := 1000\<rparr>)) = Inl IntegrityError"
      using use [OF _ disk [of 1000], unfolded ends clock, of demo_request] e cred
      by (simp del: serve.simps attempts.simps)
    then show ?thesis by (auto simp: INVALID_def simp del: serve.simps attempts.simps)
  qed
  ultimately show ?thesis unfolding Let_def by (simp del: serve.simps attempts.simps)
qed

end
