(* ===== verification/Workflows.thy ===== *)
theory Workflows
  imports Accounts
begin

text \<open>
  Embedding and extraction over HTTP: the engine, the upload validation and the job records
  together. What one user embeds comes back, through the validation of the saved PNG, for
  whoever uploads it with the passphrase.
\<close>

section \<open>Handlers in closed form\<close>

lemma load_png_ok:
  assumes "fst (validate_png L (max_upload_bytes cfg) (max_image_dimension cfg) (max_decoded_pixels cfg)
      (file_bytes f) (bomb_limit w)) = Inr im"
  shows "load_png L cfg f w = (Inr (im, file_bytes f), w)"
proof -
  have "validate_png L (max_upload_bytes cfg) (max_image_dimension cfg) (max_decoded_pixels cfg)
      (file_bytes f) (bomb_limit w) = (Inr im, bomb_limit w)"
    using assms by (auto simp: validate_png_run split: sum.splits if_splits)
  moreover have "int (length (file_bytes f)) \<le> max_upload_bytes cfg"
    using assms by (simp add: validate_png_caught)
  ultimately show ?thesis by (simp add: load_png_def py_simps on_limit_def Let_def)
qed

lemma insert_job_outcome:
  "(\<exists>j v. insert_job mk w = (Inr j, v)) \<or> (\<exists>v. insert_job mk w = (Inl IntegrityError, v))"
proof (cases "insert_job mk w")
  case (Pair r v)
  have "raises ((=) IntegrityError) (with_tables (\<lambda>t. bindR (row_insert j_id j_id j (t_jobs t))
      (\<lambda>js. Inr (t\<lparr>t_jobs := js\<rparr>))))" for j
    using jobs.insert_outcome [of j]
    by (auto simp: raises_def with_tables_def bindR_Inl_iff split: sum.splits)
  then have "raises ((=) IntegrityError) (insert_job mk)"
    unfolding insert_job_def by (intro raises_rules)
  then show ?thesis using Pair by (cases r) (auto simp: raises_def)
qed

lemma embed_job_result:
  fixes w :: world
  assumes "load_png L cfg f w = (Inr (im, raw), w)" "utf8_encode payload = Inr p"
    "int (length p) \<le> cfg_max_payload_bytes cfg" "encodable (case filename f of Some n \<Rightarrow> n | None \<Rightarrow> [])"
    "embed_payload L im p pw (rnd w) = (Inr png, E)"
  shows "(\<exists>r. fst (embed_job L cfg f pw payload u w) = Inr r \<and> content r = png) \<or>
    fst (embed_job L cfg f pw payload u w) = Inl IntegrityError"
proof -
  obtain n where n: "utf8_encode (case filename f of Some n \<Rightarrow> n | None \<Rightarrow> []) = Inr n"
    using utf8_encode_total [OF assms(4)] by blast
  obtain start v where v: "perf_counter w = (Inr start, v)" "rnd v = rnd w"
    by (simp add: perf_counter_def)
  define v1 where "v1 = v\<lparr>rnd := E\<rparr>"
  have e: "on_entropy (embed_payload L im p pw) v = (Inr png, v1)"
    using assms(5) v(2) by (simp add: on_entropy_def v1_def)
  obtain stop v2 where v2: "perf_counter v1 = (Inr stop, v2)" by (simp add: perf_counter_def)
  define mk where "mk = (\<lambda>i created. (new_job (u_id u) JOB_EMBED JOB_SUCCEEDED i created)
         \<lparr>j_source_filename_hash := Some (hexdigest (sha256 L n)),
          j_input_size := Some (int (length raw)), j_output_size := Some (int (length png)),
          j_payload_size := Some (int (length p)),
          j_capacity_utilization := Some (100 * int (length p) div max (max_payload_bytes im) 1),
          j_algorithm_version := Some 1, j_artifact_checksum := Some (hexdigest (sha256 L png)),
          j_processing_time_ms := Some (elapsed_ms start stop)\<rparr>)"
  have run: "embed_job L cfg f pw payload u w =
      bindM (insert_job mk) (\<lambda>job. thenM commit (thenM (increment EMBED_JOB 1)
       (ret \<lparr>content = png, x_job_id = Some (str_uuid (j_id job)),
             x_processing_time_ms = Some (elapsed_ms start stop)\<rparr>))) v2"
    using assms(1-3) n v(1) e v2 by (simp add: embed_job_def bindM_apply py_simps mk_def)
  show ?thesis using insert_job_outcome [of mk v2]
    by (auto simp: run bindM_apply thenM_apply commit_def increment_def)
qed

lemma extract_job_result:
  fixes w :: world
  assumes "load_png L cfg f w = (Inr (im, raw), w)" "extract_payload L im pw = Inr p"
  shows "(\<exists>r. fst (extract_job L cfg f pw u w) = Inr r \<and> content r = p) \<or>
    fst (extract_job L cfg f pw u w) = Inl IntegrityError"
proof -
  define mk where "mk = (\<lambda>i created. (new_job (u_id u) JOB_EXTRACT JOB_SUCCEEDED i created)
       \<lparr>j_payload_size := Some (int (length p)), j_algorithm_version := Some 1\<rparr>)"
  have run: "extract_job L cfg f pw u w =
      bindM (insert_job mk) (\<lambda>_. thenM commit (thenM (increment EXTRACT_JOB 1)
       (ret \<lparr>content = p, x_job_id = None, x_processing_time_ms = None\<rparr>))) w"
    using assms by (simp add: extract_job_def bindM_apply py_simps mk_def)
  show ?thesis using insert_job_outcome [of mk w]
    by (auto simp: run bindM_apply thenM_apply commit_def increment_def)
qed

text \<open>A colour image within the limits survives saving and validation.\<close>

lemma validate_saved:
  assumes "png_spec L" "colour_image im" "int (length (png_save L im)) \<le> mu" "within_limits md mp im'"
    "img_width im = img_width im'" "img_height im = img_height im'"
  shows "fst (validate_png L mu md mp (png_save L im) m) = Inr im"
proof -
  have lim: "int (img_width im * img_height im) \<le> mp"
    using assms(4-6) by (simp add: within_limits_def)
  then have p: "take 8 (png_save L im) = PNG_MAGIC" "pil_open L mp (png_save L im) = Inr ''PNG''"
    "pil_verify L mp (png_save L im) = Inr ()" "pil_load L mp (png_save L im) = Inr im"
    using assms(1,2) unfolding png_spec_def by blast+
  have "png_save L im \<noteq> []" using p(1) by (auto simp: PNG_MAGIC_def)
  moreover have "within_limits md mp im"
    using assms(2,4-6) by (auto simp: within_limits_def colour_image_def)
  ultimately show ?thesis using p assms(3) by (simp add: validate_png_caught decode_png_Inr)
qed

section \<open>The round trip\<close>

text \<open>What an embedding request needs to succeed: an accepted upload with room for the payload, and
  texts that can be encoded.\<close>

definition embeddable :: "lib \<Rightarrow> settings \<Rightarrow> world \<Rightarrow> upload \<Rightarrow> pystr \<Rightarrow> bytes \<Rightarrow> bool" where
  "embeddable L cfg w f pw p \<longleftrightarrow>
     (\<exists>im. fst (validate_png L (max_upload_bytes cfg) (max_image_dimension cfg) (max_decoded_pixels cfg)
           (file_bytes f) (bomb_limit w)) = Inr im \<and> decoded_image im \<and> has_room im (length p)) \<and>
     encodable pw \<and> encodable (case filename f of Some n \<Rightarrow> n | None \<Rightarrow> []) \<and>
     int (length p) \<le> cfg_max_payload_bytes cfg \<and> length p < 2 ^ 31"

text \<open>Extracting, over HTTP, from a file that holds the payload.\<close>

lemma http_extracts:
  assumes spec: "png_spec L" "jwt_spec L" and x: "caller L cfg b v = Inr x"
    and im: "colour_image im" "extract_payload L im pw = Inr p"
      "within_limits (max_image_dimension cfg) (max_decoded_pixels cfg) im0"
      "img_width im = img_width im0" "img_height im = img_height im0"
    and g: "file_bytes g = png_save L im" "int (length (png_save L im)) \<le> max_upload_bytes cfg"
  shows "fst (serve L cfg (Extract b g pw) v) = Inl IntegrityError \<or>
    (\<exists>r. fst (serve L cfg (Extract b g pw) v) = Inr (File_answer r) \<and> content r = p)"
proof -
  define v1 where "v1 = v\<lparr>db := disk v, ticks := Suc (ticks v)\<rparr>"
  have "load_png L cfg g v1 = (Inr (im, file_bytes g), v1)"
    by (intro load_png_ok) (simp add: g(1) validate_saved [OF spec(1) im(1) g(2) im(3-5)])
  from extract_job_result [OF this im(2), of x] show ?thesis
    using caller_state [OF spec(2) x]
    by (auto simp: answer_with_result post_extract_def with_db_run bindM_apply v1_def)
qed

text \<open>
  Property C19. What is embedded over HTTP comes back over HTTP: if a logged-in caller's upload is
  accepted and has room, the embedding request answers with a file (or fails on a repeated random
  job id), and whoever later uploads this file, if it is not over the upload limit, with the same
  passphrase, gets the very bytes of the payload (or the same collision error), whatever happened
  to the service in between.
\<close>

theorem http_embed_extract:
  assumes spec: "engine_spec L" "png_spec L" "jwt_spec L"
    and u: "caller L cfg a w = Inr u"
    and payload: "utf8_encode payload = Inr p" and ok: "embeddable L cfg w f pw p"
  shows "fst (serve L cfg (Embed a f pw payload) w) = Inl IntegrityError \<or>
    (\<exists>r. fst (serve L cfg (Embed a f pw payload) w) = Inr (File_answer r) \<and>
      (\<forall>b v x name. caller L cfg b v = Inr x \<and> int (length (content r)) \<le> max_upload_bytes cfg \<longrightarrow>
        fst (serve L cfg (Extract b \<lparr>filename = name, file_bytes = content r\<rparr> pw) v) = Inl IntegrityError \<or>
        (\<exists>r'. fst (serve L cfg (Extract b \<lparr>filename = name, file_bytes = content r\<rparr> pw) v) =
           Inr (File_answer r') \<and> content r' = p)))"
proof -
  obtain im where im: "fst (validate_png L (max_upload_bytes cfg) (max_image_dimension cfg)
      (max_decoded_pixels cfg) (file_bytes f) (bomb_limit w)) = Inr im" "decoded_image im"
      "has_room im (length p)"
    using ok by (auto simp: embeddable_def)
  have t: "encodable pw" "encodable (case filename f of Some n \<Rightarrow> n | None \<Rightarrow> [])"
    "int (length p) \<le> cfg_max_payload_bytes cfg" "length p < 2 ^ 31"
    using ok by (simp_all add: embeddable_def)
  define w1 where "w1 = w\<lparr>db := disk w, ticks := Suc (ticks w)\<rparr>"
  obtain im' where run: "embed_payload L im p pw (rnd w1) =
      (Inr (png_save L im'), (rnd w1)\<lparr>cursor := cursor (rnd w1) + 28\<rparr>)" "colour_image im'"
      "img_width im' = img_width im" "img_height im' = img_height im" "extract_payload L im' pw = Inr p"
    using embed_payload_extract [OF spec(1) im(2) t(1,4) im(3), of "rnd w1"] by metis
  have "load_png L cfg f w1 = (Inr (im, file_bytes f), w1)"
    using load_png_ok [of L cfg f w1] im(1) by (simp add: w1_def)
  from embed_job_result [OF this payload t(3,2) run(1), of u]
  have embedding: "fst (serve L cfg (Embed a f pw payload) w) = Inl IntegrityError \<or>
    (\<exists>r. fst (serve L cfg (Embed a f pw payload) w) = Inr (File_answer r) \<and> content r = png_save L im')"
    using caller_state [OF spec(3) u]
    by (auto simp: answer_with_result post_embed_def with_db_run bindM_apply w1_def)
  have "within_limits (max_image_dimension cfg) (max_decoded_pixels cfg) im"
    using im(1) by (simp add: validate_png_caught)
  note extraction = http_extracts [OF spec(2,3) _ run(2,5) this run(3,4)]
  show ?thesis
  proof (cases "fst (serve L cfg (Embed a f pw payload) w) = Inl IntegrityError")
    case False
    then obtain r where r: "fst (serve L cfg (Embed a f pw payload) w) = Inr (File_answer r)"
      "content r = png_save L im'" using embedding by blast
    show ?thesis
      by (intro disjI2 exI [of _ r] conjI r allI impI extraction) (use r(2) in auto)
  qed blast
qed

text \<open>The demonstration upload: the saved demonstration image.\<close>

definition demo_upload :: upload where
  "demo_upload = \<lparr>filename = Some [97], file_bytes = png_save demo_lib demo_image\<rparr>"

lemma demo_save_length: "length (png_save demo_lib demo_image) = 1251"
  by (simp add: demo_lib_def demo_save_def PNG_MAGIC_def demo_image_def)

theorem http_embed_extract_witness:
  "fst (serve demo_lib default_settings (Embed (demo_header demo_user) demo_upload demo_pass [104, 105])
     demo_world) = Inl IntegrityError \<or>
   (\<exists>r. fst (serve demo_lib default_settings (Embed (demo_header demo_user) demo_upload demo_pass [104, 105])
     demo_world) = Inr (File_answer r))"
proof -
  have "within_limits 4096 16000000 demo_image" by (simp add: within_limits_def)
  then have "fst (validate_png demo_lib (10 * 1024 * 1024) 4096 16000000 (png_save demo_lib demo_image) m) =
      Inr demo_image" for m
    using validate_saved [OF demo_png demo_image_colour, of "10 * 1024 * 1024" 4096 16000000 demo_image]
      demo_save_length by simp
  moreover have "encodable [97]" by (simp add: encodable_def)
  ultimately have "embeddable demo_lib default_settings demo_world demo_upload demo_pass [104, 105]"
    using demo_decoded demo_room [of "length [104 :: byte, 105]"]
    by (auto simp: embeddable_def demo_upload_def default_settings_def)
  moreover have "utf8_encode [104, 105] = Inr [104, 105]" by (simp add: utf8_char_def)
  moreover have "caller demo_lib default_settings (demo_header demo_user) demo_world = Inr demo_user"
    using demo_caller by blast
  ultimately show ?thesis using http_embed_extract [OF demo_engine demo_png demo_jwt] by blast
qed

end
