(* ===== verification/Renewal.thy ===== *)
theory Renewal
  imports Accounts
begin

text \<open>
  Refresh tokens over HTTP: what refreshing and logging out commit, and the invariant that a
  token family has at most one live session in every reachable database.
\<close>

section \<open>What a refresh commits\<close>

lemma post_refresh_run:
  "parse_refresh body = Inr t \<Longrightarrow>
     post_refresh L cfg body w =
       (fst (refresh L cfg (text_of t) (w\<lparr>db := disk w\<rparr>)),
        (snd (refresh L cfg (text_of t) (w\<lparr>db := disk w\<rparr>)))
          \<lparr>db := disk (snd (refresh L cfg (text_of t) (w\<lparr>db := disk w\<rparr>)))\<rparr>)"
  by (simp add: post_refresh_def with_db_run validated_def bindM_def)

text \<open>
  A replayed refresh token is answered with the generic 401, and the burning of its
  family is committed although the request fails: afterwards no session of the family is live,
  every session of another family, the accounts and the jobs are untouched, and the replay is
  counted.
\<close>

theorem refresh_replay_committed:
  assumes "parse_refresh body = Inr t" "hash_token L (text_of t) = Inr h"
    "row_get s_hash h (t_sessions (disk w)) = Some s" "\<not> live s"
  shows "fst (serve L cfg (Refresh body) w) = Inl INVALID \<and>
    live_in (s_family s) (t_sessions (after L cfg (Refresh body) w)) = [] \<and>
    filter (\<lambda>x. s_family x \<noteq> s_family s) (t_sessions (after L cfg (Refresh body) w)) =
      filter (\<lambda>x. s_family x \<noteq> s_family s) (t_sessions (disk w)) \<and>
    t_users (after L cfg (Refresh body) w) = t_users (disk w) \<and>
    t_jobs (after L cfg (Refresh body) w) = t_jobs (disk w) \<and>
    counter REFRESH_REPLAY (snd (serve L cfg (Refresh body) w)) = counter REFRESH_REPLAY w + 1"
proof -
  let ?w = "w\<lparr>db := disk w\<rparr>" and ?f = "\<lambda>x. s_family x = s_family s"
  have "rotate_token L cfg (text_of t) ?w = (Inl ReplayDetected, snd (revoke_family (s_family s) ?w))"
    using replay_run [OF assms(2), of ?w s] assms(3,4) by simp
  then have "refresh L cfg (text_of t) ?w =
      (Inl INVALID, snd (increment REFRESH_REPLAY 1 (snd (commit (snd (revoke_family (s_family s) ?w))))))"
    by (simp add: refresh_def py_simps commit_def increment_def)
  then show ?thesis
    using revoke_family_effect [where w = ?w and f = "s_family s"]
    by (simp add: after_def answer_with_result post_refresh_run [OF assms(1)] commit_def increment_def
        counter_def revoke_family_def revoke_where_run)
qed

text \<open>The demonstration world with the session revoked, as committed.\<close>

definition demo_stale_world :: world where
  "demo_stale_world = demo_world\<lparr>disk := db demo_revoked_world\<rparr>"

definition demo_refresh_body :: body where
  "demo_refresh_body = [(''refresh_token'', JText ''a'')]"

lemma demo_parse_refresh: "parse_refresh demo_refresh_body = Inr ''a''"
  by code_simp

lemma demo_text_token: "text_of ''a'' = demo_token"
  by (simp add: text_of_def demo_token_def)

theorem refresh_replay_committed_witness:
  "fst (serve demo_lib default_settings (Refresh demo_refresh_body) demo_stale_world) = Inl INVALID \<and>
   live_in 10 (t_sessions (after demo_lib default_settings (Refresh demo_refresh_body) demo_stale_world)) = []"
proof -
  have r: "row_get s_hash (s_hash demo_session) (t_sessions (disk demo_stale_world)) =
      Some (demo_session\<lparr>s_revoked_at := Some 5\<rparr>)" "\<not> live (demo_session\<lparr>s_revoked_at := Some 5\<rparr>)"
    by (simp_all add: demo_stale_world_def demo_revoked_world_def row_get_def live_def)
  have "s_family demo_session = 10" by (simp add: demo_session_def)
  then show ?thesis
    using refresh_replay_committed [OF demo_parse_refresh demo_hash [folded demo_text_token] r,
        of default_settings] by simp
qed

text \<open>A refresh that is granted leaves the presented session in the table, revoked.\<close>

lemma refresh_granted:
  assumes "sessions_wf (t_sessions (disk w))" "parse_refresh body = Inr t"
    "fst (serve L cfg (Refresh body) w) = Inr a"
  obtains h s s' where "hash_token L (text_of t) = Inr h" "row_get s_hash h (t_sessions (disk w)) = Some s"
    "row_get s_hash h (t_sessions (after L cfg (Refresh body) w)) = Some s'" "s_family s' = s_family s" "\<not> live s'"
    "sessions_wf (t_sessions (after L cfg (Refresh body) w))"
proof -
  let ?w = "w\<lparr>db := disk w\<rparr>"
  obtain x where x: "fst (refresh L cfg (text_of t) ?w) = Inr x"
    using assms(3) post_refresh_run [OF assms(2), of L cfg w]
    by (cases "fst (refresh L cfg (text_of t) ?w)") (simp_all add: answer_with_result)
  obtain r v where r: "rotate_token L cfg (text_of t) ?w = (r, v)"
    by (cases "rotate_token L cfg (text_of t) ?w")
  obtain i where i: "r = Inr i"
    using x r by (cases r) (auto simp: refresh_def py_simps commit_def increment_def split: exn.splits)
  obtain h s ss where h: "hash_token L (text_of t) = Inr h" "row_get s_hash h (t_sessions (disk w)) = Some s"
    "row_insert s_id s_hash (successor L cfg s ?w) (t_sessions (disk w)) = Inr ss"
    and v: "t_sessions (db v) = modify_row s_id (s_id s)
      (retire (wall w (Suc (Suc (Suc (ticks w))))) (s_id (successor L cfg s ?w))) ss"
    using r i by (auto simp: rotate_token_Inr)
  have sh: "s_hash s = h" by (rule sessions.lookup_uniq [OF h(2)])
  have "t_sessions (after L cfg (Refresh body) w) = t_sessions (db v)"
    using x r i post_refresh_run [OF assms(2), of L cfg w]
    by (auto simp: after_def refresh_def py_simps get_user_def create_access_token_run commit_def
        split: option.splits if_splits)
  with v rotated_table [OF assms(1) h(2) [folded sh] h(3)] that [OF h(1,2)] show ?thesis
    by (auto simp: sh live_def retire_def)
qed

text \<open>
  Property C38. Using a refresh token twice burns its family, however much later. After a refresh that
  was granted, whatever requests follow, short of the deletion of an account, presenting the same
  token again is answered with the generic 401 and counted, and leaves its family without a live
  session, so that whatever it was exchanged for is worthless, too. The burning is committed although
  the request fails, and the accounts, the jobs and all other families are untouched.
\<close>

theorem reused_token_burns_family:
  assumes "consistent (disk w)" "parse_refresh body = Inr t" "fst (serve L cfg (Refresh body) w) = Inr a"
    and later: "reachable L cfg (\<lambda>c. \<forall>x. c \<noteq> DeleteMe x) (snd (serve L cfg (Refresh body) w)) v"
  shows "\<exists>h s. hash_token L (text_of t) = Inr h \<and> row_get s_hash h (t_sessions (disk w)) = Some s \<and>
    fst (serve L cfg (Refresh body) v) = Inl INVALID \<and>
    live_in (s_family s) (t_sessions (after L cfg (Refresh body) v)) = [] \<and>
    filter (\<lambda>x. s_family x \<noteq> s_family s) (t_sessions (after L cfg (Refresh body) v)) =
      filter (\<lambda>x. s_family x \<noteq> s_family s) (t_sessions (disk v)) \<and>
    t_users (after L cfg (Refresh body) v) = t_users (disk v) \<and>
    t_jobs (after L cfg (Refresh body) v) = t_jobs (disk v) \<and>
    counter REFRESH_REPLAY (snd (serve L cfg (Refresh body) v)) = counter REFRESH_REPLAY v + 1"
proof -
  have wf: "sessions_wf (t_sessions (disk w))" using assms(1) by (simp add: consistent_def)
  obtain h s s' where h: "hash_token L (text_of t) = Inr h" "row_get s_hash h (t_sessions (disk w)) = Some s"
    and s': "row_get s_hash h (t_sessions (after L cfg (Refresh body) w)) = Some s'" "s_family s' = s_family s"
      "\<not> live s'" "sessions_wf (t_sessions (after L cfg (Refresh body) w))"
    using refresh_granted [OF wf assms(2,3)] .
  have "sessions_kept (after L cfg (Refresh body) w) (disk v)"
    using reachable_order [OF revocations.app_order_axioms later] by (simp add: after_def)
  then obtain x where x: "x \<in> set (t_sessions (disk v))" "session_step s' x" "sessions_wf (t_sessions (disk v))"
    using s'(1,4) row_get_in [OF s'(1)] unfolding sessions_kept_def by blast
  have "s_hash x = h" "s_family x = s_family s" "\<not> live x"
    using x(2) s'(2,3) sessions.lookup_uniq [OF s'(1)] by (auto simp: session_step_def live_def)
  moreover then have "row_get s_hash h (t_sessions (disk v)) = Some x"
    using x(1,3) by (auto simp: row_get_def find_key_iff row_wf_def)
  ultimately show ?thesis using h refresh_replay_committed [OF assms(2) h(1)] by metis
qed

lemma demo_refresh_granted:
  "\<exists>a. fst (serve demo_lib default_settings (Refresh demo_refresh_body) demo_world) = Inr a"
proof -
  obtain i w1 where r: "rotate_token demo_lib default_settings (text_of ''a'') demo_world = (Inr i, w1)"
    using demo_rotation demo_text_token by auto
  have d: "demo_world\<lparr>db := disk demo_world\<rparr> = demo_world" by (simp add: demo_world_def)
  have "s_user_id (issued i) = 7" "t_users (db w1) = [demo_user, demo_admin]"
    using r demo_hash by (auto simp: demo_text_token rotate_token_Inr demo_world_def demo_tables_def row_get_def)
      (simp_all add: successor_def demo_session_def)
  then show ?thesis using r d
    by (simp add: answer_with_result post_refresh_run [OF demo_parse_refresh] refresh_def py_simps get_user_def
        row_get_def create_access_token_run commit_def) (simp add: demo_user_def)
qed

theorem reused_token_burns_family_witness:
  "fst (serve demo_lib default_settings (Refresh demo_refresh_body)
      (snd (serve demo_lib default_settings (Refresh demo_refresh_body) demo_world))) = Inl INVALID"
proof -
  obtain a where "fst (serve demo_lib default_settings (Refresh demo_refresh_body) demo_world) = Inr a"
    using demo_refresh_granted by blast
  moreover have "consistent (disk demo_world)" using demo_consistent by (simp add: demo_world_def)
  ultimately show ?thesis using reused_token_burns_family [OF _ demo_parse_refresh _ start] by blast
qed

text \<open>
  A refresh on behalf of an account that is missing or disabled is refused with the same
  401 and rolled back: the rotation that had already run is not committed, the database stays
  exactly as it was, and the presented token is still the family's live one.
\<close>

theorem refresh_inactive_rolled_back:
  assumes "parse_refresh body = Inr t" "hash_token L (text_of t) = Inr h"
    "row_get s_hash h (t_sessions (disk w)) = Some s" "live s"
    "\<forall>u. row_get u_id (s_user_id s) (t_users (disk w)) = Some u \<longrightarrow> u_status u \<noteq> STATUS_ACTIVE"
  shows "after L cfg (Refresh body) w = disk w \<and>
    (fst (serve L cfg (Refresh body) w) = Inl INVALID \<or> fst (serve L cfg (Refresh body) w) = Inl IntegrityError)"
proof -
  let ?w = "w\<lparr>db := disk w\<rparr>"
  have "disk (snd (refresh L cfg (text_of t) ?w)) = disk w \<and>
      (fst (refresh L cfg (text_of t) ?w) = Inl INVALID \<or> fst (refresh L cfg (text_of t) ?w) = Inl IntegrityError)"
  proof (cases "rotate_token L cfg (text_of t) ?w")
    case (Pair r v)
    show ?thesis
    proof (cases r)
      case (Inl e)
      have "db v = disk w \<and> disk v = disk w \<and>
          (e = UnicodeEncodeError \<or> (\<exists>m. e = InvalidRefreshToken m) \<or> e = IntegrityError)"
        using rotate_token_Inl [OF Pair [unfolded Inl]] assms(2-4) by auto
      moreover have "e \<noteq> UnicodeEncodeError"
        using Pair Inl assms(2,3,4) sessions.insert_outcome
        by (auto simp: rotate_token_run Let_def split: if_splits sum.splits)
      ultimately show ?thesis using Pair Inl by (auto simp: refresh_def py_simps)
    next
      case (Inr i)
      then have v: "t_users (db v) = t_users (disk w)" "disk v = disk w" "s_user_id (issued i) = s_user_id s"
        using Pair assms(2,3) by (auto simp: rotate_token_Inr)
      then show ?thesis using Pair Inr assms(5)
        by (auto simp: refresh_def py_simps get_user_def split: option.split)
    qed
  qed
  then show ?thesis
    by (auto simp: after_def answer_with_result post_refresh_run [OF assms(1)])
qed

text \<open>The demonstration world with the user disabled.\<close>

definition demo_disabled_world :: world where
  "demo_disabled_world =
     demo_world\<lparr>disk := demo_tables\<lparr>t_users := [demo_user\<lparr>u_status := STATUS_DISABLED\<rparr>]\<rparr>\<rparr>"

theorem refresh_inactive_rolled_back_witness:
  "after demo_lib default_settings (Refresh demo_refresh_body) demo_disabled_world = disk demo_disabled_world"
proof -
  have s: "row_get s_hash (s_hash demo_session) (t_sessions (disk demo_disabled_world)) = Some demo_session"
    "live demo_session"
    by (simp_all add: demo_disabled_world_def demo_tables_def row_get_def live_def) (simp add: demo_session_def)
  have "\<forall>u. row_get u_id (s_user_id demo_session) (t_users (disk demo_disabled_world)) = Some u \<longrightarrow>
      u_status u \<noteq> STATUS_ACTIVE"
    by (auto simp: demo_disabled_world_def row_get_def split: if_splits)
  with refresh_inactive_rolled_back [OF demo_parse_refresh demo_hash [folded demo_text_token] s]
  show ?thesis by blast
qed

section \<open>Families\<close>

definition families_ok :: "tables \<Rightarrow> bool" where
  "families_ok t \<longleftrightarrow> sessions_wf (t_sessions t) \<and> one_live (t_sessions t)"

definition stays_families :: "tables \<Rightarrow> tables \<Rightarrow> bool" where
  "stays_families t t' \<longleftrightarrow> (families_ok t \<longrightarrow> families_ok t')"

lemma stays_families_same: "t_sessions t' = t_sessions t \<Longrightarrow> stays_families t t'"
  by (simp add: stays_families_def families_ok_def)

lemma one_live_filter: "one_live ss \<Longrightarrow> one_live (filter P ss)"
proof -
  have "live_in f (filter P ss) = filter P (live_in f ss)" for f
    by (simp add: live_in_def conj_commute)
  then show "one_live ss \<Longrightarrow> one_live (filter P ss)" by (simp add: one_live_def length_filter_bound)
qed

interpretation families: app_order stays_families False True False
proof unfold_locales
  show "stays_families t t" for t by (simp add: stays_families_def)
  show "stays_families a c" if "stays_families a b" "stays_families b c" for a b c
    using that by (simp add: stays_families_def)
  show "stays_families t (t\<lparr>t_sessions :=
      modify_row s_id (s_id s) (\<lambda>x. x\<lparr>s_revoked_at := Some n\<rparr>) (t_sessions t)\<rparr>)" for t s n
  proof -
    have "one_live (modify_row s_id (s_id s) (\<lambda>x. x\<lparr>s_revoked_at := Some n\<rparr>) ss)" if "one_live ss" for ss
      using that by (auto simp: modify_row_def one_live_def live_in_update_dead live_def
          intro: length_filter_bound split: option.split)
    then show ?thesis using modify_row_wf [of s_id s_hash "t_sessions t"]
      by (simp add: stays_families_def families_ok_def)
  qed
  show "stays_families t (t\<lparr>t_sessions := modify_row s_id (s_id s) (retire n (s_id new)) ss\<rparr>)"
    if "s \<in> set (t_sessions t)" "live s" "live new" "s_family new = s_family s"
      "row_insert s_id s_hash new (t_sessions t) = Inr ss" for s t new ss n
    unfolding stays_families_def
  proof
    assume ok: "families_ok t"
    then have wf: "sessions_wf (t_sessions t)" by (simp add: families_ok_def)
    have get: "row_get s_hash (s_hash s) (t_sessions t) = Some s"
      using that(1) wf by (simp add: row_get_def find_key_iff row_wf_def)
    have "one_live (row_update s_id (retire n (s_id new) s) ss)"
      using one_live_rotated [OF _ wf that(1,2,5,4)] ok by (simp add: families_ok_def)
    then show "families_ok (t\<lparr>t_sessions := modify_row s_id (s_id s) (retire n (s_id new)) ss\<rparr>)"
      using rotated_table(1,2) [OF wf get that(5), of n "s_id new"] by (simp add: families_ok_def)
  qed
  show "stays_families t (t\<lparr>t_sessions := fst (stamp clk (\<lambda>s. s_family s = f) k (t_sessions t))\<rparr>)" for t clk f k
    by (auto simp: stays_families_def families_ok_def row_wf_def stamp_keys one_live_def stamp_live_in)
  show "stays_families t (drop_user i t)" for t i
    by (simp add: stays_families_def families_ok_def drop_user_def filter_wf one_live_filter)
qed (simp_all add: stays_families_same)

text \<open>The family id a login draws: 16 bytes for the access token's id, 48 for the raw token, then
  the 16 of the family.\<close>

definition login_family :: "world \<Rightarrow> uuid" where
  "login_family w = uuid4_of (window (rnd w) (cursor (rnd w) + 64) 16)"

text \<open>What a successful login makes of the account's row \<open>y\<close>.\<close>

definition welcomed :: "user \<Rightarrow> user \<Rightarrow> bool" where
  "welcomed y z \<longleftrightarrow> u_id z = u_id y \<and> u_email z = u_email y \<and> u_status z = u_status y \<and>
     u_password_hash z = u_password_hash y \<and> u_role z = u_role y \<and>
     u_failed_login_count z = 0 \<and> u_locked_until z = None"

lemma record_success_run:
  "\<exists>us k. record_success n u w = (Inr (), w\<lparr>db := (db w)\<lparr>t_users := us\<rparr>, ticks := k\<rparr>) \<and>
     (\<forall>y. row_get u_id (u_id u) (t_users (db w)) = Some y \<longrightarrow>
        (\<exists>z. row_get u_id (u_id u) us = Some z \<and> welcomed y z))"
proof -
  let ?f = "\<lambda>r. r\<lparr>u_failed_login_count := 0, u_locked_until := None, u_last_login_at := Some n\<rparr>"
  let ?u = "row_get u_id (u_id u) (t_users (db w))"
  show ?thesis
  proof (cases "map_option ?f ?u = ?u")
    case True
    then have "record_success n u w = (Inr (), w\<lparr>db := (db w)\<lparr>t_users := t_users (db w)\<rparr>, ticks := ticks w\<rparr>)"
      by (simp add: record_success_def update_user_def py_simps get_user_def)
    moreover have "welcomed y y" if "?u = Some y" for y
    proof -
      have "?f y = y" using True that by simp
      from arg_cong [OF this, of u_failed_login_count] arg_cong [OF this, of u_locked_until]
      show ?thesis by (simp add: welcomed_def)
    qed
    ultimately show ?thesis by blast
  next
    case False
    let ?g = "\<lambda>r. (?f r)\<lparr>u_updated_at := wall w (ticks w)\<rparr>"
    have "record_success n u w = (Inr (), w\<lparr>db := (db w)\<lparr>t_users :=
        modify_row u_id (u_id u) ?g (t_users (db w))\<rparr>, ticks := Suc (ticks w)\<rparr>)"
      using False by (simp add: record_success_def update_user_def py_simps get_user_def now_def)
    moreover have "row_get u_id (u_id u) (modify_row u_id (u_id u) ?g (t_users (db w))) = Some (?g y)"
      if "?u = Some y" for y
      using that users.get_key [OF that] by (simp add: modify_row_def users.update_get)
    ultimately show ?thesis by (intro exI conjI) (assumption, auto simp: welcomed_def)
  qed
qed

lemma insert_session_run:
  "insert_session mk w =
     (let s = mk (uuid4_of (window (rnd w) (cursor (rnd w)) 16));
          v = w\<lparr>rnd := rnd w\<lparr>cursor := cursor (rnd w) + 16\<rparr>\<rparr>
      in case row_insert s_id s_hash s (t_sessions (db w)) of
           Inl e \<Rightarrow> (Inl e, v)
         | Inr ss \<Rightarrow> (Inr s, v\<lparr>db := (db w)\<lparr>t_sessions := ss\<rparr>\<rparr>))"
  by (simp add: insert_session_def py_simps uuid4_def on_entropy_def urandom_def with_tables_def
      Let_def split: sum.split)

text \<open>The session an initial issue inserts, up to its identifier, user agent and IP hash.\<close>

definition fresh_session :: "lib \<Rightarrow> settings \<Rightarrow> uuid \<Rightarrow> world \<Rightarrow> session \<Rightarrow> bool" where
  "fresh_session L cfg i w s \<longleftrightarrow>
     live s \<and> s_user_id s = i \<and> s_hash s = token_digest L (next_token w) \<and>
     s_family s = uuid4_of (window (rnd w) (cursor (rnd w) + TOKEN_BYTES) 16) \<and>
     s_expires_at s = wall w (Suc (ticks w)) + days (refresh_token_lifetime_days cfg)"

lemma issue_initial_run:
  assumes "p (w\<lparr>rnd := rnd w\<lparr>cursor := cursor (rnd w) + TOKEN_BYTES + 16\<rparr>,
      ticks := Suc (Suc (ticks w))\<rparr>) = (Inr (), v)"
  shows "\<exists>mk. issue_initial L cfg p i a h w =
      (case insert_session mk v of
         (Inl e, x) \<Rightarrow> (Inl e, x)
       | (Inr s, x) \<Rightarrow> (Inr \<lparr>raw_token = b64url (next_token w), issued = s\<rparr>, x)) \<and>
    (\<forall>k. fresh_session L cfg i w (mk k))"
proof -
  let ?mk = "\<lambda>k. \<lparr>s_id = k, s_user_id = i, s_hash = token_digest L (next_token w),
      s_family = uuid4_of (window (rnd w) (cursor (rnd w) + TOKEN_BYTES) 16),
      s_issued_at = wall w (ticks w),
      s_expires_at = wall w (Suc (ticks w)) + days (refresh_token_lifetime_days cfg), s_revoked_at = None,
      s_replaced_by = None, s_user_agent = a, s_ip_hash = h\<rparr>"
  have "issue_initial L cfg p i a h w = (case insert_session ?mk v of
      (Inl e, x) \<Rightarrow> (Inl e, x) | (Inr s, x) \<Rightarrow> (Inr \<lparr>raw_token = b64url (next_token w), issued = s\<rparr>, x))"
    using assms by (simp add: issue_initial_def py_simps new_raw_def on_entropy_def urandom_def
        uuid4_def now_def next_token_def split: prod.split sum.split)
  then show ?thesis
    by (intro exI [of _ ?mk]) (simp add: fresh_session_def live_def)
qed

text \<open>The state in which a login issues the refresh token: the access token has been made.\<close>

definition after_access :: "world \<Rightarrow> world" where
  "after_access w = w\<lparr>ticks := Suc (ticks w), rnd := rnd w\<lparr>cursor := cursor (rnd w) + 16\<rparr>\<rparr>"

lemma token_response_run:
  "\<exists>new us. fresh_session L cfg (u_id u) (after_access w) new \<and>
     (\<forall>y. row_get u_id (u_id u) (t_users (db w)) = Some y \<longrightarrow>
        (\<exists>z. row_get u_id (u_id u) us = Some z \<and> welcomed y z)) \<and>
     (case row_insert s_id s_hash new (t_sessions (db w)) of
        Inl e \<Rightarrow> fst (make_token_response L cfg (record_success n u) u req w) = Inl e \<and>
          disk (snd (make_token_response L cfg (record_success n u) u req w)) = disk w
      | Inr ss \<Rightarrow>
          (\<exists>access expiration.
             create_access_token L cfg (str_uuid (u_id u)) (u_role u) None w =
               (Inr (access, expiration), after_access w) \<and>
             fst (make_token_response L cfg (record_success n u) u req w) =
               Inr \<lparr>access_token = access, refresh_token = b64url (next_token (after_access w)),
                    access_token_expiration = Aware expiration,
                    refresh_token_expiration = Aware (s_expires_at new), token_type = ''bearer''\<rparr>) \<and>
          disk (snd (make_token_response L cfg (record_success n u) u req w)) =
            (db w)\<lparr>t_users := us, t_sessions := ss\<rparr>)"
proof -
  obtain h where h: "ip_hash L cfg req = Inr h" using ip_hash_total by (cases "ip_hash L cfg req") auto
  define w1 where "w1 = after_access w"
  define w2 where "w2 = w1\<lparr>rnd := rnd w1\<lparr>cursor := cursor (rnd w1) + TOKEN_BYTES + 16\<rparr>,
      ticks := Suc (Suc (ticks w1))\<rparr>"
  obtain us k where rs: "record_success n u w2 = (Inr (), w2\<lparr>db := (db w2)\<lparr>t_users := us\<rparr>, ticks := k\<rparr>)"
    "\<forall>y. row_get u_id (u_id u) (t_users (db w2)) = Some y \<longrightarrow>
        (\<exists>z. row_get u_id (u_id u) us = Some z \<and> welcomed y z)"
    using record_success_run by blast
  define v where "v = w2\<lparr>db := (db w2)\<lparr>t_users := us\<rparr>, ticks := k\<rparr>"
  obtain mk :: "uuid \<Rightarrow> session" where
    i: "issue_initial L cfg (record_success n u) (u_id u) (ua req) (Some h) w1 =
      (case insert_session mk v of (Inl e, x) \<Rightarrow> (Inl e, x)
       | (Inr s, x) \<Rightarrow> (Inr \<lparr>raw_token = b64url (next_token w1), issued = s\<rparr>, x))"
    and mk: "\<forall>k. fresh_session L cfg (u_id u) w1 (mk k)"
    using issue_initial_run [of "record_success n u" w1 v L cfg "u_id u" "ua req" "Some h"] rs(1)
    unfolding w2_def v_def by blast
  define new where "new = mk (uuid4_of (window (rnd v) (cursor (rnd v)) 16))"
  have t: "db v = (db w)\<lparr>t_users := us\<rparr>" "disk v = disk w" "db w2 = db w"
    by (simp_all add: v_def w2_def w1_def after_access_def)
  obtain access expiration where tok: "create_access_token L cfg (str_uuid (u_id u)) (u_role u) None w =
      (Inr (access, expiration), w1)"
    by (simp add: create_access_token_run w1_def after_access_def)
  show ?thesis
  proof (intro exI [of _ new] exI [of _ us] conjI)
    show "fresh_session L cfg (u_id u) (after_access w) new" using mk by (simp add: new_def w1_def)
    show "\<forall>y. row_get u_id (u_id u) (t_users (db w)) = Some y \<longrightarrow>
        (\<exists>z. row_get u_id (u_id u) us = Some z \<and> welcomed y z)"
      using rs(2) t by simp
  qed (use tok h i t in \<open>auto simp: make_token_response_def bindM_apply thenM_apply insert_session_run
      Let_def commit_def simp flip: w1_def new_def split: sum.split\<close>)
qed

lemma fresh_family: "fresh_session L cfg i (after_access w) s \<Longrightarrow> s_family s = login_family w"
  by (simp add: fresh_session_def after_access_def login_family_def TOKEN_BYTES_def add.commute)

lemma token_response_sessions:
  assumes "make_token_response L cfg (record_success n u) u req w = (r, w')"
  shows "t_sessions (disk w') = t_sessions (disk w) \<or>
    (\<exists>new. row_insert s_id s_hash new (t_sessions (db w)) = Inr (t_sessions (disk w')) \<and>
       s_family new = login_family w)"
  using token_response_run [of L cfg u w n req] fresh_family assms by (fastforce split: sum.splits)

text \<open>Requests in any order, where a login draws a family id that is not in use.\<close>

inductive unforked :: "lib \<Rightarrow> settings \<Rightarrow> world \<Rightarrow> world \<Rightarrow> bool" for L cfg where
  unforked_start: "unforked L cfg w w"
| unforked_request: "unforked L cfg w v \<Longrightarrow>
    (\<forall>b r. c = Login b r \<longrightarrow> login_family v \<notin> s_family ` set (t_sessions (disk v))) \<Longrightarrow>
    unforked L cfg w (snd (serve L cfg c v))"

lemma families_insert:
  assumes "families_ok t" "row_insert s_id s_hash new (t_sessions t) = Inr ss"
    "s_family new \<notin> s_family ` set (t_sessions t)"
  shows "families_ok (t\<lparr>t_sessions := ss\<rparr>)"
proof -
  have ss: "ss = t_sessions t @ [new]" using row_insert_set [OF assms(2)] .
  have fresh: "live_in (s_family new) (t_sessions t) = []"
    unfolding live_in_def filter_empty_conv using assms(3) by (metis image_eqI)
  have "length (live_in f ss) \<le> 1" for f
    using assms(1) fresh
    by (cases "f = s_family new") (auto simp: ss live_in_append families_ok_def one_live_def, auto simp: live_in_def)
  then show ?thesis using row_insert_wf [OF _ assms(2)] assms(1)
    by (simp add: families_ok_def one_live_def)
qed

lemma families_ok_cong: "t_sessions t' = t_sessions t \<Longrightarrow> families_ok t' = families_ok t"
  by (simp add: families_ok_def)

lemma login_families:
  assumes spec: "argon2_spec L" and ok: "families_ok (disk w)"
    and fresh: "login_family w \<notin> s_family ` set (t_sessions (disk w))"
  shows "families_ok (after L cfg (Login body req) w)"
proof (cases "parse_login body")
  case (Inl e)
  then show ?thesis using ok by (simp add: after_def post_login_def with_db_run validated_def bindM_def)
next
  case (Inr b)
  note run = after_def post_login_run [OF Inr] login_run [OF spec]
  show ?thesis
  proof (cases "login_opens L b w")
    case False
    from families_ok_cong [OF login_refused(2) [OF spec Inr this]] ok show ?thesis by simp
  next
    case True
    then obtain u where u: "row_get u_email (log_email b) (t_users (disk w)) = Some u"
      "unlocked u (wall w (ticks w))" "credentials_ok L u (log_password b)"
      by (auto simp: login_opens_def)
    define v where "v = w\<lparr>db := disk w, ticks := Suc (ticks w + lock_ticks u)\<rparr>"
    define n where "n = wall w (ticks w + lock_ticks u)"
    obtain r w' where m: "make_token_response L cfg (record_success n u) u req v = (r, w')"
      by (cases "make_token_response L cfg (record_success n u) u req v")
    have after: "after L cfg (Login body req) w = disk w'"
      using u m by (simp add: run v_def n_def)
    have v: "disk v = disk w" "db v = disk w" "login_family v = login_family w"
      by (simp_all add: v_def login_family_def)
    from token_response_sessions [OF m] show ?thesis
    proof
      assume "t_sessions (disk w') = t_sessions (disk v)"
      from families_ok_cong [OF this] show ?thesis using ok v after by simp
    next
      assume "\<exists>new. row_insert s_id s_hash new (t_sessions (db v)) = Inr (t_sessions (disk w')) \<and>
          s_family new = login_family v"
      then obtain new where ins: "row_insert s_id s_hash new (t_sessions (disk w)) = Inr (t_sessions (disk w'))"
        "s_family new = login_family w" using v by auto
      have "families_ok ((disk w)\<lparr>t_sessions := t_sessions (disk w')\<rparr>)"
        by (rule families_insert [OF ok ins(1)]) (simp add: ins(2) fresh)
      then show ?thesis by (simp add: after families_ok_def)
    qed
  qed
qed

text \<open>
  Property C16. At most one live token per login: in every database that any requests reach, whatever
  their order and outcome, no token family has two live sessions, as long as logins draw fresh
  family ids (the rotations, replays, logouts and deletions in between need no such luck).
\<close>

theorem families_one_live:
  assumes "unforked L cfg w v" "argon2_spec L" "families_ok (disk w)"
  shows "length (live_in f (t_sessions (disk v))) \<le> 1"
proof -
  from assms(1,3) have "families_ok (disk v)"
  proof induction
    case (unforked_request w v c)
    then have ok: "families_ok (disk v)" by blast
    show ?case
    proof (cases "\<exists>b r. c = Login b r")
      case True
      then show ?thesis using login_families [OF assms(2) ok] unforked_request.hyps(2)
        by (auto simp: after_def simp del: serve.simps)
    next
      case False
      then show ?thesis using families.serve_order [of c L v cfg] ok
        by (auto simp: stays_families_def after_def simp del: serve.simps)
    qed
  qed
  then show ?thesis by (simp add: families_ok_def one_live_def)
qed

theorem families_one_live_witness:
  "length (live_in 10 (t_sessions (disk (snd (serve demo_lib default_settings (Refresh demo_refresh_body)
     (snd (serve demo_lib default_settings (Login demo_login_body demo_request) demo_world))))))) \<le> 1"
proof -
  have "families_ok (disk demo_world)"
    using demo_wf by (simp add: families_ok_def demo_world_def)
  moreover have "login_family demo_world \<notin> s_family ` set (t_sessions (disk demo_world))"
    using small_not_uuid4 [of 10]
    by (simp add: login_family_def demo_world_def demo_tables_def demo_session_def)
  ultimately show ?thesis
    by (intro families_one_live [OF unforked_request [OF unforked_request [OF unforked_start]] demo_argon2_ok]) simp_all
qed

end
