(* ===== verification/Lifecycle.thy ===== *)
theory Lifecycle
  imports Renewal
begin

text \<open>
  The end of a login: logging out, deleting the account, disabling it; and the administrator gate
  that guards the last. Each theorem says what the request commits and what the tokens issued
  before it are still worth.
\<close>

section \<open>Requests of an authenticated caller\<close>

lemma with_caller:
  assumes "jwt_spec L" "caller L cfg a w = Inr u"
  defines "w1 \<equiv> w\<lparr>db := disk w, ticks := Suc (ticks w)\<rparr>"
  shows "with_db (bindM (get_current_user L cfg a) f) w =
    (fst (f u w1), (snd (f u w1))\<lparr>db := disk (snd (f u w1))\<rparr>)"
  using caller_state [OF assms(1,2)] by (simp add: with_db_run bindM_apply w1_def)

lemma caller_row:
  assumes "jwt_spec L" "caller L cfg a w = Inr u"
  shows "row_get u_id (u_id u) (t_users (disk w)) = Some u" "u_status u = STATUS_ACTIVE"
proof -
  have "\<exists>i. row_get u_id i (t_users (disk w)) = Some u \<and> u_status u = STATUS_ACTIVE"
    using assms(2) by (auto simp: caller_def get_current_user_run [OF assms(1)]
        split: option.splits if_splits sum.splits)
  then show "row_get u_id (u_id u) (t_users (disk w)) = Some u" "u_status u = STATUS_ACTIVE"
    using users.get_key by auto
qed

lemma caller_error: "jwt_spec L \<Longrightarrow> caller L cfg a w = Inl e \<Longrightarrow> e = UNAUTHORIZED"
  by (auto simp: caller_def get_current_user_run split: option.splits if_splits sum.splits)

section \<open>Presenting a token that is not live\<close>

lemma refresh_refused:
  assumes "parse_refresh body = Inr t" "hash_token L (text_of t) = Inr h"
    "\<forall>s. row_get s_hash h (t_sessions (disk v)) = Some s \<longrightarrow> \<not> live s"
  shows "fst (serve L cfg (Refresh body) v) = Inl INVALID"
proof (cases "row_get s_hash h (t_sessions (disk v))")
  case None
  then show ?thesis using assms(1,2)
    by (simp add: answer_with_result post_refresh_run refresh_def py_simps rotate_token_run)
next
  case (Some s)
  then have "rotate_token L cfg (text_of t) (v\<lparr>db := disk v\<rparr>) =
      (Inl ReplayDetected, snd (revoke_family (s_family s) (v\<lparr>db := disk v\<rparr>)))"
    using replay_run [OF assms(2)] assms(3) by simp
  then show ?thesis using assms(1)
    by (simp add: answer_with_result post_refresh_run refresh_def py_simps commit_def increment_def)
qed

section \<open>Logging out\<close>

text \<open>
  Property C23. Logging out always answers 204 and ends the session: its row, if the token has one, is
  revoked and nothing else in the database changes, and from then on the token cannot be refreshed.
  Whether the token was known shows neither in the answer nor in a counter.
\<close>

theorem logout_ends_session:
  assumes body: "parse_refresh body = Inr t" "hash_token L (text_of t) = Inr h"
    and wf: "consistent (disk w)"
  shows "fst (serve L cfg (Logout body) w) = Inr No_content \<and>
    counters (snd (serve L cfg (Logout body) w)) = counters w \<and>
    t_users (after L cfg (Logout body) w) = t_users (disk w) \<and>
    t_jobs (after L cfg (Logout body) w) = t_jobs (disk w) \<and>
    (\<forall>g. g \<noteq> h \<longrightarrow> row_get s_hash g (t_sessions (after L cfg (Logout body) w)) =
       row_get s_hash g (t_sessions (disk w))) \<and>
    (\<forall>v. disk v = after L cfg (Logout body) w \<longrightarrow> fst (serve L cfg (Refresh body) v) = Inl INVALID)"
proof -
  let ?w = "w\<lparr>db := disk w\<rparr>"
  have run: "post_logout L body w = (fst (logout L (text_of t) ?w),
      (snd (logout L (text_of t) ?w))\<lparr>db := disk (snd (logout L (text_of t) ?w))\<rparr>)"
    using body(1) by (simp add: post_logout_def with_db_run validated_def bindM_def)
  have swf: "sessions_wf (t_sessions (disk w))" using wf by (simp add: consistent_def)
  show ?thesis
  proof (cases "\<exists>s. row_get s_hash h (t_sessions (disk w)) = Some s \<and> live s")
    case False
    then have "fst (logout L (text_of t) ?w) = Inr () \<and> disk (snd (logout L (text_of t) ?w)) = disk w \<and>
        counters (snd (logout L (text_of t) ?w)) = counters w"
      using body(2) by (cases "row_get s_hash h (t_sessions (disk w))")
        (auto simp: logout_def py_simps find_session_by_hash_def revoke_session_def commit_def live_def)
    then show ?thesis using False refresh_refused [OF body]
      by (auto simp: after_def answer_with_result run)
  next
    case True
    then obtain s where s: "row_get s_hash h (t_sessions (disk w)) = Some s" "live s" by blast
    define ss where "ss = modify_row s_id (s_id s) (\<lambda>x. x\<lparr>s_revoked_at := Some (wall w (ticks w))\<rparr>)
        (t_sessions (disk w))"
    have out: "fst (logout L (text_of t) ?w) = Inr ()"
      "disk (snd (logout L (text_of t) ?w)) = (disk w)\<lparr>t_sessions := ss\<rparr>"
      "counters (snd (logout L (text_of t) ?w)) = counters w"
      using body(2) s by (simp_all add: logout_def py_simps find_session_by_hash_def revoke_session_def
          live_def now_def update_session_def commit_def ss_def)
    have "row_get s_id (s_id s) (t_sessions (disk w)) = Some s" "s_hash s = h"
      using sessions.lookup_get [OF swf s(1)] sessions.lookup_uniq [OF s(1)] by auto
    then have look: "row_get s_hash g ss = (if g = h then Some (s\<lparr>s_revoked_at := Some (wall w (ticks w))\<rparr>)
        else row_get s_hash g (t_sessions (disk w)))" for g
      using sessions.update_lookup [OF swf, of "s\<lparr>s_revoked_at := Some (wall w (ticks w))\<rparr>" s g]
      by (simp add: ss_def modify_row_def)
    have "fst (serve L cfg (Refresh body) v) = Inl INVALID" if "t_sessions (disk v) = ss" for v
      by (rule refresh_refused [OF body]) (auto simp: that look live_def)
    then show ?thesis using look
      by (simp add: after_def answer_with_result run out del: serve.simps(3))
  qed
qed

theorem logout_ends_session_witness:
  "fst (serve demo_lib default_settings (Refresh demo_refresh_body)
     (snd (serve demo_lib default_settings (Logout demo_refresh_body) demo_world))) = Inl INVALID"
proof -
  have "consistent (disk demo_world)" using demo_consistent by (simp add: demo_world_def)
  from logout_ends_session [OF demo_parse_refresh demo_hash [folded demo_text_token] this]
  show ?thesis unfolding after_def by blast
qed

section \<open>Deleting the account\<close>

text \<open>
  Property C24. Deleting one's account erases it: the user's row, all sessions and all jobs are gone, the
  rows of others stay, and every credential of the account is worthless from then on, no access
  token authenticates as it and no refresh token of its sessions is accepted.
\<close>

theorem delete_me_erases:
  assumes spec: "jwt_spec L" and u: "caller L cfg a w = Inr u" and wf: "consistent (disk w)"
  shows "fst (serve L cfg (DeleteMe a) w) = Inr No_content \<and>
    t_users (after L cfg (DeleteMe a) w) = filter (\<lambda>x. u_id x \<noteq> u_id u) (t_users (disk w)) \<and>
    t_sessions (after L cfg (DeleteMe a) w) = filter (\<lambda>s. s_user_id s \<noteq> u_id u) (t_sessions (disk w)) \<and>
    t_jobs (after L cfg (DeleteMe a) w) = filter (\<lambda>j. j_user_id j \<noteq> u_id u) (t_jobs (disk w)) \<and>
    (\<forall>v b x. disk v = after L cfg (DeleteMe a) w \<and> caller L cfg b v = Inr x \<longrightarrow> u_id x \<noteq> u_id u) \<and>
    (\<forall>v body t h s. disk v = after L cfg (DeleteMe a) w \<and> parse_refresh body = Inr t \<and>
       hash_token L (text_of t) = Inr h \<and> row_get s_hash h (t_sessions (disk w)) = Some s \<and>
       s_user_id s = u_id u \<longrightarrow> fst (serve L cfg (Refresh body) v) = Inl INVALID)"
proof -
  have r: "fst (serve L cfg (DeleteMe a) w) = Inr No_content"
    "after L cfg (DeleteMe a) w = drop_user (u_id u) (disk w)"
    by (simp_all add: after_def answer_with_result del_me_def with_caller [OF spec u] delete_me_def
        delete_user_def commit_def py_simps)
  have tok: "u_id x \<noteq> u_id u" if "disk v = drop_user (u_id u) (disk w)" "caller L cfg b v = Inr x" for v b x
    using row_get_in [OF caller_row(1) [OF spec that(2)]] that(1) by (auto simp: drop_user_def)
  have ref: "fst (serve L cfg (Refresh body) v) = Inl INVALID"
    if "disk v = drop_user (u_id u) (disk w)" "parse_refresh body = Inr t"
      "hash_token L (text_of t) = Inr h" "row_get s_hash h (t_sessions (disk w)) = Some s"
      "s_user_id s = u_id u" for v body t h s
  proof (rule refresh_refused [OF that(2,3)], intro allI impI notI)
    fix s' assume s': "row_get s_hash h (t_sessions (disk v)) = Some s'"
    then have "s' \<in> set (t_sessions (disk w))" "s_user_id s' \<noteq> u_id u" "s_hash s' = h"
      using row_get_in [OF s'] that(1) by (auto simp: drop_user_def)
    moreover have "distinct (map s_hash (t_sessions (disk w)))"
      using wf by (simp add: consistent_def row_wf_def)
    ultimately have "row_get s_hash h (t_sessions (disk w)) = Some s'"
      by (simp add: row_get_def find_key_iff)
    then show False using that(4,5) \<open>s_user_id s' \<noteq> u_id u\<close> by simp
  qed
  have "t_users (drop_user i x) = filter (\<lambda>y. u_id y \<noteq> i) (t_users x)"
    "t_sessions (drop_user i x) = filter (\<lambda>s. s_user_id s \<noteq> i) (t_sessions x)"
    "t_jobs (drop_user i x) = filter (\<lambda>j. j_user_id j \<noteq> i) (t_jobs x)" for i x
    by (simp_all add: drop_user_def)
  then show ?thesis unfolding r(2) by (intro conjI r(1)) (use tok ref in blast)+
qed

theorem delete_me_erases_witness:
  "t_users (after demo_lib default_settings (DeleteMe (demo_header demo_user)) demo_world) = [demo_admin] \<and>
   t_sessions (after demo_lib default_settings (DeleteMe (demo_header demo_user)) demo_world) = []"
proof -
  have "consistent (disk demo_world)" using demo_consistent by (simp add: demo_world_def)
  moreover have "caller demo_lib default_settings (demo_header demo_user) demo_world = Inr demo_user"
    using demo_caller by blast
  ultimately have "t_users (after demo_lib default_settings (DeleteMe (demo_header demo_user)) demo_world) =
      filter (\<lambda>x. u_id x \<noteq> u_id demo_user) (t_users (disk demo_world)) \<and>
    t_sessions (after demo_lib default_settings (DeleteMe (demo_header demo_user)) demo_world) =
      filter (\<lambda>s. s_user_id s \<noteq> u_id demo_user) (t_sessions (disk demo_world))"
    using delete_me_erases [OF demo_jwt] by blast
  then show ?thesis by (simp add: demo_defs)
qed

section \<open>The administrator gate\<close>

definition FORBIDDEN :: exn where
  "FORBIDDEN = HTTPException 403 ''Admin role required''"

fun admin_header :: "call \<Rightarrow> auth option" where
  "admin_header (ListUsers a) = Some a"
| "admin_header (SetStatus a i s) = Some a"
| "admin_header (ListAllJobs a) = Some a"
| "admin_header (GetMetrics a) = Some a"
| "admin_header _ = None"

lemma parse_or_404:
  "catchR (parse_uuid i) (\<lambda>e. if is_value_error e then Inl NOT_FOUND else Inl e) =
    (case parse_uuid i of Inl e \<Rightarrow> Inl NOT_FOUND | Inr k \<Rightarrow> Inr k)"
  using parse_uuid_Inl [of i] by (cases "parse_uuid i") (simp_all add: is_value_error_def)

lemma admin_route:
  assumes "jwt_spec L"
  shows "with_db (bindM (require_admin_user L cfg a) f) w =
    (case caller L cfg a w of
       Inl e \<Rightarrow> (Inl UNAUTHORIZED, (snd (get_current_user L cfg a (w\<lparr>db := disk w\<rparr>)))\<lparr>db := disk w\<rparr>)
     | Inr u \<Rightarrow>
         let w1 = w\<lparr>db := disk w, ticks := Suc (ticks w)\<rparr> in
         if is_admin u then (fst (f u w1), (snd (f u w1))\<lparr>db := disk (snd (f u w1))\<rparr>)
         else (Inl FORBIDDEN, snd (increment AUTHORIZATION_DENIAL 1 w1)))"
proof (cases "caller L cfg a w")
  case (Inl e)
  then show ?thesis
    using caller_error [OF assms Inl] readonlyD [OF readonly_current_user, of L cfg a "w\<lparr>db := disk w\<rparr>"]
    by (cases "get_current_user L cfg a (w\<lparr>db := disk w\<rparr>)")
      (simp add: with_db_run require_admin_user_def bindM_apply caller_def)
next
  case (Inr u)
  then show ?thesis using caller_state [OF assms Inr]
    by (simp add: with_db_run require_admin_user_def bindM_apply is_admin_def FORBIDDEN_def
        thenM_apply increment_def Let_def)
qed

text \<open>
  Property C25. The administrator routes are gated: without authentication they answer 401, to a user
  who is not an administrator 403 with one denial counted, and neither case changes the database.
  An administrator gets neither answer.
\<close>

theorem admin_only:
  assumes spec: "jwt_spec L" and c: "admin_header c = Some a"
  shows "case caller L cfg a w of
      Inl e \<Rightarrow> fst (serve L cfg c w) = Inl UNAUTHORIZED \<and> after L cfg c w = disk w
    | Inr u \<Rightarrow>
        if is_admin u then fst (serve L cfg c w) \<notin> {Inl UNAUTHORIZED, Inl FORBIDDEN}
        else fst (serve L cfg c w) = Inl FORBIDDEN \<and> after L cfg c w = disk w \<and>
          counter AUTHORIZATION_DENIAL (snd (serve L cfg c w)) = counter AUTHORIZATION_DENIAL w + 1"
proof -
  have st: "fst (set_status i s v) \<notin> {Inl UNAUTHORIZED, Inl FORBIDDEN}" for i s and v :: world
    by (auto simp: set_status_def py_simps parse_or_404 get_user_def update_user_def now_def commit_def
        INVALID_STATUS_def NOT_FOUND_def UNAUTHORIZED_def FORBIDDEN_def split: sum.split option.split)
  have ok: "fst (list_users v) \<noteq> Inl e" "fst (list_all_jobs cfg v) \<noteq> Inl e" "fst (snapshot v) \<noteq> Inl e"
    for v :: world and e
    by (simp_all add: list_users_def list_all_jobs_def snapshot_def py_simps)
  note run = after_def answer_with_result admin_route [OF spec] increment_def counter_def Let_def
  show ?thesis
  proof (cases "caller L cfg a w")
    case (Inl e)
    moreover have "disk (snd (get_current_user L cfg a (w\<lparr>db := disk w\<rparr>))) = disk w"
      using readonlyD [OF readonly_current_user, of L cfg a "w\<lparr>db := disk w\<rparr>"] by simp
    ultimately show ?thesis using c
      by (cases c) (simp_all add: run get_users_def patch_status_def get_all_jobs_def get_metrics_def)
  next
    case (Inr u)
    then show ?thesis using c st ok
      by (cases c) (auto simp: run get_users_def patch_status_def get_all_jobs_def get_metrics_def
          split: sum.split)
  qed
qed

theorem admin_only_witness:
  "fst (serve demo_lib default_settings (ListUsers (demo_header demo_user)) demo_world) = Inl FORBIDDEN"
proof -
  have "caller demo_lib default_settings (demo_header demo_user) demo_world = Inr demo_user"
    using demo_caller by blast
  moreover have "\<not> is_admin demo_user" by (simp add: is_admin_def demo_user_def)
  ultimately show ?thesis
    using admin_only [OF demo_jwt, of "ListUsers (demo_header demo_user)" "demo_header demo_user"
        default_settings demo_world] by simp
qed

section \<open>Disabling an account\<close>

lemma row_update_same:
  assumes "distinct (map key rows)" "row_get key (key r) rows = Some r"
  shows "row_update key r rows = rows"
proof -
  have "x = r" if "x \<in> set rows" "key x = key r" for x
    using assms that row_get_in [OF assms(2)] by (auto simp: distinct_map dest: inj_onD)
  then show ?thesis unfolding row_update_def by (intro map_idI) auto
qed

lemma set_status_run:
  assumes "s \<in> {STATUS_ACTIVE, STATUS_DISABLED}" "i < 2 ^ 128" "row_wf u_id u_email (t_users (db w))"
    and t: "row_get u_id i (t_users (db w)) = Some t"
  shows "\<exists>n. fst (set_status (str_uuid i) s w) = Inr (str_uuid i, s) \<and>
    disk (snd (set_status (str_uuid i) s w)) = (db w)\<lparr>t_users :=
      row_update u_id (t\<lparr>u_status := s, u_updated_at := n\<rparr>) (t_users (db w))\<rparr>"
proof -
  have id: "u_id t = i" using row_get_in [OF t] by simp
  note run = set_status_def py_simps parse_or_404 parse_str_uuid get_user_def update_user_def now_def
    commit_def modify_row_def
  show ?thesis
  proof (cases "t\<lparr>u_status := s\<rparr> = t")
    case True
    then have "t\<lparr>u_status := s, u_updated_at := u_updated_at t\<rparr> = t" by simp
    then have "row_update u_id (t\<lparr>u_status := s, u_updated_at := u_updated_at t\<rparr>) (t_users (db w)) = t_users (db w)"
      using row_update_same [of u_id "t_users (db w)" t] assms(3) t id by (simp add: row_wf_def)
    then show ?thesis using assms(1,2) t id True
      by (intro exI [of _ "u_updated_at t"]) (auto simp: run)
  next
    case False
    then show ?thesis using assms(1,2) t id
      by (intro exI [of _ "wall w (ticks w)"]) (auto simp: run)
  qed
qed

text \<open>
  Property C26. An administrator sets a status and nothing else, one of the two known ones, and
  disabling takes effect at once: afterwards no access token, however fresh, authenticates as the
  account, and every login to it is refused, right password included, without a new session.
\<close>

theorem disabling_locks_out:
  assumes spec: "jwt_spec L" "argon2_spec L"
    and u: "caller L cfg a w = Inr u" "is_admin u" and wf: "consistent (disk w)"
    and t: "row_get u_id i (t_users (disk w)) = Some t" "i < 2 ^ 128"
    and s: "s = STATUS_DISABLED"
  shows "\<exists>t'. fst (serve L cfg (SetStatus a (str_uuid i) s) w) = Inr (Status_change (str_uuid i, s)) \<and>
    t' = t\<lparr>u_status := s, u_updated_at := u_updated_at t'\<rparr> \<and>
    after L cfg (SetStatus a (str_uuid i) s) w = (disk w)\<lparr>t_users := row_update u_id t' (t_users (disk w))\<rparr> \<and>
    (\<forall>v b x. disk v = after L cfg (SetStatus a (str_uuid i) s) w \<and> caller L cfg b v = Inr x \<longrightarrow> u_id x \<noteq> i) \<and>
    (\<forall>v body b req. disk v = after L cfg (SetStatus a (str_uuid i) s) w \<and> parse_login body = Inr b \<and>
       log_email b = u_email t \<longrightarrow>
       fst (serve L cfg (Login body req) v) = Inl INVALID \<and>
       t_sessions (after L cfg (Login body req) v) = t_sessions (disk v))"
proof -
  define w1 where "w1 = w\<lparr>db := disk w, ticks := Suc (ticks w)\<rparr>"
  have uwf: "row_wf u_id u_email (t_users (disk w))" using wf by (simp add: consistent_def)
  obtain n where n: "fst (set_status (str_uuid i) s w1) = Inr (str_uuid i, s)"
    "disk (snd (set_status (str_uuid i) s w1)) = (disk w)\<lparr>t_users :=
      row_update u_id (t\<lparr>u_status := s, u_updated_at := n\<rparr>) (t_users (disk w))\<rparr>"
    using set_status_run [of s i w1 t] s t uwf by (auto simp: w1_def)
  define t' where "t' = t\<lparr>u_status := s, u_updated_at := n\<rparr>"
  have t': "u_id t' = i" "u_email t' = u_email t" "u_status t' \<noteq> STATUS_ACTIVE"
    using row_get_in [OF t(1)] s by (auto simp: t'_def)
  have out: "fst (serve L cfg (SetStatus a (str_uuid i) s) w) = Inr (Status_change (str_uuid i, s))"
    "after L cfg (SetStatus a (str_uuid i) s) w = (disk w)\<lparr>t_users := row_update u_id t' (t_users (disk w))\<rparr>"
    using u n by (simp_all add: after_def answer_with_result patch_status_def admin_route [OF spec(1)]
        w1_def t'_def)
  have tok: "u_id x \<noteq> i" if "t_users (disk v) = row_update u_id t' (t_users (disk w))"
    "caller L cfg b v = Inr x" for v b x
    using caller_row [OF spec(1) that(2)] that(1) t' t(1) by (auto simp: users.update_get split: if_splits)
  have log: "fst (serve L cfg (Login body req) v) = Inl INVALID \<and>
      t_sessions (after L cfg (Login body req) v) = t_sessions (disk v)"
    if v: "t_users (disk v) = row_update u_id t' (t_users (disk w))" and b: "parse_login body = Inr b"
      "log_email b = u_email t" for v body b req
  proof -
    have "row_get u_email (u_email t) (t_users (disk v)) = Some t'"
      using users.update_lookup [OF uwf, of t' t "u_email t"] t t' v by simp
    then have "\<not> login_opens L b v" using t'(3) b(2) by (simp add: login_opens_def credentials_ok_def)
    from login_refused [OF spec(2) b(1) this] show ?thesis by blast
  qed
  have set: "t_users (disk v) = row_update u_id t' (t_users (disk w))"
    if "disk v = (disk w)\<lparr>t_users := row_update u_id t' (t_users (disk w))\<rparr>" for v using that by simp
  have "t' = t\<lparr>u_status := s, u_updated_at := u_updated_at t'\<rparr>" by (simp add: t'_def)
  then show ?thesis unfolding out(2)
    by (intro exI [of _ t'] conjI out(1) refl) (use tok log set in blast)+
qed

theorem disabling_locks_out_witness:
  "\<exists>t'. after demo_lib default_settings (SetStatus (demo_header demo_admin) (str_uuid 7) STATUS_DISABLED) demo_world =
     demo_tables\<lparr>t_users := [t', demo_admin]\<rparr> \<and> u_status t' = STATUS_DISABLED"
proof -
  have h: "caller demo_lib default_settings (demo_header demo_admin) demo_world = Inr demo_admin"
    "is_admin demo_admin" "consistent (disk demo_world)" "row_get u_id 7 (t_users (disk demo_world)) = Some demo_user"
    "(7::nat) < 2 ^ 128"
    using demo_caller [of demo_admin] demo_consistent
    by (simp_all add: is_admin_def demo_world_def) (simp_all add: demo_defs row_get_def)
  obtain t' where t': "t' = demo_user\<lparr>u_status := STATUS_DISABLED, u_updated_at := u_updated_at t'\<rparr>"
    "after demo_lib default_settings (SetStatus (demo_header demo_admin) (str_uuid 7) STATUS_DISABLED) demo_world =
      (disk demo_world)\<lparr>t_users := row_update u_id t' (t_users (disk demo_world))\<rparr>"
    using disabling_locks_out [OF demo_jwt demo_argon2_ok h refl] by blast
  have "u_id t' = 7" "u_id demo_user = 7" "u_id demo_admin = 8" "u_status t' = STATUS_DISABLED"
    by (subst t'(1), simp add: demo_user_def, simp_all add: demo_defs, subst t'(1), simp)
  then show ?thesis using t'(2)
    by (intro exI [of _ t']) (simp add: demo_world_def demo_tables_def row_update_def)
qed

end
