(* ===== verification/Onboarding.thy ===== *)
theory Onboarding
  imports Lifecycle
begin

text \<open>
  The beginning of a login: a registration opens an account that its credentials can log in to, and
  a login hands out an access token that authenticates and a refresh token that can be exchanged,
  until each of them expires.
\<close>

section \<open>Registration\<close>

lemma insert_user_Inr:
  assumes "fst (insert_user mk w) = Inr u"
  shows "\<exists>i c n. u = mk i c n \<and> row_insert u_id u_email u (t_users (db w)) = Inr (t_users (db w) @ [u]) \<and>
    db (snd (insert_user mk w)) = (db w)\<lparr>t_users := t_users (db w) @ [u]\<rparr>"
  using assms
  by (auto simp: insert_user_def py_simps uuid4_def on_entropy_def urandom_def now_def with_tables_def
      Let_def bindR_Inr_iff dest: row_insert_set split: sum.splits)

text \<open>The row \<^verbatim>\<open>User(email=..., password_hash=...)\<close>: everything else has its column's default.\<close>

definition new_account :: "string \<Rightarrow> string \<Rightarrow> uuid \<Rightarrow> instant \<Rightarrow> instant \<Rightarrow> user" where
  "new_account email h i created updated =
     \<lparr>u_id = i, u_email = email, u_password_hash = h, u_role = ROLE_USER, u_status = STATUS_ACTIVE,
      u_mfa_enabled = False, u_mfa_secret_encrypted = None, u_created_at = created, u_updated_at = updated,
      u_last_login_at = None, u_failed_login_count = 0, u_locked_until = None\<rparr>"

lemma new_account_simps [simp]:
  "u_id (new_account email h i c m) = i" "u_email (new_account email h i c m) = email"
  "u_password_hash (new_account email h i c m) = h" "u_role (new_account email h i c m) = ROLE_USER"
  "u_status (new_account email h i c m) = STATUS_ACTIVE" "u_locked_until (new_account email h i c m) = None"
  by (simp_all add: new_account_def)

lemma register_Inr:
  fixes w :: world
  assumes spec: "argon2_spec L" and ok: "fst (register L r w) = Inr s"
  obtains u where "row_insert u_id u_email u (t_users (db w)) = Inr (t_users (db w) @ [u])"
    "disk (snd (register L r w)) = (db w)\<lparr>t_users := t_users (db w) @ [u]\<rparr>"
    "u_email u = reg_email r" "u_role u = ROLE_USER" "u_locked_until u = None"
    "credentials_ok L u (reg_password r)" "\<exists>h i c m. u = new_account (reg_email r) h i c m"
proof -
  obtain h where h: "argon2_hash L (window (rnd w) (cursor (rnd w)) 16) (text_of (reg_password r)) = Inr h"
    "argon2_verify L h (text_of (reg_password r)) = Inr True"
    using spec unfolding argon2_spec_def by (meson encodable_text)
  define w1 where "w1 = w\<lparr>rnd := rnd w\<lparr>cursor := cursor (rnd w) + 16\<rparr>\<rparr>"
  define mk where "mk = new_account (reg_email r) h"
  have "row_get u_email (reg_email r) (t_users (db w)) = None"
    using ok by (auto simp: register_def py_simps find_user_by_email_def split: if_splits)
  then have run: "register L r w = bindM (insert_user mk) (\<lambda>_. thenM commit (ret ''registered'')) w1"
    using h(1) by (simp add: register_def bindM_apply find_user_by_email_def hash_password_def
        on_entropy_def urandom_def w1_def mk_def new_account_def [abs_def])
  obtain x v where v: "insert_user mk w1 = (x, v)" by (cases "insert_user mk w1")
  then obtain u where x: "x = Inr u" using ok by (cases x) (simp_all add: run bindM_apply)
  have "fst (insert_user mk w1) = Inr u" using v x by simp
  from insert_user_Inr [OF this] obtain i c n where
    u: "u = mk i c n" "row_insert u_id u_email u (t_users (db w)) = Inr (t_users (db w) @ [u])"
    "db v = (db w)\<lparr>t_users := t_users (db w) @ [u]\<rparr>"
    using v by (auto simp: w1_def)
  have "disk (snd (register L r w)) = db v"
    using v x by (simp add: run bindM_apply thenM_apply commit_def)
  moreover have "credentials_ok L u (reg_password r)"
    using h(2) by (simp add: u(1) mk_def credentials_ok_def verify_password_def)
  ultimately show ?thesis using that [of u] u by (auto simp: mk_def)
qed

text \<open>The identifier the registration of \<open>w\<close> draws, after the 16 bytes of the password's salt.\<close>

definition fresh_user_id :: "world \<Rightarrow> uuid" where
  "fresh_user_id w = uuid4_of (window (rnd w) (cursor (rnd w) + 16) 16)"

text \<open>
  Property C22. The answer to a valid registration tells whether the address has an account: it is the
  conflict exactly when the normalised address is taken, and then nothing changes; otherwise the
  account is opened, unless its random identifier is taken, which the primary key refuses.
\<close>

theorem registration_outcome:
  assumes "argon2_spec L" "parse_register cfg body = Inr r"
  shows "if \<exists>u \<in> set (t_users (disk w)). u_email u = reg_email r
    then fst (serve L cfg (Register body) w) = Inl CONFLICT \<and> after L cfg (Register body) w = disk w
    else if fresh_user_id w \<in> u_id ` set (t_users (disk w))
    then fst (serve L cfg (Register body) w) = Inl IntegrityError \<and> after L cfg (Register body) w = disk w
    else fst (serve L cfg (Register body) w) = Inr (Status ''registered'')"
proof -
  have taken: "row_get u_email (reg_email r) (t_users (disk w)) = None \<longleftrightarrow>
      (\<forall>u \<in> set (t_users (disk w)). u_email u \<noteq> reg_email r)"
    by (auto simp: row_get_def find_None_iff)
  obtain h where "argon2_hash L (window (rnd w) (cursor (rnd w)) 16) (text_of (reg_password r)) = Inr h"
    using assms(1) unfolding argon2_spec_def by (meson encodable_text)
  note run = answer_with_result after_def post_register_def with_db_run validated_def py_simps assms(2) this
    register_def find_user_by_email_def hash_password_def on_entropy_def urandom_def insert_user_def uuid4_def
    now_def with_tables_def row_insert_def Let_def commit_def fresh_user_id_def
  show ?thesis
  proof (cases "row_get u_email (reg_email r) (t_users (disk w))")
    case None
    then show ?thesis using taken by (auto simp: run image_iff)
  next
    case (Some u)
    then show ?thesis using taken by (auto simp: run)
  qed
qed

theorem registration_outcome_witness:
  "fst (serve demo_lib default_settings (Register demo_register_body) demo_world) = Inr (Status ''registered'')"
proof -
  have "uuid4_of bs \<noteq> 7" "uuid4_of bs \<noteq> 8" for bs by (rule small_not_uuid4; simp)+
  with registration_outcome [OF demo_argon2_ok demo_register, of demo_world]
  show ?thesis by (simp add: demo_defs fresh_user_id_def del: serve.simps)
qed

text \<open>
  Property C20. Who registers can log in: a successful registration adds one active account with the
  ordinary role and changes nothing else, and a login with the address and password it was made
  with yields tokens (up to a collision of random identifiers), as long as nothing else happens
  in between.
\<close>

theorem register_then_login:
  assumes spec: "argon2_spec L" and wf: "consistent (disk w)"
    and reg: "parse_register cfg rb = Inr r" "fst (serve L cfg (Register rb) w) = Inr x"
    and log: "parse_login lb = Inr b" "log_email b = reg_email r" "log_password b = reg_password r"
    and v: "disk v = after L cfg (Register rb) w"
  shows "(\<exists>u. after L cfg (Register rb) w = (disk w)\<lparr>t_users := t_users (disk w) @ [u]\<rparr> \<and>
      u_email u = reg_email r \<and> u_role u = ROLE_USER \<and> u_status u = STATUS_ACTIVE) \<and>
    ((\<exists>t. fst (serve L cfg (Login lb req) v) = Inr (Tokens_answer t)) \<or>
     fst (serve L cfg (Login lb req) v) = Inl IntegrityError)"
proof -
  let ?w = "w\<lparr>db := disk w\<rparr>"
  have run: "post_register L cfg rb w =
      (fst (register L r ?w), (snd (register L r ?w))\<lparr>db := disk (snd (register L r ?w))\<rparr>)"
    using reg(1) by (simp add: post_register_def with_db_run validated_def bindM_def)
  obtain s where "fst (register L r ?w) = Inr s"
    using reg(2) by (cases "fst (register L r ?w)") (simp_all add: answer_with_result run)
  from register_Inr [OF spec this] obtain u where
    u: "row_insert u_id u_email u (t_users (disk w)) = Inr (t_users (disk w) @ [u])"
    "disk (snd (register L r ?w)) = (disk w)\<lparr>t_users := t_users (disk w) @ [u]\<rparr>"
    "u_email u = reg_email r" "u_role u = ROLE_USER" "u_locked_until u = None"
    "credentials_ok L u (reg_password r)" by auto
  have after: "after L cfg (Register rb) w = (disk w)\<lparr>t_users := t_users (disk w) @ [u]\<rparr>"
    using u(2) by (simp add: after_def run)
  have "row_get u_email (u_email u) (t_users (disk v)) = Some u"
    using users.insert_lookup [OF _ u(1)] wf v after by (simp add: consistent_def)
  then have "login_opens L b v" using u log by (simp add: login_opens_def unlocked_def)
  from login_accepted [OF spec log(1) this] show ?thesis
    using after u(3,4,6) by (auto simp: credentials_ok_def simp del: serve.simps)
qed

definition new_login_body :: body where
  "new_login_body = [(''email'', JText ''NEW@b.c''), (''password'', JText ''correct horse'')]"

lemma demo_registers:
  "\<exists>x. fst (serve demo_lib default_settings (Register demo_register_body) demo_world) = Inr x"
proof -
  have "uuid4_of bs \<noteq> 7" "uuid4_of bs \<noteq> 8" for bs by (rule small_not_uuid4; simp)+
  then show ?thesis
    by (simp add: answer_with_result post_register_def with_db_run validated_def bindM_apply demo_register
        register_def find_user_by_email_def hash_password_def on_entropy_def urandom_def demo_defs
        row_get_def insert_user_def py_simps uuid4_def now_def with_tables_def row_insert_def Let_def
        commit_def demo_lib_def)
qed

theorem register_then_login_witness:
  "fst (serve demo_lib default_settings (Login new_login_body demo_request)
     (snd (serve demo_lib default_settings (Register demo_register_body) demo_world))) \<noteq> Inl INVALID"
proof -
  have p: "parse_login new_login_body = Inr \<lparr>log_email = ''new@b.c'', log_password = ''correct horse''\<rparr>"
    by code_simp
  obtain x where x: "fst (serve demo_lib default_settings (Register demo_register_body) demo_world) = Inr x"
    using demo_registers by blast
  have c: "consistent (disk demo_world)" using demo_consistent by (simp add: demo_world_def)
  show ?thesis
    using register_then_login [OF demo_argon2_ok c demo_register x p _ _ after_def [symmetric], of demo_request]
    by (auto simp: INVALID_def simp del: serve.simps)
qed

section \<open>The tokens of a login\<close>

lemma text_of_token [simp]: "text_of (map char_of (b64url bs)) = b64url bs"
proof -
  have "of_char (char_of n) = n" if "n \<in> set (b64url bs)" for n :: nat
    using b64url_ascii [OF that] by simp
  then show ?thesis by (simp add: text_of_def map_idI)
qed

lemma parse_refresh_token: "parse_refresh [(''refresh_token'', JText s)] = Inr s"
  by (simp add: parse_refresh_def strict_fields_def text_field_def)

lemma refresh_accepted:
  assumes "parse_refresh body = Inr t" "hash_token L (text_of t) = Inr h"
    "row_get s_hash h (t_sessions (disk v)) = Some s" "live s" "wall v (ticks v) < s_expires_at s"
    "row_get u_id (s_user_id s) (t_users (disk v)) = Some y" "u_status y = STATUS_ACTIVE"
  shows "(\<exists>t. fst (serve L cfg (Refresh body) v) = Inr (Tokens_answer t)) \<or>
    fst (serve L cfg (Refresh body) v) = Inl IntegrityError"
proof -
  let ?v = "v\<lparr>db := disk v\<rparr>"
  obtain r v1 where r: "rotate_token L cfg (text_of t) ?v = (r, v1)"
    by (cases "rotate_token L cfg (text_of t) ?v")
  show ?thesis
  proof (cases r)
    case (Inl e)
    then have "e = IntegrityError"
      using r assms(2-5) sessions.insert_outcome
      by (auto simp: rotate_token_run Let_def split: if_splits sum.splits)
    then show ?thesis using r Inl assms(1)
      by (simp add: answer_with_result post_refresh_run refresh_def py_simps)
  next
    case (Inr i)
    then have "t_users (db v1) = t_users (disk v)" "s_user_id (issued i) = s_user_id s"
      using r assms(2,3) by (auto simp: rotate_token_Inr)
    then show ?thesis using r Inr assms(1,6,7)
      by (simp add: answer_with_result post_refresh_run refresh_def bindM_apply catchM_apply get_user_def
          create_access_token_run thenM_apply commit_def)
  qed
qed

text \<open>What a login that is granted leaves: the account, the session and what its tokens are.\<close>

lemma login_granted:
  assumes spec: "argon2_spec L" and wf: "consistent (disk w)"
    and log: "parse_login body = Inr b" "fst (serve L cfg (Login body req) w) = Inr (Tokens_answer t)"
    and v: "disk v = after L cfg (Login body req) w"
  obtains u w1 access expiration new y where
    "row_get u_email (log_email b) (t_users (disk w)) = Some u"
    "wall w1 = wall w" "ticks w1 \<le> ticks w + 2"
    "create_access_token L cfg (str_uuid (u_id u)) (u_role u) None w1 = (Inr (access, expiration), after_access w1)"
    "fresh_session L cfg (u_id u) (after_access w1) new"
    "t = \<lparr>access_token = access, refresh_token = b64url (next_token (after_access w1)),
          access_token_expiration = Aware expiration, refresh_token_expiration = Aware (s_expires_at new), token_type = ''bearer''\<rparr>"
    "row_get s_hash (s_hash new) (t_sessions (disk v)) = Some new"
    "row_get u_id (u_id u) (t_users (disk v)) = Some y" "u_status y = STATUS_ACTIVE" "welcomed u y"
proof -
  have "login_opens L b w"
    using log login_refused(1) [OF spec log(1), of w cfg req] by (auto simp del: serve.simps)
  then obtain u where u: "row_get u_email (log_email b) (t_users (disk w)) = Some u"
    "unlocked u (wall w (ticks w))" "credentials_ok L u (log_password b)"
    by (auto simp: login_opens_def)
  have id: "row_get u_id (u_id u) (t_users (disk w)) = Some u" "u_status u = STATUS_ACTIVE"
    using user_by_email(1) [OF wf u(1)] u(3) by (auto simp: credentials_ok_def)
  define w1 where "w1 = w\<lparr>db := disk w, ticks := Suc (ticks w + lock_ticks u)\<rparr>"
  have w1: "wall w1 = wall w" "ticks w1 \<le> ticks w + 2" "db w1 = disk w"
    by (simp_all add: w1_def lock_ticks_def)
  let ?m = "make_token_response L cfg (record_success (wall w (ticks w + lock_ticks u)) u) u req w1"
  have m: "fst ?m = Inr t" "disk v = disk (snd ?m)"
    using log u v by (auto simp: w1_def after_def answer_with_result post_login_run [OF log(1)] login_run [OF spec]
        split: sum.splits)
  obtain new us where n: "fresh_session L cfg (u_id u) (after_access w1) new"
    "\<forall>y. row_get u_id (u_id u) (t_users (db w1)) = Some y \<longrightarrow>
        (\<exists>z. row_get u_id (u_id u) us = Some z \<and> welcomed y z)"
    and out: "case row_insert s_id s_hash new (t_sessions (db w1)) of
        Inl e \<Rightarrow> fst ?m = Inl e \<and> disk (snd ?m) = disk w1
      | Inr ss \<Rightarrow>
          (\<exists>access expiration.
             create_access_token L cfg (str_uuid (u_id u)) (u_role u) None w1 =
               (Inr (access, expiration), after_access w1) \<and>
             fst ?m = Inr \<lparr>access_token = access, refresh_token = b64url (next_token (after_access w1)),
                    access_token_expiration = Aware expiration,
                    refresh_token_expiration = Aware (s_expires_at new), token_type = ''bearer''\<rparr>) \<and>
          disk (snd ?m) = (db w1)\<lparr>t_users := us, t_sessions := ss\<rparr>"
    using token_response_run [of L cfg u w1 "wall w (ticks w + lock_ticks u)" req] by blast
  obtain ss where ins: "row_insert s_id s_hash new (t_sessions (disk w)) = Inr ss"
    using out m(1) w1(3) by (cases "row_insert s_id s_hash new (t_sessions (disk w))") auto
  then have d: "t_users (disk v) = us" "t_sessions (disk v) = ss" using out m w1(3) by auto
  have "row_get s_hash (s_hash new) ss = Some new"
    using sessions.insert_lookup [OF _ ins] wf by (simp add: consistent_def)
  moreover obtain y where "row_get u_id (u_id u) us = Some y" "welcomed u y"
    using n(2) id w1(3) by auto
  moreover from this have "u_status y = STATUS_ACTIVE" using id(2) by (simp add: welcomed_def)
  ultimately show ?thesis using that [OF u(1) w1(1,2) _ n(1)] out m(1) w1(3) ins d by auto
qed

text \<open>
  Property C21. The tokens of a login work: in any later state with the database as the login left it,
  the access token authenticates as the account that logged in until its expiration (in whole
  seconds), and the refresh token is exchanged for new tokens until its own (up to a collision of
  random identifiers).
\<close>

theorem login_tokens_work:
  assumes spec: "argon2_spec L" "jwt_spec L" and wf: "consistent (disk w)"
    and ids: "\<forall>u \<in> set (t_users (disk w)). u_id u < 2 ^ 128"
    and log: "parse_login body = Inr b" "fst (serve L cfg (Login body req) w) = Inr (Tokens_answer t)"
    and v: "disk v = after L cfg (Login body req) w"
    and time: "\<forall>k. 0 \<le> wall w k" "\<forall>k \<le> ticks w + 2. wall w k \<le> wall v (ticks v)"
      "0 \<le> access_token_lifetime_minutes cfg"
  shows "\<exists>u. row_get u_email (log_email b) (t_users (disk w)) = Some u \<and>
    (\<forall>x. access_token_expiration t = Aware x \<and> wall v (ticks v) div 1000000 < x div 1000000 \<longrightarrow>
       (\<exists>y. caller L cfg (Some (''Bearer '' @ access_token t)) v = Inr y \<and> u_id y = u_id u)) \<and>
    (\<forall>x. refresh_token_expiration t = Aware x \<and> wall v (ticks v) < x \<longrightarrow>
       (\<exists>t'. fst (serve L cfg (Refresh [(''refresh_token'', JText (map char_of (refresh_token t)))]) v) =
          Inr (Tokens_answer t')) \<or>
       fst (serve L cfg (Refresh [(''refresh_token'', JText (map char_of (refresh_token t)))]) v) =
          Inl IntegrityError)"
proof -
  obtain u w1 access expiration new y where
    u: "row_get u_email (log_email b) (t_users (disk w)) = Some u"
    and w1: "wall w1 = wall w" "ticks w1 \<le> ticks w + 2"
    and tok: "create_access_token L cfg (str_uuid (u_id u)) (u_role u) None w1 = (Inr (access, expiration), after_access w1)"
    and n: "fresh_session L cfg (u_id u) (after_access w1) new"
    and t: "t = \<lparr>access_token = access, refresh_token = b64url (next_token (after_access w1)),
          access_token_expiration = Aware expiration, refresh_token_expiration = Aware (s_expires_at new), token_type = ''bearer''\<rparr>"
    and s: "row_get s_hash (s_hash new) (t_sessions (disk v)) = Some new"
    and y: "row_get u_id (u_id u) (t_users (disk v)) = Some y" "u_status y = STATUS_ACTIVE" "welcomed u y"
    using login_granted [OF spec(1) wf log v] .
  have id: "u_id u < 2 ^ 128" using ids row_get_in [OF u] by auto
  have access: "\<exists>y. caller L cfg (Some (''Bearer '' @ access_token t)) v = Inr y \<and> u_id y = u_id u"
    if "wall v (ticks v) div 1000000 < expiration div 1000000"
  proof -
    have "wall w1 (ticks w1) \<le> wall v (ticks v)" "0 \<le> wall w1 (ticks w1)" using time w1 by auto
    from created_token_user [OF spec(2) tok this(2) time(3) this(1) id] that y users.get_key [OF y(1)]
      has_bearer_Bearer [of access]
    show ?thesis by (simp add: caller_def get_current_user_run [OF spec(2)] t)
  qed
  have refresh: "(\<exists>t'. fst (serve L cfg (Refresh [(''refresh_token'', JText (map char_of (refresh_token t)))]) v) =
        Inr (Tokens_answer t')) \<or>
      fst (serve L cfg (Refresh [(''refresh_token'', JText (map char_of (refresh_token t)))]) v) = Inl IntegrityError"
    if "wall v (ticks v) < s_expires_at new"
  proof (rule refresh_accepted [OF parse_refresh_token _ s])
    show "hash_token L (text_of (map char_of (refresh_token t))) = Inr (s_hash new)"
      using n by (simp add: t fresh_session_def)
    show "live new" "row_get u_id (s_user_id new) (t_users (disk v)) = Some y" "u_status y = STATUS_ACTIVE"
      using n y by (simp_all add: fresh_session_def)
  qed (rule that)
  show ?thesis
    by (intro exI [of _ u] conjI u allI impI access refresh) (auto simp: t)
qed

text \<open>The demonstration user's first login, when there are no sessions yet.\<close>

definition demo_first_world :: world where
  "demo_first_world = demo_world\<lparr>disk := demo_tables\<lparr>t_sessions := []\<rparr>\<rparr>"

lemma demo_logs_in:
  "\<exists>t. fst (serve demo_lib default_settings (Login demo_login_body demo_request) demo_first_world) =
      Inr (Tokens_answer t) \<and> access_token_expiration t = Aware (1000000 + minutes 15)"
proof -
  let ?w1 = "demo_first_world\<lparr>db := disk demo_first_world, ticks := 1\<rparr>"
  let ?m = "make_token_response demo_lib default_settings (record_success 0 demo_user) demo_user demo_request ?w1"
  have u: "row_get u_email ''a@b.c'' (t_users (disk demo_first_world)) = Some demo_user"
    "lock_ticks demo_user = 0" "ticks demo_first_world = 0" "wall demo_first_world 0 = 0"
    by (simp_all add: demo_first_world_def demo_defs row_get_def lock_ticks_def)
  have "unlocked demo_user n" for n by (simp add: unlocked_def demo_user_def)
  moreover have "text_of ''hunter2'' = demo_pass" by (simp add: text_of_def demo_pass_def)
  then have "credentials_ok demo_lib demo_user ''hunter2''"
    by (simp add: credentials_ok_def demo_user_def verify_password_def demo_lib_def demo_argon2_verify_def)
  ultimately have s: "fst (serve demo_lib default_settings (Login demo_login_body demo_request) demo_first_world) =
      (case fst ?m of Inl e \<Rightarrow> Inl e | Inr x \<Rightarrow> Inr (Tokens_answer x))"
    using u by (simp add: answer_with_result post_login_run [OF demo_parse_login] login_run [OF demo_argon2_ok])
  have "t_sessions (db ?w1) = []" by (simp add: demo_first_world_def)
  then have "row_insert s_id s_hash new (t_sessions (db ?w1)) = Inr [new]" for new
    by (simp add: row_insert_def)
  moreover obtain new us where "case row_insert s_id s_hash new (t_sessions (db ?w1)) of
        Inl e \<Rightarrow> fst ?m = Inl e \<and> disk (snd ?m) = disk ?w1
      | Inr ss \<Rightarrow> (\<exists>access expiration.
             create_access_token demo_lib default_settings (str_uuid (u_id demo_user)) (u_role demo_user) None ?w1 =
               (Inr (access, expiration), after_access ?w1) \<and>
             fst ?m = Inr \<lparr>access_token = access, refresh_token = b64url (next_token (after_access ?w1)),
                    access_token_expiration = Aware expiration,
                    refresh_token_expiration = Aware (s_expires_at new), token_type = ''bearer''\<rparr>) \<and>
          disk (snd ?m) = (db ?w1)\<lparr>t_users := us, t_sessions := ss\<rparr>"
    using token_response_run [of demo_lib default_settings demo_user ?w1 0 demo_request] by blast
  ultimately obtain access expiration where
    "create_access_token demo_lib default_settings (str_uuid (u_id demo_user)) (u_role demo_user) None ?w1 =
       (Inr (access, expiration), after_access ?w1)"
    "fst ?m = Inr \<lparr>access_token = access, refresh_token = b64url (next_token (after_access ?w1)),
                    access_token_expiration = Aware expiration,
                    refresh_token_expiration = Aware (s_expires_at new), token_type = ''bearer''\<rparr>"
    by auto
  then show ?thesis using s
    by (auto simp: create_access_token_run demo_first_world_def demo_world_def default_settings_def)
qed

theorem login_tokens_work_witness:
  "\<exists>t y. fst (serve demo_lib default_settings (Login demo_login_body demo_request) demo_first_world) =
      Inr (Tokens_answer t) \<and>
    caller demo_lib default_settings (Some (''Bearer '' @ access_token t))
      (demo_first_world\<lparr>disk := after demo_lib default_settings (Login demo_login_body demo_request) demo_first_world,
         ticks := 5\<rparr>) = Inr y \<and> u_id y = 7"
proof -
  let ?v = "demo_first_world\<lparr>disk := after demo_lib default_settings (Login demo_login_body demo_request)
      demo_first_world, ticks := 5\<rparr>"
  obtain t where t: "fst (serve demo_lib default_settings (Login demo_login_body demo_request) demo_first_world) =
      Inr (Tokens_answer t)" "access_token_expiration t = Aware (1000000 + minutes 15)"
    using demo_logs_in by blast
  have c: "consistent (disk demo_first_world)"
    by (simp add: demo_first_world_def consistent_def demo_defs row_wf_def has_user_def)
  have ids: "\<forall>u \<in> set (t_users (disk demo_first_world)). u_id u < 2 ^ 128"
    by (simp add: demo_first_world_def demo_defs)
  have d: "disk ?v = after demo_lib default_settings (Login demo_login_body demo_request) demo_first_world"
    by simp
  have time: "\<forall>k. 0 \<le> wall demo_first_world k"
    "\<forall>k \<le> ticks demo_first_world + 2. wall demo_first_world k \<le> wall ?v (ticks ?v)"
    "0 \<le> access_token_lifetime_minutes default_settings"
    by (simp_all add: demo_first_world_def demo_world_def default_settings_def)
  from login_tokens_work [OF demo_argon2_ok demo_jwt c ids demo_parse_login t(1) d time]
  obtain u where u: "row_get u_email ''a@b.c'' (t_users (disk demo_first_world)) = Some u"
    "\<forall>x. access_token_expiration t = Aware x \<and> wall ?v (ticks ?v) div 1000000 < x div 1000000 \<longrightarrow>
       (\<exists>y. caller demo_lib default_settings (Some (''Bearer '' @ access_token t)) ?v = Inr y \<and> u_id y = u_id u)"
    unfolding login_request.simps by blast
  have "wall ?v (ticks ?v) div 1000000 < (1000000 + minutes 15) div 1000000"
    by (simp add: demo_first_world_def demo_world_def minutes_def)
  then obtain y where "caller demo_lib default_settings (Some (''Bearer '' @ access_token t)) ?v = Inr y"
    "u_id y = u_id u" using u(2) t(2) by blast
  moreover have "u = demo_user" using u(1) by (simp add: demo_first_world_def demo_defs row_get_def)
  then have "u_id u = 7" by (simp add: demo_user_def)
  ultimately show ?thesis using t(1) by auto
qed

end
