(* ===== verification/AccountLock.thy ===== *)
theory AccountLock
  imports Onboarding
begin

text \<open>
  What the login promises of the lockout, as an abstract machine: a lock counts the failures since it
  last opened and shuts for a while when they reach a limit. \<open>attempt\<close> is the contract, and a login
  to an account is shown to implement it.
\<close>

section \<open>The abstract lock\<close>

record lock =
  failures :: int
  shut_until :: "instant option"

definition shut :: "lock \<Rightarrow> instant \<Rightarrow> bool" where
  "shut k n \<longleftrightarrow> (case shut_until k of Some t \<Rightarrow> n < t | None \<Rightarrow> False)"

text \<open>An attempt with the right or a wrong password at the instant \<open>n\<close>; a failure is recorded at \<open>n'\<close>.\<close>

definition attempt :: "int \<Rightarrow> instant \<Rightarrow> bool \<Rightarrow> instant \<Rightarrow> instant \<Rightarrow> lock \<Rightarrow> bool \<times> lock" where
  "attempt most period right n n' k =
     (if shut k n then (False, k)
      else if right then (True, \<lparr>failures = 0, shut_until = None\<rparr>)
      else (False, \<lparr>failures = failures k + 1,
                    shut_until = (if most \<le> failures k + 1 then Some (n' + period) else shut_until k)\<rparr>))"

text \<open>Wrong attempts in a row, with the instants at which they are made and recorded.\<close>

fun wrong_attempts :: "int \<Rightarrow> instant \<Rightarrow> (instant \<times> instant) list \<Rightarrow> lock \<Rightarrow> lock" where
  "wrong_attempts most period [] k = k"
| "wrong_attempts most period ((n, n') # ts) k =
     wrong_attempts most period ts (snd (attempt most period False n n' k))"

lemma attempt_simps [simp]:
  "shut k n \<Longrightarrow> attempt most period right n n' k = (False, k)"
  "\<not> shut k n \<Longrightarrow> attempt most period True n n' k = (True, \<lparr>failures = 0, shut_until = None\<rparr>)"
  "\<not> shut k n \<Longrightarrow> attempt most period False n n' k =
    (False, \<lparr>failures = failures k + 1,
             shut_until = (if most \<le> failures k + 1 then Some (n' + period) else shut_until k)\<rparr>)"
  by (simp_all add: attempt_def)

text \<open>An open lock shuts with the attempt that reaches the limit, and no earlier.\<close>

lemma wrong_attempts_shut:
  assumes "shut_until k = None" "failures k < most"
  shows "shut_until (wrong_attempts most period ts k) = None \<longleftrightarrow> failures k + int (length ts) < most"
  using assms
proof (induction ts arbitrary: k)
  case (Cons t ts)
  obtain n n' where t: "t = (n, n')" by (cases t)
  have open_now: "\<not> shut k n" using Cons.prems(1) by (simp add: shut_def)
  show ?case
  proof (cases "most \<le> failures k + 1")
    case False
    then show ?thesis
      using Cons.IH [of "\<lparr>failures = failures k + 1, shut_until = None\<rparr>"] Cons.prems open_now
      by (simp add: t algebra_simps)
  next
    case True
    have kept: "shut_until j \<noteq> None \<Longrightarrow> most \<le> failures j \<Longrightarrow> shut_until (wrong_attempts most period us j) \<noteq> None"
      for us j
    proof (induction us arbitrary: j)
      case (Cons u us)
      then show ?case by (cases u; cases "shut j (fst u)") auto
    qed simp
    from True kept [of "\<lparr>failures = failures k + 1, shut_until = Some (n' + period)\<rparr>" ts] open_now
    show ?thesis by (simp add: t)
  qed
qed simp

section \<open>Logins implement the lock\<close>

definition lock_of :: "user \<Rightarrow> lock" where
  "lock_of u = \<lparr>failures = u_failed_login_count u, shut_until = u_locked_until u\<rparr>"

lemma shut_unlocked: "shut (lock_of u) n \<longleftrightarrow> \<not> unlocked u n"
  by (simp add: shut_def lock_of_def unlocked_def not_le split: option.split)

lemma lock_of_failure:
  "lock_of (after_failure cfg u n m) = \<lparr>failures = u_failed_login_count u + 1,
     shut_until = (if max_failed_logins cfg \<le> u_failed_login_count u + 1
       then Some (n + minutes (lockout_minutes cfg)) else u_locked_until u)\<rparr>"
  by (simp add: lock_of_def after_failure_def)

lemma lock_of_welcomed: "welcomed u z \<Longrightarrow> lock_of z = \<lparr>failures = 0, shut_until = None\<rparr>"
  by (simp add: lock_of_def welcomed_def)

text \<open>
  Property C36. A login implements the lock: whether it yields tokens, and what it makes of the failure
  count and the lock time of the account it names, are what the abstract lock does with an attempt at
  that moment, the attempt being right when the account is active and the password verifies. The one
  case left out is the unique violation of a repeated random identifier, which is rolled back.
\<close>

theorem login_refines_lock:
  assumes spec: "argon2_spec L" and wf: "consistent (disk w)" and b: "parse_login body = Inr b"
    and u: "row_get u_email (log_email b) (t_users (disk w)) = Some u"
    and no_clash: "fst (serve L cfg (Login body req) w) \<noteq> Inl IntegrityError"
  shows "\<exists>u'. row_get u_email (log_email b) (t_users (after L cfg (Login body req) w)) = Some u' \<and>
    (\<exists>t. fst (serve L cfg (Login body req) w) = Inr (Tokens_answer t), lock_of u') =
      attempt (max_failed_logins cfg) (minutes (lockout_minutes cfg)) (credentials_ok L u (log_password b))
        (wall w (ticks w)) (wall w (ticks w + lock_ticks u)) (lock_of u) \<and>
    ((\<nexists>t. fst (serve L cfg (Login body req) w) = Inr (Tokens_answer t)) \<longrightarrow>
      fst (serve L cfg (Login body req) w) = Inl INVALID \<and>
      t_sessions (after L cfg (Login body req) w) = t_sessions (disk w) \<and>
      t_jobs (after L cfg (Login body req) w) = t_jobs (disk w))"
proof -
  let ?n = "wall w (ticks w)" and ?v = "snd (serve L cfg (Login body req) w)"
  have email: "u_email u = log_email b" by (rule users.lookup_uniq [OF u])
  have d: "after L cfg (Login body req) w = disk ?v" by (simp add: after_def)
  consider (locked) "\<not> unlocked u ?n" | (wrong) "unlocked u ?n" "\<not> credentials_ok L u (log_password b)"
    | (right) "unlocked u ?n" "credentials_ok L u (log_password b)" by blast
  then have "\<exists>u'. row_get u_email (log_email b) (t_users (disk ?v)) = Some u' \<and>
    (\<exists>t. fst (serve L cfg (Login body req) w) = Inr (Tokens_answer t), lock_of u') =
      attempt (max_failed_logins cfg) (minutes (lockout_minutes cfg)) (credentials_ok L u (log_password b))
        ?n (wall w (ticks w + lock_ticks u)) (lock_of u)"
  proof cases
    case locked
    then show ?thesis using locked_login [OF spec b u, of cfg req] u by (simp add: shut_unlocked flip: d del: serve.simps)
  next
    case wrong
    have "wrong_guess L u body" using b email wrong(2) by (auto simp: wrong_guess_def)
    then obtain m where "row_get u_email (log_email b) (t_users (disk ?v)) =
        Some (after_failure cfg u (wall w (ticks w + lock_ticks u)) m)"
      using wrong_guess_step [OF spec wf _ wrong(1), of body cfg req] u email by auto
    moreover have "fst (serve L cfg (Login body req) w) = Inl INVALID"
      by (rule login_refused(1) [OF spec b]) (use u wrong(2) in \<open>simp add: login_opens_def\<close>)
    ultimately show ?thesis
      using wrong by (simp add: d shut_unlocked lock_of_failure del: serve.simps) (simp add: lock_of_def)
  next
    case right
    then have "login_opens L b w" using u by (simp add: login_opens_def)
    then obtain t where t: "fst (serve L cfg (Login body req) w) = Inr (Tokens_answer t)"
      using login_accepted [OF spec b, of w cfg req] no_clash by blast
    obtain y where y: "row_get u_id (u_id u) (t_users (disk ?v)) = Some y" "welcomed u y"
      by (rule login_granted [OF spec wf b t d [symmetric]]) (use u in auto)
    have "consistent (disk ?v)"
      using consistency.serve_order [of "Login body req" L w cfg] wf by (simp add: stays_consistent_def after_def)
    then have "row_get u_email (log_email b) (t_users (disk ?v)) = Some y"
      using users.lookup_iff_get [of "t_users (disk ?v)" y] y email
      by (simp add: consistent_def welcomed_def)
    then show ?thesis
      using t right y(2) by (simp add: d shut_unlocked lock_of_welcomed del: serve.simps)
  qed
  moreover have "login_opens L b w" if "fst (serve L cfg (Login body req) w) \<noteq> Inl INVALID"
    using that login_refused(1) [OF spec b] by blast
  ultimately show ?thesis
    using login_refused [OF spec b, of w cfg req] login_accepted [OF spec b, of w cfg req] no_clash
    unfolding d by blast
qed

theorem login_refines_lock_witness:
  "\<exists>u'. row_get u_email ''a@b.c'' (t_users (after demo_lib default_settings
      (Login [(''email'', JText ''a@b.c''), (''password'', JText ''guess'')] demo_request) demo_world)) = Some u' \<and>
    lock_of u' = \<lparr>failures = 1, shut_until = None\<rparr>"
proof -
  let ?g = "[(''email'', JText ''a@b.c''), (''password'', JText ''guess'')]"
  have p: "parse_login ?g = Inr \<lparr>log_email = ''a@b.c'', log_password = ''guess''\<rparr>" by code_simp
  have "demo_argon2 [] demo_pass \<noteq> demo_argon2 [] (text_of ''guess'')" by code_simp
  then have wrong: "\<not> credentials_ok demo_lib demo_user ''guess''"
    by (simp add: credentials_ok_def demo_defs verify_password_def demo_lib_def demo_argon2_verify_def)
  have u: "row_get u_email ''a@b.c'' (t_users (disk demo_world)) = Some demo_user"
    by (simp add: demo_defs row_get_def)
  have "fst (serve demo_lib default_settings (Login ?g demo_request) demo_world) = Inl INVALID"
    by (rule login_refused(1) [OF demo_argon2_ok p]) (use u wrong in \<open>simp add: login_opens_def\<close>)
  then have nc: "fst (serve demo_lib default_settings (Login ?g demo_request) demo_world) \<noteq> Inl IntegrityError"
    by (simp add: INVALID_def)
  have c: "consistent (disk demo_world)" using demo_consistent by (simp add: demo_world_def)
  have l: "lock_of demo_user = \<lparr>failures = 0, shut_until = None\<rparr>" "max_failed_logins default_settings = 10"
    by (simp_all add: lock_of_def demo_user_def default_settings_def)
  from login_refines_lock [OF demo_argon2_ok c p _ nc] u wrong show ?thesis
    by (simp add: l shut_def del: serve.simps) blast
qed

end
