(* ===== verification/Responses.thy ===== *)
theory Responses
  imports Lifecycle
begin

text \<open>
  What a client gets: the response with its request ID, as \<^verbatim>\<open>app/main.py\<close> composes the
  middleware with the routes, and which exceptions are not turned into one. The rules of \<open>raises\<close>
  (in \<open>Accounts\<close>) compute the exceptions of a handler from those of its steps.
\<close>

section \<open>Responses\<close>

datatype response = Answer answer | Error_response nat string

text \<open>FastAPI answers an \<^verbatim>\<open>HTTPException\<close>; any other exception passes through the
  middleware to the server.\<close>

definition respond :: "(world, answer) py \<Rightarrow> (world, response) py" where
  "respond m =
     catchM (bindM m (\<lambda>x. ret (Answer x)))
       (\<lambda>e. case e of HTTPException s d \<Rightarrow> ret (Error_response s d) | _ \<Rightarrow> raise e)"

definition handle ::
  "lib \<Rightarrow> settings \<Rightarrow> string option \<Rightarrow> call \<Rightarrow> (world, response \<times> string) py" where
  "handle L cfg header c = request_id_middleware header (respond (serve L cfg c))"

definition is_http :: "exn \<Rightarrow> bool" where
  "is_http e \<longleftrightarrow> (\<exists>s d. e = HTTPException s d)"

lemma http_consts [simp]:
  "is_http (HTTPException s d)" "is_http INVALID" "is_http NOT_FOUND" "is_http CONFLICT" "is_http BAD_UPLOAD"
  "is_http TOO_LARGE" "is_http EXTRACTION_FAILED" "is_http UNAUTHORIZED" "is_http UNPROCESSABLE"
  "is_http INVALID_STATUS" "is_http FORBIDDEN"
  by (auto simp: is_http_def INVALID_def NOT_FOUND_def CONFLICT_def BAD_UPLOAD_def TOO_LARGE_def
      EXTRACTION_FAILED_def UNAUTHORIZED_def UNPROCESSABLE_def INVALID_STATUS_def FORBIDDEN_def)

section \<open>More rules for raises\<close>

lemma raises_mono: "raises E m \<Longrightarrow> (\<And>e. E e \<Longrightarrow> F e) \<Longrightarrow> raises F m"
  unfolding raises_def by blast

lemma raises_raise: "E e \<Longrightarrow> raises E (raise e)"
  by (simp add: raises_def)

lemma raises_catch: "raises F m \<Longrightarrow> (\<And>e. F e \<Longrightarrow> raises E (h e)) \<Longrightarrow> raises E (catchM m h)"
  unfolding raises_def catchM_def by (fastforce split: prod.splits sum.splits)

lemma raises_with_db: "raises E m \<Longrightarrow> raises E (with_db m)"
  unfolding raises_def with_db_run by (metis fst_conv prod.collapse)

lemma raises_option: "raises E m \<Longrightarrow> (\<And>x. raises E (g x)) \<Longrightarrow> raises E (case y of None \<Rightarrow> m | Some x \<Rightarrow> g x)"
  by (cases y) simp_all

lemma raises_if_cond:
  "(b \<Longrightarrow> raises E m) \<Longrightarrow> (\<not> b \<Longrightarrow> raises E n) \<Longrightarrow> raises E (if b then m else n)"
  by simp

lemma raises_answer: "raises E m \<Longrightarrow> raises E (answer_with f m)"
  unfolding answer_with_def by (intro raises_rules)

text \<open>A bind whose first step is known to return only values that satisfy \<open>P\<close>.\<close>

lemma raises_bind_where:
  "raises E m \<Longrightarrow> (\<And>w x w'. m w = (Inr x, w') \<Longrightarrow> P x) \<Longrightarrow> (\<And>x. P x \<Longrightarrow> raises E (f x)) \<Longrightarrow> raises E (bindM m f)"
  unfolding raises_def bindM_def by (fastforce split: prod.splits sum.splits)

lemma raises_steps [raises_rules]:
  "raises E (find_user_by_email a)" "raises E (find_session_by_hash h)" "raises E (get_session i)"
  "raises E (get_job_row i)" "raises E (update_job i f)" "raises E (update_session i g)"
  "raises E perf_counter" "raises E snapshot" "raises E (delete_user i)"
  by (auto simp: raises_def find_user_by_email_def find_session_by_hash_def get_session_def
      get_job_row_def update_job_def update_session_def perf_counter_def snapshot_def delete_user_def)

lemma raises_insert_row:
  "raises ((=) IntegrityError) (insert_user mk)" "raises ((=) IntegrityError) (insert_job mk')"
proof -
  have "raises ((=) IntegrityError) (with_tables (\<lambda>t. bindR (row_insert u_id u_email u (t_users t))
      (\<lambda>us. Inr (t\<lparr>t_users := us\<rparr>))))" for u
    using users.insert_outcome [of u] by (auto simp: raises_def with_tables_def bindR_Inl_iff split: sum.splits)
  then show "raises ((=) IntegrityError) (insert_user mk)"
    unfolding insert_user_def by (intro raises_rules)
  have "raises ((=) IntegrityError) (with_tables (\<lambda>t. bindR (row_insert j_id j_id j (t_jobs t))
      (\<lambda>js. Inr (t\<lparr>t_jobs := js\<rparr>))))" for j
    using jobs.insert_outcome [of j] by (auto simp: raises_def with_tables_def bindR_Inl_iff split: sum.splits)
  then show "raises ((=) IntegrityError) (insert_job mk')"
    unfolding insert_job_def by (intro raises_rules)
qed

lemma raises_validated: "raises is_http (validated r)"
  unfolding validated_def by (cases r) (auto simp: raises_def)

lemma raises_or_404:
  "raises is_http (liftR (catchR (parse_uuid i) (\<lambda>e. if is_value_error e then Inl NOT_FOUND else Inl e)))"
  unfolding parse_or_404 by (cases "parse_uuid i") (simp_all add: raises_def)

lemma raises_current_user:
  assumes "jwt_spec L" shows "raises is_http (get_current_user L cfg a)"
  by (auto simp: raises_def get_current_user_run [OF assms] split: option.splits if_splits sum.splits)

lemma raises_admin_user: "jwt_spec L \<Longrightarrow> raises is_http (require_admin_user L cfg a)"
  unfolding require_admin_user_def by (intro raises_rules raises_current_user raises_raise) simp_all

section \<open>The exceptions of each handler\<close>

lemma raises_load_png:
  assumes "pil_errors_spec L" shows "raises is_http (load_png L cfg f)"
proof -
  have "raises (\<lambda>e. \<exists>c. e = FileValidationError c)
      (on_limit (validate_png L (max_upload_bytes cfg) (max_image_dimension cfg) (max_decoded_pixels cfg) d))" for d
    unfolding raises_def on_limit_def
  proof (intro allI impI)
    fix w e w'
    assume "(case validate_png L (max_upload_bytes cfg) (max_image_dimension cfg) (max_decoded_pixels cfg) d
        (bomb_limit w) of (r, l) \<Rightarrow> (r, w\<lparr>bomb_limit := l\<rparr>)) = (Inl e, w')"
    then have "fst (validate_png L (max_upload_bytes cfg) (max_image_dimension cfg) (max_decoded_pixels cfg) d
        (bomb_limit w)) = Inl e" by (simp split: prod.splits)
    then show "\<exists>c. e = FileValidationError c" using validate_png_rejects_with_code [OF assms] by blast
  qed
  then show ?thesis unfolding load_png_def
    by (intro raises_rules raises_catch [where F = "\<lambda>e. \<exists>c. e = FileValidationError c"])
      (auto intro!: raises_rules raises_raise)
qed

lemma load_png_decoded:
  assumes "pil_load_spec L" "load_png L cfg f w = (Inr (im, raw), w')"
  shows "decoded_image im"
proof -
  have "fst (validate_png L (max_upload_bytes cfg) (max_image_dimension cfg) (max_decoded_pixels cfg)
      (file_bytes f) (bomb_limit w)) = Inr im"
    using assms(2) by (auto simp: load_png_def py_simps on_limit_def Let_def increment_def
        split: if_splits prod.splits sum.splits exn.splits)
  then show ?thesis using validate_png_decoded [OF assms(1)] by blast
qed

definition answered :: "exn \<Rightarrow> bool" where
  "answered e \<longleftrightarrow> is_http e \<or> e = IntegrityError"

lemma answered_http: "raises is_http m \<Longrightarrow> raises answered m"
  by (erule raises_mono) (simp add: answered_def)

lemma answered_integrity: "raises ((=) IntegrityError) m \<Longrightarrow> raises answered m"
  by (erule raises_mono) (simp add: answered_def)

lemma hash_text: "\<exists>h. hash_token L (text_of t) = Inr h"
proof -
  obtain b where "utf8_encode (text_of t) = Inr b" using utf8_encode_total [OF encodable_text] by blast
  then show ?thesis by (simp add: hash_token_def)
qed

lemma raises_register:
  assumes "argon2_spec L" shows "raises answered (register L b)"
proof -
  have "raises answered (hash_password L (text_of p))" for p
  proof -
    have "argon2_hash L s (text_of p) \<noteq> Inl e" for s e
      using assms encodable_text [of p] unfolding argon2_spec_def by (metis sum.distinct(1))
    then show ?thesis by (auto simp: raises_def hash_password_def py_simps on_entropy_def urandom_def)
  qed
  then show ?thesis unfolding register_def
    by (intro raises_rules answered_integrity [OF raises_insert_row(1)] raises_raise) (simp add: answered_def)
qed

lemma raises_refresh: "raises answered (refresh L cfg (text_of t))"
proof -
  have rot: "raises (\<lambda>e. e = ReplayDetected \<or> (\<exists>m. e = InvalidRefreshToken m) \<or> e = IntegrityError)
      (rotate_token L cfg (text_of t))"
  proof -
    obtain h where "hash_token L (text_of t) = Inr h" using hash_text by blast
    then show ?thesis using sessions.insert_outcome
      by (auto simp: raises_def rotate_token_run Let_def split: option.splits if_splits sum.splits)
  qed
  show ?thesis unfolding refresh_def
    by (intro raises_rules raises_option raises_catch [OF rot])
      (auto simp: answered_def intro!: raises_rules raises_raise raises_create_token)
qed

lemma raises_logout: "raises E (logout L (text_of t))"
proof -
  obtain h where "hash_token L (text_of t) = Inr h" using hash_text by blast
  then show ?thesis unfolding logout_def revoke_session_def
    by (intro raises_rules raises_option) simp_all
qed

lemma raises_revoke_one: "raises is_http (revoke_one i u)"
  unfolding revoke_one_def revoke_session_def
  by (intro raises_rules raises_or_404 raises_option raises_raise) simp_all

lemma raises_owned_job: "raises is_http (owned_job_or_404 i u)"
  unfolding owned_job_or_404_def
  by (intro raises_rules raises_or_404 raises_option raises_raise) simp_all

lemma raises_set_status: "raises is_http (set_status i s)"
  unfolding set_status_def
  by (intro raises_rules raises_or_404 raises_option raises_raise) simp_all

lemma raises_verify_job:
  assumes "pil_errors_spec L" shows "raises answered (verify_job L cfg f u)"
proof -
  have "verify L im \<noteq> Inl e" for im e by (simp add: verify_unfold split: sum.split)
  then show ?thesis unfolding verify_job_def
    by (intro raises_rules raises_pair answered_http [OF raises_load_png [OF assms]]
        answered_integrity [OF raises_insert_row(2)]) simp_all
qed

text \<open>What may escape from a request besides an HTTP answer.\<close>

fun escapes :: "lib \<Rightarrow> call \<Rightarrow> exn \<Rightarrow> bool" where
  "escapes L (Register b) e = (e = IntegrityError)"
| "escapes L (Login b r) e = (e = IntegrityError)"
| "escapes L (Refresh b) e = (e = IntegrityError)"
| "escapes L (Verify a f) e = (e = IntegrityError)"
| "escapes L (Embed a f p d) e =
     (e = IntegrityError \<or>
      e = UnicodeEncodeError \<and>
        \<not> (encodable p \<and> encodable d \<and> encodable (case filename f of Some n \<Rightarrow> n | None \<Rightarrow> [])))"
| "escapes L (Extract a f p) e =
     (e = IntegrityError \<or>
      \<not> is_value_error e \<and>
        (\<exists>s n r q b. scrypt_init L s KEY_BYTES n r q = Inl e \<or> scrypt_derive L s KEY_BYTES n r q b = Inl e))"
| "escapes L _ e = False"

definition surfaces :: "lib \<Rightarrow> call \<Rightarrow> exn \<Rightarrow> bool" where
  "surfaces L c e \<longleftrightarrow> is_http e \<or> escapes L c e"

lemma raises_utf8: "(\<not> encodable p \<Longrightarrow> E UnicodeEncodeError) \<Longrightarrow> raises E (liftR (utf8_encode p))"
  using utf8_encode_total [of p] utf8_encode_Inl [of p] by (cases "encodable p") (auto simp: raises_def)

lemma raises_embed_job:
  assumes spec: "engine_spec L" "pil_errors_spec L" "pil_load_spec L" and cfg: "cfg_max_payload_bytes cfg < 2 ^ 31"
  shows "raises (surfaces L (Embed a f p d)) (embed_job L cfg f p d u)"
proof -
  let ?E = "surfaces L (Embed a f p d)"
  have http: "raises is_http m \<Longrightarrow> raises ?E m" for m :: "(world, 'b) py"
    by (erule raises_mono) (simp add: surfaces_def)
  have ins: "raises ?E (insert_job mk)" for mk
    by (rule raises_mono [OF raises_insert_row(2)]) (simp add: surfaces_def)
  have emb: "raises ?E (catchM (on_entropy (embed_payload L im q p))
      (\<lambda>e. case e of CapacityError m \<Rightarrow> raise TOO_LARGE | _ \<Rightarrow> raise e))"
    if im: "decoded_image im" and q: "length q < 2 ^ 31" for im q
  proof (rule raises_catch [where F = "\<lambda>e. (\<exists>m. e = CapacityError m) \<or> e = UnicodeEncodeError \<and> \<not> encodable p"])
    show "raises (\<lambda>e. (\<exists>m. e = CapacityError m) \<or> e = UnicodeEncodeError \<and> \<not> encodable p)
        (on_entropy (embed_payload L im q p))"
      unfolding raises_def on_entropy_def
      using embed_payload_Inl [OF spec(1) im q] by (auto split: prod.splits) (metis fst_conv)+
  qed (auto intro!: raises_raise simp: surfaces_def)
  have small: "length q < 2 ^ 31" if "\<not> cfg_max_payload_bytes cfg < int (length q)" for q :: bytes
  proof -
    have "int (length q) < 2 ^ 31" using that cfg by linarith
    then show ?thesis by simp
  qed
  show ?thesis unfolding embed_job_def case_prod_beta
  proof (rule raises_bind_where [where P = "\<lambda>x. decoded_image (fst x)"], goal_cases)
    case 1
    show ?case by (rule http [OF raises_load_png [OF spec(2)]])
  next
    case (2 w x w')
    then show ?case using load_png_decoded [OF spec(3)] by (cases x) simp
  next
    case (3 x)
    then show ?case
      by (intro raises_bind [OF raises_utf8] raises_if_cond raises_raise raises_bind [OF emb] small
          raises_bind [OF ins] raises_bind [OF raises_steps(7)] raises_then raises_prims)
        (simp_all add: surfaces_def)
  qed
qed

lemma derive_key_escapes:
  assumes "derive_key L pw s n r p = Inl e" "\<not> extract_catches e"
  shows "\<not> is_value_error e \<and>
    (\<exists>s n r q b. scrypt_init L s KEY_BYTES n r q = Inl e \<or> scrypt_derive L s KEY_BYTES n r q b = Inl e)"
proof -
  have "\<not> is_value_error e" using assms(2) by (cases e rule: extract_catches.cases) auto
  moreover from this have "utf8_encode pw \<noteq> Inl e"
    using utf8_encode_Inl [of pw e] by (auto simp: is_value_error_def)
  ultimately show ?thesis using assms(1) unfolding derive_key_def bindR_Inl_iff by blast
qed

lemma raises_extract_job:
  assumes spec: "engine_spec L" "pil_errors_spec L"
  shows "raises (surfaces L (Extract a f p)) (extract_job L cfg f p u)"
proof -
  let ?E = "surfaces L (Extract a f p)"
  have http: "raises ?E (load_png L cfg f)"
    by (rule raises_mono [OF raises_load_png [OF spec(2)]]) (simp add: surfaces_def)
  have ins: "raises ?E (insert_job mk)" for mk
    by (rule raises_mono [OF raises_insert_row(2)]) (simp add: surfaces_def)
  have ext: "raises ?E (catchM (liftR (extract_payload L im p))
      (\<lambda>e. case e of ExtractionError m \<Rightarrow> thenM (increment CRYPTO_AUTH_FAILURE 1) (raise EXTRACTION_FAILED)
       | _ \<Rightarrow> raise e))" for im
  proof (rule raises_catch [where F = "\<lambda>e. (\<exists>m. e = ExtractionError m) \<or> ?E e"])
    show "raises (\<lambda>e. (\<exists>m. e = ExtractionError m) \<or> ?E e) (liftR (extract_payload L im p))"
    proof (rule raises_liftR)
      fix e assume "extract_payload L im p = Inl e"
      then have "extract_stego L im p = Inl e" by (simp add: extract_payload_def)
      from extract_Inl [OF engine_specD(1,2) [OF spec(1)] this] show "(\<exists>m. e = ExtractionError m) \<or> ?E e"
        unfolding surfaces_def escapes.simps using derive_key_escapes by blast
    qed
    show "(\<exists>m. e = ExtractionError m) \<or> ?E e \<Longrightarrow> raises ?E (case e of ExtractionError m \<Rightarrow>
        thenM (increment CRYPTO_AUTH_FAILURE 1) (raise EXTRACTION_FAILED) | _ \<Rightarrow> raise e)" for e
      by (cases e) (auto intro!: raises_then raises_raise raises_prims simp: surfaces_def)
  qed
  show ?thesis unfolding extract_job_def
    by (intro raises_bind [OF http] raises_pair raises_bind [OF ext] raises_bind [OF ins]
        raises_then raises_prims)
qed

section \<open>Every request\<close>

lemma surfaces_http: "raises is_http m \<Longrightarrow> raises (surfaces L c) m"
  by (erule raises_mono) (simp add: surfaces_def)

lemma surfaces_answered: "raises answered m \<Longrightarrow> escapes L c IntegrityError \<Longrightarrow> raises (surfaces L c) m"
  by (erule raises_mono) (auto simp: surfaces_def answered_def)

lemma raises_reads:
  "raises E (me cfg u)" "raises E (list_sessions cfg u)" "raises E (list_jobs cfg u)"
  "raises E list_users" "raises E (list_all_jobs cfg)" "raises E (delete_me u)"
  "raises E health_live" "raises E health_ready"
  unfolding me_def list_sessions_def list_jobs_def list_users_def list_all_jobs_def delete_me_def
    health_live_def health_ready_def by (intro raises_rules)+

lemma raises_one_job: "raises is_http (get_job cfg i u)" "raises is_http (delete_job i u)"
  unfolding get_job_def delete_job_def by (intro raises_rules raises_owned_job)+

lemma raises_login:
  assumes "argon2_spec L"
  shows "raises (surfaces L (Login b r)) (answer_with Tokens_answer (post_login L cfg b r))"
proof (cases "parse_login b")
  case (Inl e)
  then show ?thesis unfolding post_login_def validated_def
    by (auto simp: raises_def answer_with_def bindM_def with_db_run surfaces_def)
next
  case (Inr l)
  have "e = INVALID \<or> e = IntegrityError" if "fst (serve L cfg (Login b r) w) = Inl e" for w e
    using that login_accepted [OF assms Inr, of w cfg r] login_refused(1) [OF assms Inr, of w cfg r]
    by (cases "login_opens L l w") (auto simp del: serve.simps)
  then have "e = INVALID \<or> e = IntegrityError"
    if "answer_with Tokens_answer (post_login L cfg b r) w = (Inl e, w')" for w e w'
    using that by (metis fst_conv serve.simps(2))
  then show ?thesis unfolding raises_def surfaces_def by (metis escapes.simps(2) http_consts(2))
qed

lemma raises_serve:
  assumes spec: "jwt_spec L" "argon2_spec L" "engine_spec L" "pil_errors_spec L" "pil_load_spec L"
    and cfg: "cfg_max_payload_bytes cfg < 2 ^ 31"
  shows "raises (surfaces L c) (serve L cfg c)"
proof -
  note cu = raises_current_user [OF spec(1), of cfg, THEN surfaces_http]
    and au = raises_admin_user [OF spec(1), of cfg, THEN surfaces_http]
    and parsed = raises_validated [THEN surfaces_http] and jobs = raises_one_job [THEN surfaces_http]
    and route = raises_answer raises_with_db raises_bind
  show ?thesis
  proof (cases c)
    case (Register b)
    then show ?thesis
      by (auto simp: post_register_def intro!: route parsed surfaces_answered [OF raises_register [OF spec(2)]])
  next
    case (Login b r)
    then show ?thesis using raises_login [OF spec(2)] by simp
  next
    case (Refresh b)
    then show ?thesis by (auto simp: post_refresh_def intro!: route parsed surfaces_answered [OF raises_refresh])
  next
    case (Logout b)
    then show ?thesis by (auto simp: post_logout_def intro!: route parsed raises_logout)
  next
    case (RevokeSession a i)
    then show ?thesis by (auto simp: del_session_def intro!: route cu surfaces_http [OF raises_revoke_one])
  next
    case (Embed a f p d)
    then show ?thesis
      using raises_embed_job [OF spec(3-5) cfg] by (auto simp: post_embed_def intro!: route cu)
  next
    case (Extract a f p)
    then show ?thesis using raises_extract_job [OF spec(3,4)] by (auto simp: post_extract_def intro!: route cu)
  next
    case (Verify a f)
    then show ?thesis
      by (auto simp: post_verify_def intro!: route cu surfaces_answered [OF raises_verify_job [OF spec(4)]])
  next
    case (GetJob a i)
    then show ?thesis by (auto simp: get_one_job_def intro!: route cu jobs)
  next
    case (DeleteJob a i)
    then show ?thesis by (auto simp: del_job_def intro!: route cu jobs)
  next
    case (SetStatus a i s)
    then show ?thesis by (auto simp: patch_status_def intro!: route au surfaces_http [OF raises_set_status])
  qed (auto simp: get_me_def del_me_def get_sessions_def get_jobs_def get_users_def get_all_jobs_def
      get_metrics_def intro!: route cu au raises_reads raises_steps)
qed

text \<open>
  Property C30. Every request is answered: it yields a response that carries the request's own ID if it
  sent one and a fresh UUID otherwise, unless one of the exceptions that \<open>escapes\<close> lists gets to
  the server: a repeated random identifier when a row is inserted, a lone surrogate in the texts of
  an embedding, or what scrypt raises, other than \<^verbatim>\<open>ValueError\<close>, on the cost parameters
  that an uploaded image declares. Routes that neither insert nor process images raise nothing.
\<close>

theorem every_request_answered:
  assumes "jwt_spec L" "argon2_spec L" "engine_spec L" "pil_errors_spec L" "pil_load_spec L"
    and "cfg_max_payload_bytes cfg < 2 ^ 31"
  shows "case fst (handle L cfg header c w) of
      Inl e \<Rightarrow> escapes L c e
    | Inr (response, request_id) \<Rightarrow>
        request_id = (case header of
                Some h \<Rightarrow> if h = [] then str_uuid (uuid4_of (window (rnd w) (cursor (rnd w)) 16)) else h
              | None \<Rightarrow> str_uuid (uuid4_of (window (rnd w) (cursor (rnd w)) 16)))"
proof -
  have r: "raises (escapes L c) (respond (serve L cfg c))" unfolding respond_def
  proof (rule raises_catch [where F = "surfaces L c"])
    show "raises (surfaces L c) (bindM (serve L cfg c) (\<lambda>x. ret (Answer x)))"
      by (intro raises_bind raises_serve assms raises_prims)
    show "surfaces L c e \<Longrightarrow> raises (escapes L c)
        (case e of HTTPException s d \<Rightarrow> ret (Error_response s d) | _ \<Rightarrow> raise e)" for e
      by (cases e) (auto simp: surfaces_def is_http_def intro!: raises_raise raises_prims)
  qed
  define start where "start = (case header of Some h \<Rightarrow> if h = [] then bindM uuid4 (\<lambda>i. ret (str_uuid i)) else ret h
      | None \<Rightarrow> bindM uuid4 (\<lambda>i. ret (str_uuid i)))"
  define rid where "rid = (case header of
                Some h \<Rightarrow> if h = [] then str_uuid (uuid4_of (window (rnd w) (cursor (rnd w)) 16)) else h
              | None \<Rightarrow> str_uuid (uuid4_of (window (rnd w) (cursor (rnd w)) 16)))"
  have "fst (start w) = Inr rid"
    by (simp add: start_def rid_def py_simps uuid4_def on_entropy_def urandom_def split: option.split)
  then obtain v where v: "start w = (Inr rid, v)" by (cases "start w") simp
  obtain x y where x: "respond (serve L cfg c) v = (x, y)" by (cases "respond (serve L cfg c) v")
  then show ?thesis using v r
    by (cases x)
      (auto simp: handle_def request_id_middleware_def bindM_apply raises_def simp flip: start_def rid_def)
qed

theorem every_request_answered_witness:
  "\<exists>answer. fst (handle demo_lib default_settings (Some ''req-1'') (Logout []) demo_world) = Inr (answer, ''req-1'')"
proof -
  have "cfg_max_payload_bytes default_settings < 2 ^ 31" by (simp add: default_settings_def)
  from every_request_answered [OF demo_jwt demo_argon2_ok demo_engine demo_pil_errors demo_pil_load this,
      where header = "Some ''req-1''" and c = "Logout []" and w = demo_world]
  show ?thesis by (auto split: sum.splits prod.splits)
qed

end
