(* ===== verification/Columns.thy ===== *)
theory Columns
  imports Invariants
begin

text \<open>
  The declared lengths of the text columns (\<^verbatim>\<open>app/db/models.py\<close>) as an invariant: no request
  writes a value that is too long, so PostgreSQL has none to refuse. \<open>columns_kept\<close> is the
  interpretation of \<open>app_order\<close> that relies on the lengths of the rows the handlers build.
\<close>

definition columns_fit :: "tables \<Rightarrow> bool" where
  "columns_fit t \<longleftrightarrow>
     (\<forall>u \<in> set (t_users t). user_fits u) \<and> (\<forall>s \<in> set (t_sessions t). session_fits s) \<and>
     (\<forall>j \<in> set (t_jobs t). job_fits j)"

definition columns_kept :: "tables \<Rightarrow> tables \<Rightarrow> bool" where
  "columns_kept t t' \<longleftrightarrow> (columns_fit t \<longrightarrow> columns_fit t')"

lemma columns_keptI:
  assumes "\<And>u. u \<in> set (t_users t') \<Longrightarrow> columns_fit t \<Longrightarrow> user_fits u"
    "\<And>s. s \<in> set (t_sessions t') \<Longrightarrow> columns_fit t \<Longrightarrow> session_fits s"
    "\<And>j. j \<in> set (t_jobs t') \<Longrightarrow> columns_fit t \<Longrightarrow> job_fits j"
  shows "columns_kept t t'"
  using assms unfolding columns_kept_def columns_fit_def by blast

lemma revoked_fits [simp]:
  "session_fits (s\<lparr>s_revoked_at := r\<rparr>) = session_fits s" "session_fits (retire n i s) = session_fits s"
  "job_fits (j\<lparr>j_deleted_at := d\<rparr>) = job_fits j"
  by (simp_all add: session_fits_def retire_def job_fits_def)

lemma revoked_from_fits: "revoked_from P s s' \<Longrightarrow> session_fits s' = session_fits s"
  by (auto simp: revoked_from_def split: if_splits)

interpretation columns: app_order columns_kept True True True
proof unfold_locales
  show "columns_kept t (t\<lparr>t_jobs := js\<rparr>)"
    if "True \<longrightarrow> job_fits j" "row_insert j_id j_id j (t_jobs t) = Inr js" for j t js
    using row_insert_set [OF that(2)] that(1) by (intro columns_keptI) (auto simp: columns_fit_def)
  show "columns_kept t (t\<lparr>t_jobs := modify_row j_id (j_id j) (\<lambda>r. r\<lparr>j_deleted_at := Some n\<rparr>) (t_jobs t)\<rparr>)"
    for t j n by (intro columns_keptI) (auto simp: columns_fit_def dest!: modify_row_set)
  show "columns_kept t (t\<lparr>t_sessions :=
      modify_row s_id (s_id s) (\<lambda>x. x\<lparr>s_revoked_at := Some n\<rparr>) (t_sessions t)\<rparr>)" for t s n
    by (intro columns_keptI) (auto simp: columns_fit_def dest!: modify_row_set)
  show "columns_kept t (t\<lparr>t_users := us\<rparr>)"
    if "True \<longrightarrow> user_fits u" "row_insert u_id u_email u (t_users t) = Inr us" for u t us
    using row_insert_set [OF that(2)] that(1) by (intro columns_keptI) (auto simp: columns_fit_def)
  show "columns_kept t (t\<lparr>t_users := modify_row u_id i f (t_users t)\<rparr>)"
    if "True \<longrightarrow> (\<forall>r. user_fits r \<longrightarrow> user_fits (f r))" for t i f
    using that by (intro columns_keptI) (auto simp: columns_fit_def dest!: modify_row_set)
  show "columns_kept t (t\<lparr>t_sessions := ss\<rparr>)"
    if "True \<longrightarrow> session_fits s" "row_insert s_id s_hash s (t_sessions t) = Inr ss" for s t ss
    using row_insert_set [OF that(2)] that(1) by (intro columns_keptI) (auto simp: columns_fit_def)
  show "columns_kept t (t\<lparr>t_sessions := modify_row s_id (s_id s) (retire n (s_id new)) ss\<rparr>)"
    if "s \<in> set (t_sessions t)" "True \<longrightarrow> session_fits s \<longrightarrow> session_fits new"
      "row_insert s_id s_hash new (t_sessions t) = Inr ss" for s t new ss n
    using row_insert_set [OF that(3)] that(1,2)
    by (intro columns_keptI) (auto simp: columns_fit_def dest!: modify_row_set)
  show "columns_kept t (t\<lparr>t_sessions := fst (stamp clk (\<lambda>s. s_family s = f) k (t_sessions t))\<rparr>)" for t clk f k
    by (intro columns_keptI) (auto simp: columns_fit_def revoked_from_fits dest!: stamp_set)
  show "columns_kept t (drop_user i t)" for t i
    by (intro columns_keptI) (auto simp: columns_fit_def drop_user_def)
qed (simp_all add: columns_kept_def)

text \<open>
  Property C15. In every database the service reaches, each text fits the declared length of its
  column: addresses are bounded by validation, user agents are cut to 256 characters, token, address
  and file hashes are hexadecimal SHA-256 digests, roles, states and types are short constants. The
  only reliance on a library is that argon2's encoded hashes stay below 256 characters.
\<close>

theorem reachable_columns_fit:
  assumes "reachable L cfg allowed w v" "columns_spec L" "columns_fit (disk w)"
  shows "columns_fit (disk v)"
  using reachable_order [OF columns.app_order_axioms assms(1)] assms(2,3)
  by (simp add: columns_kept_def)

theorem reachable_columns_fit_witness:
  "columns_fit (disk (snd (serve (demo_lib\<lparr>argon2_hash := (\<lambda>salt pw. Inr ''argon2'')\<rparr>) default_settings
     (Register demo_register_body) (demo_world\<lparr>disk := demo_tables\<lparr>t_users :=
       [demo_user\<lparr>u_password_hash := ''argon2''\<rparr>, demo_admin\<lparr>u_password_hash := ''argon2''\<rparr>]\<rparr>\<rparr>))))"
proof (rule reachable_columns_fit [OF reach_one [of "\<lambda>_. True"]])
  show "columns_spec (demo_lib\<lparr>argon2_hash := (\<lambda>salt pw. Inr ''argon2'')\<rparr>)"
    by (auto simp: columns_spec_def demo_lib_def min_def)
  have "length (concat (map f (replicate 31 x))) = 31 * length (f x)" for f :: "byte \<Rightarrow> string" and x
    by (simp add: length_concat sum_list_replicate)
  then have "length (hexdigest (97 # replicate 31 0)) \<le> 64"
    by (simp add: hexdigest_def hex_digits_2 del: map_replicate)
  then show "columns_fit (disk (demo_world\<lparr>disk := demo_tables\<lparr>t_users :=
       [demo_user\<lparr>u_password_hash := ''argon2''\<rparr>, demo_admin\<lparr>u_password_hash := ''argon2''\<rparr>]\<rparr>\<rparr>))"
    by (simp add: columns_fit_def user_fits_def session_fits_def job_fits_def demo_defs ROLE_USER_def
        ROLE_ADMIN_def STATUS_ACTIVE_def JOB_VERIFY_def JOB_SUCCEEDED_def)
qed simp

end
