(* ===== verification/TokenMachine.thy ===== *)
theory TokenMachine
  imports Renewal
begin

text \<open>
  What the session table promises, as an abstract machine: a token store maps a token's digest to
  a current or a spent token. \<open>exchange\<close> is the contract of \<^verbatim>\<open>refresh_tokens.rotate\<close>, and
  \<open>rotate_token\<close> is shown to implement it; \<open>token_step\<close> lists what may ever happen to a store, and
  every request of the service is shown to be a sequence of such steps.
\<close>

section \<open>The abstract store\<close>

text \<open>Family, owner and, for a current token, its expiry.\<close>

datatype token = Current uuid uuid instant | Spent uuid uuid

fun family_of :: "token \<Rightarrow> uuid" where
  "family_of (Current f u e) = f"
| "family_of (Spent f u) = f"

fun owner_of :: "token \<Rightarrow> uuid" where
  "owner_of (Current f u e) = u"
| "owner_of (Spent f u) = u"

type_synonym store = "string \<Rightarrow> token option"

definition spend :: "token \<Rightarrow> token" where
  "spend k = Spent (family_of k) (owner_of k)"

definition burn :: "uuid \<Rightarrow> store \<Rightarrow> store" where
  "burn f st = (\<lambda>h. map_option (\<lambda>k. if family_of k = f then spend k else k) (st h))"

definition forget :: "uuid \<Rightarrow> store \<Rightarrow> store" where
  "forget u st = (\<lambda>h. case st h of Some k \<Rightarrow> if owner_of k = u then None else Some k | None \<Rightarrow> None)"

datatype outcome = Unknown | Replay | Expired | Granted

text \<open>Presenting the digest \<open>h\<close> at the instant \<open>n\<close>, with \<open>h'\<close> and \<open>e'\<close> for the successor.\<close>

definition exchange :: "string \<Rightarrow> instant \<Rightarrow> string \<Rightarrow> instant \<Rightarrow> store \<Rightarrow> outcome \<times> store" where
  "exchange h n h' e' st =
     (case st h of
        None \<Rightarrow> (Unknown, st)
      | Some (Spent f u) \<Rightarrow> (Replay, burn f st)
      | Some (Current f u e) \<Rightarrow>
          if e \<le> n then (Expired, st) else (Granted, st(h \<mapsto> Spent f u, h' \<mapsto> Current f u e')))"

inductive token_step :: "store \<Rightarrow> store \<Rightarrow> bool" where
  step_issue: "h \<notin> dom st \<Longrightarrow> token_step st (st(h \<mapsto> Current f u e))"
| step_exchange: "st h = Some (Current f u e) \<Longrightarrow> h' \<notin> dom st \<Longrightarrow>
    token_step st (st(h \<mapsto> Spent f u, h' \<mapsto> Current f u e'))"
| step_withdraw: "st h = Some (Current f u e) \<Longrightarrow> token_step st (st(h \<mapsto> Spent f u))"
| step_burn: "token_step st (burn f st)"
| step_forget: "token_step st (forget u st)"

inductive_cases token_stepE: "token_step st st'"

text \<open>
  Tokens only ever grow old: \<open>k \<le> k'\<close> says that \<open>k'\<close> is \<open>k\<close>, possibly spent. A step of the
  machine leaves each token of the store as it is, spends it, or forgets it.
\<close>

instantiation token :: order
begin

definition less_eq_token :: "token \<Rightarrow> token \<Rightarrow> bool" where
  "k \<le> k' \<longleftrightarrow> k' = k \<or> k' = spend k"

definition less_token :: "token \<Rightarrow> token \<Rightarrow> bool" where
  "k < k' \<longleftrightarrow> k' \<noteq> k \<and> k' = spend k" for k k' :: token

instance
  by standard (auto simp: less_eq_token_def less_token_def spend_def)

end

lemma token_le_spend [simp]: "k \<le> spend k"
  by (simp add: less_eq_token_def)

lemma token_le_simps [simp]:
  "Spent f u \<le> k \<longleftrightarrow> k = Spent f u"
  "Current f u e \<le> k \<longleftrightarrow> k = Current f u e \<or> k = Spent f u"
  by (auto simp: less_eq_token_def spend_def)

lemma token_step_ages:
  assumes "token_step st st'" "st h = Some k"
  shows "case st' h of None \<Rightarrow> True | Some k' \<Rightarrow> k \<le> k'"
  using assms(1)
  by (cases rule: token_stepE)
    (use assms(2) in \<open>auto simp: burn_def forget_def split: option.splits if_splits\<close>)

section \<open>The session table as a store\<close>

definition token_of :: "session \<Rightarrow> token" where
  "token_of s = (if live s then Current (s_family s) (s_user_id s) (s_expires_at s)
                 else Spent (s_family s) (s_user_id s))"

definition tokens_of :: "session list \<Rightarrow> store" where
  "tokens_of ss = (\<lambda>h. map_option token_of (row_get s_hash h ss))"

lemma tokens_of_Some: "row_get s_hash h ss = Some s \<Longrightarrow> tokens_of ss h = Some (token_of s)"
  by (simp add: tokens_of_def)

lemma token_of_parts [simp]: "family_of (token_of s) = s_family s" "owner_of (token_of s) = s_user_id s"
  by (simp_all add: token_of_def)

lemma token_of_live: "live s \<Longrightarrow> token_of s = Current (s_family s) (s_user_id s) (s_expires_at s)"
  "\<not> live s \<Longrightarrow> token_of s = Spent (s_family s) (s_user_id s)"
  by (simp_all add: token_of_def)

lemma token_of_retire [simp]: "token_of (retire n i s) = Spent (s_family s) (s_user_id s)"
  by (simp add: token_of_def live_def retire_def)

lemma token_of_revoked: "token_of (s\<lparr>s_revoked_at := Some n\<rparr>) = Spent (s_family s) (s_user_id s)"
  by (simp add: token_of_def live_def)

lemma tokens_insert:
  assumes "sessions_wf ss" "row_insert s_id s_hash n ss = Inr ss'"
  shows "tokens_of ss' = (tokens_of ss)(s_hash n \<mapsto> token_of n)" "s_hash n \<notin> dom (tokens_of ss)"
  using sessions.insert_lookup_all [OF assms] sessions.insert_fresh [OF assms(2)]
  by (auto simp: tokens_of_def)

lemma tokens_modify:
  assumes "sessions_wf ss" "s \<in> set ss" "s_id (f s) = s_id s" "s_hash (f s) = s_hash s"
  shows "tokens_of (modify_row s_id (s_id s) f ss) = (tokens_of ss)(s_hash s \<mapsto> token_of (f s))"
proof -
  have get: "row_get s_id (s_id s) ss = Some s"
    using assms(1,2) by (simp add: row_get_def find_key_iff row_wf_def)
  then show ?thesis
    using sessions.update_lookup [OF assms(1), of "f s" s] assms(3,4)
    by (auto simp: tokens_of_def modify_row_def)
qed

lemma stamp_get_none:
  "row_get s_hash h ss = None \<Longrightarrow> row_get s_hash h (fst (stamp clk P k ss)) = None"
  using stamp_keys(2) [of clk P k ss] unfolding row_get_def find_None_iff_key
  by (metis list.set_map)

lemma tokens_stamp:
  assumes "sessions_wf ss"
  shows "tokens_of (fst (stamp clk (\<lambda>s. s_family s = f) k ss)) = burn f (tokens_of ss)"
proof
  fix h
  show "tokens_of (fst (stamp clk (\<lambda>s. s_family s = f) k ss)) h = burn f (tokens_of ss) h"
  proof (cases "row_get s_hash h ss")
    case None
    then show ?thesis by (simp add: tokens_of_def burn_def stamp_get_none)
  next
    case (Some s)
    obtain s' where s': "row_get s_hash h (fst (stamp clk (\<lambda>s. s_family s = f) k ss)) = Some s'"
      "revoked_from (\<lambda>s. s_family s = f) s s'" using stamp_get_hash [OF assms Some] by blast
    then show ?thesis using Some
      by (auto simp: tokens_of_def burn_def spend_def revoked_from_def token_of_revoked
          token_of_live split: if_splits)
  qed
qed

lemma row_get_filter:
  assumes "distinct (map key rows)"
  shows "row_get key k (filter P rows) =
    (case row_get key k rows of Some r \<Rightarrow> if P r then Some r else None | None \<Rightarrow> None)"
  using assms
proof (induction rows)
  case (Cons a rows)
  then have IH: "find (\<lambda>x. key x = k) (filter P rows) =
      (case find (\<lambda>x. key x = k) rows of Some r \<Rightarrow> if P r then Some r else None | None \<Rightarrow> None)"
    by (simp add: row_get_def)
  have "find (\<lambda>x. key x = k) rows = None" if "key a = k"
    using Cons.prems that by (auto simp: find_None_iff_key)
  then show ?case using IH by (simp add: row_get_def)
qed (simp add: row_get_def)

lemma tokens_drop:
  assumes "sessions_wf ss"
  shows "tokens_of (filter (\<lambda>s. s_user_id s \<noteq> u) ss) = forget u (tokens_of ss)"
  using assms
  by (auto simp: tokens_of_def forget_def row_wf_def row_get_filter split: option.split)

section \<open>Rotation implements the exchange\<close>

fun outcome_of :: "issued_refresh res \<Rightarrow> outcome" where
  "outcome_of (Inr i) = Granted"
| "outcome_of (Inl ReplayDetected) = Replay"
| "outcome_of (Inl (InvalidRefreshToken m)) = (if m = ''expired token'' then Expired else Unknown)"
| "outcome_of (Inl e) = Unknown"

text \<open>
  Property C17. \<open>rotate_token\<close> implements the abstract exchange: seen as a store of current and spent
  tokens, the session table after the call, and the outcome, are what \<open>exchange\<close> gives, for the
  digest of the presented token, the clock, and the digest and expiry of the successor. The one
  case left out is the unique violation of a repeated random identifier, which changes nothing.
\<close>

theorem rotate_refines_exchange:
  assumes wf: "sessions_wf (t_sessions (db w))" and h: "hash_token L raw = Inr h"
    and run: "rotate_token L cfg raw w = (r, w')" and no_clash: "r \<noteq> Inl IntegrityError"
  shows "(outcome_of r, tokens_of (t_sessions (db w'))) =
    exchange h (wall w (ticks w)) (token_digest L (next_token w))
      (wall w (Suc (Suc (ticks w))) + days (refresh_token_lifetime_days cfg))
      (tokens_of (t_sessions (db w)))"
proof (cases "row_get s_hash h (t_sessions (db w))")
  case None
  then show ?thesis using run h by (auto simp: rotate_token_run exchange_def tokens_of_def)
next
  case (Some s)
  have sh: "s_hash s = h" using sessions.lookup_uniq [OF Some] .
  note tok = tokens_of_Some [OF Some]
  consider (replay) "\<not> live s" | (expired) "live s" "s_expires_at s \<le> wall w (ticks w)"
    | (good) "live s" "wall w (ticks w) < s_expires_at s" by linarith
  then show ?thesis
  proof cases
    case replay
    then have "(r, w') = (Inl ReplayDetected, snd (revoke_family (s_family s) w))"
      using run replay_run [OF h Some] by simp
    then show ?thesis using tok tokens_stamp [OF wf] replay
      by (simp add: exchange_def token_of_live revoke_family_sessions)
  next
    case expired
    then show ?thesis using run h Some tok by (auto simp: rotate_token_run exchange_def token_of_live)
  next
    case good
    let ?new = "successor L cfg s w"
    show ?thesis
    proof (cases "row_insert s_id s_hash ?new (t_sessions (db w))")
      case (Inl e)
      then have "e = IntegrityError" using sessions.insert_outcome by blast
      then show ?thesis using run h Some good Inl no_clash by (simp add: rotate_token_run Let_def)
    next
      case (Inr ss)
      have w': "r = Inr \<lparr>raw_token = b64url (next_token w), issued = ?new\<rparr>"
        "t_sessions (db w') = modify_row s_id (s_id s)
          (retire (wall w (Suc (Suc (Suc (ticks w))))) (s_id ?new)) ss"
        using run h Some good Inr by (auto simp: rotate_token_run Let_def retire_def)
      have ss: "sessions_wf ss" "s \<in> set ss"
        using sessions.insert_wf [OF wf Inr] row_get_in [OF Some] row_insert_set [OF Inr] by auto
      have "token_digest L (next_token w) \<noteq> h" using tokens_insert(2) [OF wf Inr] tok by auto
      then show ?thesis
        using tok good tokens_modify [OF ss, of "retire (wall w (Suc (Suc (Suc (ticks w))))) (s_id ?new)"]
          tokens_insert [OF wf Inr]
        by (simp add: exchange_def token_of_live w' sh fun_upd_twist)
          (simp add: successor_def token_of_def live_def fun_upd_twist)
    qed
  qed
qed

theorem rotate_refines_exchange_witness:
  "tokens_of (t_sessions (db (snd (rotate_token demo_lib default_settings demo_token demo_revoked_world))))
     ''x'' = Some (Spent 10 7)"
proof -
  let ?old = "demo_session\<lparr>s_revoked_at := Some 5\<rparr>" and ?new = "demo_session\<lparr>s_id := 12, s_hash := ''x''\<rparr>"
  have s: "t_sessions (db demo_revoked_world) = [?old, ?new]"
    by (simp add: demo_revoked_world_def)
  have x: "s_hash demo_session \<noteq> ''x''"
    by (simp add: demo_session_def hexdigest_def hex_digits_2 hex_char_def)
  then have g: "row_get s_hash (s_hash demo_session) (t_sessions (db demo_revoked_world)) = Some ?old"
    "row_get s_hash ''x'' (t_sessions (db demo_revoked_world)) = Some ?new"
    by (simp_all add: s row_get_def)
  have "s_id demo_session = 9" by (simp add: demo_session_def)
  then have w: "sessions_wf (t_sessions (db demo_revoked_world))" using x by (simp add: s row_wf_def)
  have run: "rotate_token demo_lib default_settings demo_token demo_revoked_world =
      (Inl ReplayDetected, snd (revoke_family (s_family demo_session) demo_revoked_world))"
    using replay_run [OF demo_hash g(1)] by (simp add: live_def)
  have f: "s_family demo_session = 10" "s_user_id demo_session = 7" "live ?new"
    by (simp_all add: demo_session_def live_def)
  from rotate_refines_exchange [OF w demo_hash run] tokens_of_Some [OF g(1)] tokens_of_Some [OF g(2)]
  show ?thesis
    by (simp add: run exchange_def token_of_revoked burn_def spend_def f)
qed

section \<open>The service implements the token machine\<close>

definition refines_machine :: "tables \<Rightarrow> tables \<Rightarrow> bool" where
  "refines_machine t t' \<longleftrightarrow> (sessions_wf (t_sessions t) \<longrightarrow> sessions_wf (t_sessions t') \<and>
     token_step\<^sup>*\<^sup>* (tokens_of (t_sessions t)) (tokens_of (t_sessions t')))"

lemma refines_same: "t_sessions t' = t_sessions t \<Longrightarrow> refines_machine t t'"
  by (simp add: refines_machine_def)

lemma refines_step:
  assumes "sessions_wf (t_sessions t) \<Longrightarrow> sessions_wf (t_sessions t')"
    "sessions_wf (t_sessions t) \<Longrightarrow> token_step (tokens_of (t_sessions t)) (tokens_of (t_sessions t'))"
  shows "refines_machine t t'"
  using assms by (auto simp: refines_machine_def)

interpretation machine: app_order refines_machine False True True
proof unfold_locales
  show "refines_machine t t" for t by (simp add: refines_machine_def)
  show "refines_machine a c" if "refines_machine a b" "refines_machine b c" for a b c
    using that by (auto simp: refines_machine_def)
  show "refines_machine t (t\<lparr>t_sessions :=
      modify_row s_id (s_id s) (\<lambda>x. x\<lparr>s_revoked_at := Some n\<rparr>) (t_sessions t)\<rparr>)"
    if s: "s \<in> set (t_sessions t)" "live s" for t s n
  proof (rule refines_step)
    assume wf: "sessions_wf (t_sessions t)"
    then show "sessions_wf (t_sessions (t\<lparr>t_sessions :=
        modify_row s_id (s_id s) (\<lambda>x. x\<lparr>s_revoked_at := Some n\<rparr>) (t_sessions t)\<rparr>))"
      by (simp add: modify_row_wf)
    have "row_get s_hash (s_hash s) (t_sessions t) = Some s"
      using s(1) wf by (simp add: row_get_def find_key_iff row_wf_def)
    from tokens_of_Some [OF this] s(2) step_withdraw [of _ "s_hash s"]
    show "token_step (tokens_of (t_sessions t)) (tokens_of (t_sessions (t\<lparr>t_sessions :=
        modify_row s_id (s_id s) (\<lambda>x. x\<lparr>s_revoked_at := Some n\<rparr>) (t_sessions t)\<rparr>)))"
      using tokens_modify [OF wf s(1), of "\<lambda>x. x\<lparr>s_revoked_at := Some n\<rparr>"]
      by (simp add: token_of_revoked token_of_live)
  qed
  show "refines_machine t (t\<lparr>t_sessions := modify_row s_id (s_id s) (retire n (s_id new)) ss\<rparr>)"
    if s: "s \<in> set (t_sessions t)" "live s" "live new" "s_family new = s_family s"
      "s_user_id new = s_user_id s" "row_insert s_id s_hash new (t_sessions t) = Inr ss" for s t new ss n
  proof (rule refines_step)
    assume wf: "sessions_wf (t_sessions t)"
    have ss: "sessions_wf ss" "s \<in> set ss"
      using sessions.insert_wf [OF wf s(6)] s(1) row_insert_set [OF s(6)] by auto
    then show "sessions_wf (t_sessions (t\<lparr>t_sessions := modify_row s_id (s_id s) (retire n (s_id new)) ss\<rparr>))"
      by (simp add: modify_row_wf)
    have "row_get s_hash (s_hash s) (t_sessions t) = Some s"
      using s(1) wf by (simp add: row_get_def find_key_iff row_wf_def)
    then have cur: "tokens_of (t_sessions t) (s_hash s) = Some (Current (s_family s) (s_user_id s) (s_expires_at s))"
      using s(2) by (simp add: tokens_of_Some token_of_live)
    then have "s_hash new \<noteq> s_hash s" using tokens_insert(2) [OF wf s(6)] by auto
    then have "tokens_of (modify_row s_id (s_id s) (retire n (s_id new)) ss) =
        (tokens_of (t_sessions t))(s_hash s \<mapsto> Spent (s_family s) (s_user_id s),
          s_hash new \<mapsto> Current (s_family s) (s_user_id s) (s_expires_at new))"
      using tokens_modify [OF ss, of "retire n (s_id new)"] tokens_insert(1) [OF wf s(6)] s(3-5)
      by (simp add: token_of_live fun_upd_twist)
    with step_exchange [of _ "s_hash s", OF cur tokens_insert(2) [OF wf s(6)]]
    show "token_step (tokens_of (t_sessions t))
        (tokens_of (t_sessions (t\<lparr>t_sessions := modify_row s_id (s_id s) (retire n (s_id new)) ss\<rparr>)))"
      by simp
  qed
  show "refines_machine t (t\<lparr>t_sessions := ss\<rparr>)"
    if "live s" "row_insert s_id s_hash s (t_sessions t) = Inr ss" for s t ss
    using tokens_insert [OF _ that(2)] step_issue sessions.insert_wf [OF _ that(2)] that(1)
    by (intro refines_step) (simp_all add: token_of_live)
  show "refines_machine t (t\<lparr>t_sessions := fst (stamp clk (\<lambda>s. s_family s = f) k (t_sessions t))\<rparr>)" for t clk f k
    by (intro refines_step) (simp_all add: tokens_stamp step_burn row_wf_def stamp_keys)
  show "refines_machine t (drop_user i t)" for t i
    by (intro refines_step) (simp_all add: drop_user_def tokens_drop step_forget filter_wf)
qed (simp_all add: refines_same)

text \<open>
  Property C18. The service implements the token machine: whatever requests lead from one database to
  another, the refresh tokens, seen as a store of current and spent ones, evolve by its steps only:
  a fresh token is issued, a current one is exchanged for a fresh one or withdrawn, a family is
  burnt, the tokens of a deleted account are forgotten. None of them makes a spent token current.
\<close>

theorem service_refines_tokens:
  assumes "reachable L cfg allowed w v" "sessions_wf (t_sessions (disk w))"
  shows "token_step\<^sup>*\<^sup>* (tokens_of (t_sessions (disk w))) (tokens_of (t_sessions (disk v)))"
  using reachable_order [OF machine.app_order_axioms assms(1)] assms(2)
  by (simp add: refines_machine_def)

theorem service_refines_tokens_witness:
  "token_step\<^sup>*\<^sup>* (tokens_of (t_sessions (disk demo_world)))
     (tokens_of (t_sessions (disk (snd (serve demo_lib default_settings (Refresh demo_refresh_body) demo_world)))))"
proof (rule service_refines_tokens [OF reach_one [of "\<lambda>_. True"]])
  show "sessions_wf (t_sessions (disk demo_world))" using demo_wf(1) by (simp add: demo_world_def)
qed simp

end
