(* ===== verification/Concurrency.thy ===== *)
theory Concurrency
  imports TokenMachine Interleaving
begin

text \<open>
  Two refreshes at once. FastAPI runs the synchronous handlers in a thread pool, each with its own
  transaction: \<^verbatim>\<open>rotate\<close> first reads the presented session and checks it, and later
  inserts the successor and updates the row. \<open>rotation_step\<close> has these two accesses to the committed
  table as separate steps of a thread; one thread alone does what \<open>rotate_token\<close> does
  (\<open>rotation_alone\<close>). Interleaved, the check of one can precede the write of the other, and both are
  granted; but the first write spends the token for good, for whoever presents it later.
\<close>

section \<open>The steps of a rotation\<close>

datatype stage = Presenting | Accepted session | Rotated session | Refused

record rotations =
  committed :: "session list"
  stages :: "nat \<Rightarrow> stage"

text \<open>
  All threads present the token with digest \<open>h\<close>. Lines 99 to 111 read and decide; lines 115 to
  128, flushed and committed, insert the successor and update the row that was read, by its id.
\<close>

inductive rotation_step :: "string \<Rightarrow> rotations \<Rightarrow> rotations \<Rightarrow> bool" for h where
  accept: "stages s i = Presenting \<Longrightarrow> row_get s_hash h (committed s) = Some x \<Longrightarrow> live x \<Longrightarrow>
    n < s_expires_at x \<Longrightarrow>
    rotation_step h s (s\<lparr>stages := (stages s)(i := Accepted x)\<rparr>)"
| reject: "stages s i = Presenting \<Longrightarrow>
    (\<forall>x. row_get s_hash h (committed s) = Some x \<longrightarrow> live x \<and> s_expires_at x \<le> n) \<Longrightarrow>
    rotation_step h s (s\<lparr>stages := (stages s)(i := Refused)\<rparr>)"
| replay: "stages s i = Presenting \<Longrightarrow> row_get s_hash h (committed s) = Some x \<Longrightarrow> \<not> live x \<Longrightarrow>
    rotation_step h s (s\<lparr>committed := fst (stamp clk (\<lambda>y. s_family y = s_family x) k (committed s)),
      stages := (stages s)(i := Refused)\<rparr>)"
| rotate: "stages s i = Accepted x \<Longrightarrow> live new \<Longrightarrow> s_family new = s_family x \<Longrightarrow>
    s_user_id new = s_user_id x \<Longrightarrow> row_insert s_id s_hash new (committed s) = Inr ss \<Longrightarrow>
    rotation_step h s (s\<lparr>committed := modify_row s_id (s_id x) (retire n (s_id new)) ss,
      stages := (stages s)(i := Rotated new)\<rparr>)"
| clash: "stages s i = Accepted x \<Longrightarrow> row_insert s_id s_hash new (committed s) = Inl e \<Longrightarrow>
    rotation_step h s (s\<lparr>stages := (stages s)(i := Refused)\<rparr>)"

abbreviation rotation_run :: "string \<Rightarrow> rotations \<Rightarrow> rotations \<Rightarrow> bool" where
  "rotation_run h \<equiv> (rotation_step h)\<^sup>*\<^sup>*"

definition presenting :: "session list \<Rightarrow> rotations" where
  "presenting ss = \<lparr>committed = ss, stages = (\<lambda>_. Presenting)\<rparr>"

text \<open>One thread alone: read, then write, is \<open>rotate_token\<close>.\<close>

lemma rotation_alone:
  assumes "hash_token L raw = Inr h" "rotate_token L cfg raw w = (Inr i, w')"
  shows "rotation_run h (presenting (t_sessions (db w)))
    \<lparr>committed = t_sessions (db w'), stages = (\<lambda>_. Presenting)(0 := Rotated (issued i))\<rparr>"
proof -
  obtain s ss n where s: "row_get s_hash h (t_sessions (db w)) = Some s" "live s"
    "wall w (ticks w) < s_expires_at s"
    and ins: "row_insert s_id s_hash (successor L cfg s w) (t_sessions (db w)) = Inr ss"
    and out: "issued i = successor L cfg s w"
      "t_sessions (db w') = modify_row s_id (s_id s) (retire n (s_id (successor L cfg s w))) ss"
    using assms by (auto simp: rotate_token_Inr)
  let ?s0 = "presenting (t_sessions (db w))"
  let ?s1 = "?s0\<lparr>stages := (stages ?s0)(0 := Accepted s)\<rparr>"
  have "rotation_step h ?s0 ?s1"
    by (rule rotation_step.accept [OF _ _ s(2,3)]) (simp_all add: presenting_def s(1))
  moreover have "rotation_step h ?s1 (?s1\<lparr>committed := modify_row s_id (s_id s)
      (retire n (s_id (successor L cfg s w))) ss, stages := (stages ?s1)(0 := Rotated (successor L cfg s w))\<rparr>)"
    by (rule rotation_step.rotate) (simp_all add: presenting_def ins)
  ultimately have "rotation_run h ?s0 (?s1\<lparr>committed := modify_row s_id (s_id s)
      (retire n (s_id (successor L cfg s w))) ss, stages := (stages ?s1)(0 := Rotated (successor L cfg s w))\<rparr>)"
    by (meson converse_rtranclp_into_rtranclp r_into_rtranclp)
  then show ?thesis by (simp add: presenting_def out)
qed

section \<open>The write of a rotation\<close>

lemma modify_row_lookup:
  assumes "sessions_wf ss" "row_get s_id (s_id x) ss = Some y" "s_hash y = s_hash x"
  shows "row_get s_hash g (modify_row s_id (s_id x) (retire n i) ss) =
    (if g = s_hash x then Some (retire n i y) else row_get s_hash g ss)"
proof -
  have "s_id y = s_id x" using row_get_in [OF assms(2)] by simp
  then show ?thesis
    using sessions.update_lookup [OF assms(1), of "retire n i y" y g] assms by (simp add: modify_row_def)
qed

text \<open>\<open>y\<close> is the row as it is when a thread that read \<open>x\<close> writes.\<close>

lemma rotated_lookup:
  assumes wf: "sessions_wf ss" and y: "row_get s_hash h ss = Some y" "s_id y = s_id x"
    and new: "row_insert s_id s_hash new ss = Inr ss'"
  shows "sessions_wf (modify_row s_id (s_id x) (retire n i) ss')" "s_hash new \<noteq> h"
    "row_get s_hash g (modify_row s_id (s_id x) (retire n i) ss') =
      (if g = h then Some (retire n i y) else if g = s_hash new then Some new else row_get s_hash g ss)"
proof -
  have wf': "sessions_wf ss'" by (rule sessions.insert_wf [OF wf new])
  then show "sessions_wf (modify_row s_id (s_id x) (retire n i) ss')" by (simp add: modify_row_wf)
  show n: "s_hash new \<noteq> h" using sessions.insert_fresh [OF new] y(1) by auto
  have "row_get s_id (s_id y) ss' = Some y"
    using sessions.insert_get [OF new] sessions.insert_fresh [OF new] sessions.lookup_get [OF wf y(1)]
    by (auto split: if_splits)
  then show "row_get s_hash g (modify_row s_id (s_id x) (retire n i) ss') =
      (if g = h then Some (retire n i y) else if g = s_hash new then Some new else row_get s_hash g ss)"
    using modify_row_lookup [OF wf', of y y] sessions.insert_lookup_all [OF wf new]
      sessions.lookup_uniq [OF y(1)] n y(2) by auto
qed

lemma row_insert_iff:
  "row_insert key uniq r rows = Inr (rows @ [r]) \<longleftrightarrow> key r \<notin> set (map key rows) \<and> uniq r \<notin> set (map uniq rows)"
  by (auto simp: row_insert_def)

text \<open>The write leaves the keys of the table as the insertion made them.\<close>

lemma rotated_insert:
  assumes "sessions_wf ss" "row_get s_id (s_id x) ss = Some y" "row_insert s_id s_hash b ss = Inr (ss @ [b])"
  shows "row_insert s_id s_hash b (modify_row s_id (s_id x) (retire n i) ss) =
    Inr (modify_row s_id (s_id x) (retire n i) ss @ [b])"
proof -
  have "map s_id (modify_row s_id (s_id x) (retire n i) ss) = map s_id ss"
    "map s_hash (modify_row s_id (s_id x) (retire n i) ss) = map s_hash ss"
    using row_update_uniq [OF _ _, of s_id ss "retire n i y" y s_hash] assms(1,2) row_get_in [OF assms(2)]
    by (simp_all add: modify_row_def row_update_key row_wf_def)
  then show ?thesis using assms(3) unfolding row_insert_iff by metis
qed

section \<open>What survives interleaving\<close>

text \<open>
  A row only ever grows old, in the order of tokens. A thread that has accepted holds an earlier
  version of the row, and once a thread has written, the row is spent.
\<close>

definition kin :: "session \<Rightarrow> session \<Rightarrow> bool" where
  "kin x y \<longleftrightarrow> s_id y = s_id x \<and> s_hash y = s_hash x \<and> token_of x \<le> token_of y"

definition racing :: "string \<Rightarrow> rotations \<Rightarrow> bool" where
  "racing h s \<longleftrightarrow> sessions_wf (committed s) \<and>
     (\<forall>i x. stages s i = Accepted x \<longrightarrow> live x \<and> (\<exists>y. row_get s_hash h (committed s) = Some y \<and> kin x y)) \<and>
     (\<forall>i a. stages s i = Rotated a \<longrightarrow> (\<exists>y. row_get s_hash h (committed s) = Some y \<and> \<not> live y))"

lemma kin_refl [simp]: "kin x x"
  by (simp add: kin_def)

lemma kin_trans: "kin x y \<Longrightarrow> kin y z \<Longrightarrow> kin x z"
  using order_trans by (auto simp: kin_def)

lemma kin_dead: "kin x y \<Longrightarrow> \<not> live x \<Longrightarrow> \<not> live y"
  by (auto simp: kin_def token_of_def split: if_splits)

lemma kin_retire: "kin y (retire n i y)"
  by (simp add: kin_def less_eq_token_def spend_def)

lemma revoked_from_kin: "revoked_from P s s' \<Longrightarrow> kin s s'"
  by (auto simp: kin_def revoked_from_def token_of_def live_def split: if_splits)

lemma kin_parts: "kin x y \<Longrightarrow> s_id y = s_id x \<and> s_family y = s_family x \<and> s_user_id y = s_user_id x"
  by (auto simp: kin_def less_eq_token_def spend_def token_of_def split: if_splits)

lemma racing_start: "sessions_wf ss \<Longrightarrow> racing h (presenting ss)"
  by (simp add: racing_def presenting_def)

text \<open>The row a thread that has accepted will overwrite.\<close>

lemma racing_accepted:
  assumes "racing h s" "stages s i = Accepted x"
  obtains y where "row_get s_hash h (committed s) = Some y" "kin x y" "s_id y = s_id x"
proof -
  obtain y where "row_get s_hash h (committed s) = Some y" "kin x y"
    using assms unfolding racing_def by blast
  then show ?thesis using that kin_parts by blast
qed

lemma rotation_step_ages:
  assumes "rotation_step h s t" "racing h s" "row_get s_hash g (committed s) = Some y"
  shows "\<exists>z. row_get s_hash g (committed t) = Some z \<and> kin y z"
  using assms
proof (induction rule: rotation_step.induct)
  case (replay s i x clk k)
  then have "sessions_wf (committed s)" by (simp add: racing_def)
  from stamp_get_hash [OF this replay.prems(2)] show ?case using revoked_from_kin by fastforce
next
  case (rotate s i x new ss n)
  obtain v where v: "row_get s_hash h (committed s) = Some v" "kin x v" "s_id v = s_id x"
    using racing_accepted [OF rotate.prems(1) rotate.hyps(1)] .
  have "sessions_wf (committed s)" using rotate.prems(1) by (simp add: racing_def)
  from rotated_lookup [OF this v(1,3) rotate.hyps(5)] show ?case
    using v(1) rotate.prems(2) sessions.insert_fresh [OF rotate.hyps(5)] kin_retire by auto
qed auto

lemma rotation_step_wf: "rotation_step h s t \<Longrightarrow> sessions_wf (committed s) \<Longrightarrow> sessions_wf (committed t)"
proof (induction rule: rotation_step.induct)
  case (rotate s i x new ss n)
  then show ?case using row_insert_wf [OF rotate.prems rotate.hyps(5)] by (simp add: modify_row_wf)
qed (simp_all add: row_wf_def stamp_keys)

text \<open>How the stage of a thread can have come about.\<close>

lemma rotation_step_stage:
  "rotation_step h s t \<Longrightarrow>
     (\<exists>i p. stages t = (stages s)(i := p) \<and>
       (p = Refused \<and> stages s i \<in> {Presenting} \<union> range Accepted \<or>
        (\<exists>x. p = Accepted x \<and> stages s i = Presenting \<and> row_get s_hash h (committed s) = Some x \<and> live x) \<or>
        (\<exists>a x n ss. p = Rotated a \<and> stages s i = Accepted x \<and> row_insert s_id s_hash a (committed s) = Inr ss \<and>
           committed t = modify_row s_id (s_id x) (retire n (s_id a)) ss)))"
  by (induction rule: rotation_step.induct) fastforce+

lemma racing_step:
  assumes "rotation_step h s t" "racing h s"
  shows "racing h t"
proof -
  note ages = rotation_step_ages [OF assms]
  have kept: "\<exists>z. row_get s_hash h (committed t) = Some z \<and> kin x z"
    if "row_get s_hash h (committed s) = Some y" "kin x y" for x y
    using ages [OF that(1)] kin_trans [OF that(2)] by blast
  have spent: "\<exists>z. row_get s_hash h (committed t) = Some z \<and> \<not> live z"
    if "row_get s_hash h (committed s) = Some y" "\<not> live y" for y
    using ages [OF that(1)] kin_dead [OF _ that(2)] by blast
  have wf: "sessions_wf (committed s)" using assms(2) by (simp add: racing_def)
  have written: "\<exists>z. row_get s_hash h (committed t) = Some z \<and> \<not> live z"
    if t: "stages s i = Accepted x" "row_insert s_id s_hash a (committed s) = Inr ss"
      "committed t = modify_row s_id (s_id x) (retire n (s_id a)) ss" for i x a n ss
  proof -
    obtain v where v: "row_get s_hash h (committed s) = Some v" "kin x v" "s_id v = s_id x"
      using racing_accepted [OF assms(2) t(1)] .
    from rotated_lookup(3) [OF wf v(1,3) t(2), of h n "s_id a"] show ?thesis
      by (simp add: t(3) live_def retire_def)
  qed
  have r: "\<And>i x. stages s i = Accepted x \<Longrightarrow> live x \<and> (\<exists>y. row_get s_hash h (committed s) = Some y \<and> kin x y)"
    "\<And>i a. stages s i = Rotated a \<Longrightarrow> \<exists>y. row_get s_hash h (committed s) = Some y \<and> \<not> live y"
    using assms(2) by (auto simp: racing_def)
  show ?thesis unfolding racing_def
  proof (intro conjI allI impI)
    show "sessions_wf (committed t)" by (rule rotation_step_wf [OF assms(1) wf])
    fix j x assume "stages t j = Accepted x"
    then have "stages s j = Accepted x \<or> row_get s_hash h (committed s) = Some x \<and> live x"
      using rotation_step_stage [OF assms(1)] by (auto split: if_splits)
    then show "live x" "\<exists>y. row_get s_hash h (committed t) = Some y \<and> kin x y"
      using r(1) kept kin_refl by blast+
  next
    fix j a assume "stages t j = Rotated a"
    then have "stages s j = Rotated a \<or> (\<exists>x n ss. stages s j = Accepted x \<and>
        row_insert s_id s_hash a (committed s) = Inr ss \<and>
        committed t = modify_row s_id (s_id x) (retire n (s_id a)) ss)"
      using rotation_step_stage [OF assms(1)] by (auto split: if_splits)
    then show "\<exists>y. row_get s_hash h (committed t) = Some y \<and> \<not> live y"
      using r(2) spent written by blast
  qed
qed

lemma racing_run: "rotation_run h s t \<Longrightarrow> racing h s \<Longrightarrow> racing h t"
  by (induction rule: rtranclp_induct) (auto intro: racing_step)

text \<open>
  Even interleaved, the rotations are steps of the token machine; the write of a thread whose row
  another has retired meanwhile is an issue.
\<close>

lemma rotation_step_refines:
  assumes "rotation_step h s t" "racing h s"
  shows "token_step\<^sup>*\<^sup>* (tokens_of (committed s)) (tokens_of (committed t))"
  using assms
proof (induction rule: rotation_step.induct)
  case (replay s i x clk k)
  then have "sessions_wf (committed s)" by (simp add: racing_def)
  from tokens_stamp [OF this, of clk "s_family x" k] step_burn show ?case by auto
next
  case (rotate s i x new ss n)
  have wf: "sessions_wf (committed s)" using rotate.prems by (simp add: racing_def)
  obtain v where v: "row_get s_hash h (committed s) = Some v" "kin x v" "s_id v = s_id x"
    using racing_accepted [OF rotate.prems rotate.hyps(1)] .
  let ?st = "tokens_of (committed s)" and ?k = "Current (s_family v) (s_user_id v) (s_expires_at new)"
  have "tokens_of (modify_row s_id (s_id x) (retire n (s_id new)) ss) =
      ?st(h \<mapsto> Spent (s_family v) (s_user_id v), s_hash new \<mapsto> ?k)"
    using rotated_lookup(2,3) [OF wf v(1,3) rotate.hyps(5)] rotate.hyps(2-4) kin_parts [OF v(2)]
    by (auto simp: tokens_of_def token_of_live)
  moreover have "s_hash new \<notin> dom ?st" using sessions.insert_fresh [OF rotate.hyps(5)] by (auto simp: tokens_of_def)
  moreover have "?st h = Some (token_of v)" by (rule tokens_of_Some [OF v(1)])
  ultimately show ?case
    using step_exchange [of ?st h] step_issue [of "s_hash new" ?st]
    by (intro r_into_rtranclp, cases "live v") (simp_all add: token_of_live fun_upd_idem del: fun_upd_apply)
qed simp_all

lemma rotation_run_refines:
  "rotation_run h s t \<Longrightarrow> racing h s \<Longrightarrow> token_step\<^sup>*\<^sup>* (tokens_of (committed s)) (tokens_of (committed t))"
proof (induction rule: rtranclp_induct)
  case (step v t)
  show ?case
    using step.IH [OF step.prems] rotation_step_refines [OF step.hyps(2) racing_run [OF step.hyps(1) step.prems]]
    by (rule rtranclp_trans)
qed simp

text \<open>Once the row is spent, nobody new is accepted.\<close>

lemma spent_run:
  assumes "rotation_run h s t" "racing h s" "row_get s_hash h (committed s) = Some y" "\<not> live y"
  shows "(\<exists>z. row_get s_hash h (committed t) = Some z \<and> \<not> live z) \<and>
    (stages s j \<in> {Presenting, Refused} \<longrightarrow> stages t j \<in> {Presenting, Refused})"
  using assms
proof (induction rule: rtranclp_induct)
  case (step v t)
  obtain z where z: "row_get s_hash h (committed v) = Some z" "\<not> live z" using step by blast
  obtain z' where "row_get s_hash h (committed t) = Some z'" "kin z z'"
    using rotation_step_ages [OF step.hyps(2) racing_run [OF step.hyps(1) step.prems(1)] z(1)] by blast
  moreover have "stages v j \<in> {Presenting, Refused} \<Longrightarrow> stages t j \<in> {Presenting, Refused}"
    using rotation_step_stage [OF step.hyps(2)] z by (auto split: if_splits)
  ultimately show ?case using step kin_dead z(2) by blast
qed auto

text \<open>
  Property C32. The write of a rotation is final, however the requests that present the token are
  interleaved. Once one of them has been granted, the token is spent for good: no request that
  presents it from then on is accepted, only those that had read it live before. And as a store,
  the table has only evolved by the steps of the token machine.
\<close>

theorem rotated_token_stays_spent:
  assumes "sessions_wf ss" "rotation_run h (presenting ss) s" "stages s i = Rotated a" "rotation_run h s t"
  shows "(\<exists>f u. tokens_of (committed t) h = Some (Spent f u)) \<and>
    (\<forall>j. stages s j = Presenting \<longrightarrow> stages t j \<in> {Presenting, Refused}) \<and>
    token_step\<^sup>*\<^sup>* (tokens_of ss) (tokens_of (committed t))"
proof -
  have r: "racing h s" using racing_run [OF assms(2) racing_start [OF assms(1)]] .
  then obtain y where y: "row_get s_hash h (committed s) = Some y" "\<not> live y"
    using assms(3) by (auto simp: racing_def)
  note spent = spent_run [OF assms(4) r y]
  have "token_step\<^sup>*\<^sup>* (tokens_of ss) (tokens_of (committed t))"
    using rotation_run_refines [OF rtranclp_trans [OF assms(2,4)] racing_start [OF assms(1)]]
    by (simp add: presenting_def)
  moreover have "\<exists>f u. tokens_of (committed t) h = Some (Spent f u)"
    using spent tokens_of_Some token_of_live(2) by metis
  ultimately show ?thesis using spent by auto
qed

theorem rotated_token_stays_spent_witness:
  "\<exists>i w. rotate_token demo_lib default_settings demo_token demo_world = (Inr i, w) \<and>
     (\<exists>f u. tokens_of (t_sessions (db w)) (s_hash demo_session) = Some (Spent f u))"
proof -
  obtain i w where r: "rotate_token demo_lib default_settings demo_token demo_world = (Inr i, w)"
    using demo_rotation by blast
  from rotated_token_stays_spent [OF demo_wf(1) rotation_alone [OF demo_hash r] _ rtranclp.rtrancl_refl,
      of 0 "issued i"] r
  show ?thesis by auto
qed

section \<open>Rotations always finish\<close>

fun accesses_left :: "stage \<Rightarrow> nat" where
  "accesses_left Presenting = 2"
| "accesses_left (Accepted x) = 1"
| "accesses_left p = 0"

lemma rotation_can_step:
  assumes "accesses_left (stages s i) \<noteq> 0"
  shows "\<exists>t. rotation_step h s t"
proof (cases "stages s i")
  case Presenting
  show ?thesis
  proof (cases "row_get s_hash h (committed s)")
    case None
    then have "\<forall>x. row_get s_hash h (committed s) = Some x \<longrightarrow> live x \<and> s_expires_at x \<le> 0" by simp
    from rotation_step.reject [OF Presenting this] show ?thesis by blast
  next
    case (Some x)
    then show ?thesis
      using rotation_step.accept [OF Presenting Some, of "s_expires_at x - 1"]
        rotation_step.replay [OF Presenting Some] by (cases "live x") auto
  qed
next
  case (Accepted x)
  let ?new = "x\<lparr>s_revoked_at := None\<rparr>"
  have "live ?new" by (simp add: live_def)
  then show ?thesis
    using rotation_step.rotate [OF Accepted, of ?new] rotation_step.clash [OF Accepted, of ?new]
    by (cases "row_insert s_id s_hash ?new (committed s)") (simp_all, blast+)
qed (use assms in simp_all)

lemma rotation_step_moves:
  "rotation_step h s t \<Longrightarrow>
     \<exists>i p. stages t = (stages s)(i := p) \<and> accesses_left p < accesses_left (stages s i)"
  using rotation_step_stage by fastforce

interpretation rotating: threads "rotation_step h" stages accesses_left for h
  by unfold_locales (rule rotation_step_moves rotation_can_step; assumption)+

text \<open>\<open>N\<close> refreshes are answered after at most \<open>2 * N\<close> accesses.\<close>

lemma rotations_terminate:
  assumes "(rotation_step h ^^ k) \<lparr>committed = ss, stages = first_threads N Presenting Refused\<rparr> s"
  shows "k \<le> 2 * N \<and> ((\<nexists>t. rotation_step h s t) \<longleftrightarrow> (\<forall>i < N. accesses_left (stages s i) = 0))"
  using rotating.terminates [OF assms, of N Presenting Refused] by simp

section \<open>The fork\<close>

text \<open>Both threads read the row, then both write.\<close>

lemma fork_run:
  fixes ss x a n
  defines "t1 \<equiv> modify_row s_id (s_id x) (retire n (s_id a)) (ss @ [a])"
  assumes x: "row_get s_hash h ss = Some x" "live x" "n < s_expires_at x"
    and a: "live a" "s_family a = s_family x" "s_user_id a = s_user_id x"
      "row_insert s_id s_hash a ss = Inr (ss @ [a])"
    and b: "live b" "s_family b = s_family x" "s_user_id b = s_user_id x"
      "row_insert s_id s_hash b t1 = Inr (t1 @ [b])"
  shows "rotation_run h (presenting ss)
    \<lparr>committed = modify_row s_id (s_id x) (retire n (s_id b)) (t1 @ [b]),
     stages = (\<lambda>_. Presenting)(0 := Rotated a, 1 := Rotated b)\<rparr>"
proof -
  let ?p = "\<lambda>t u v. \<lparr>committed = t, stages = (\<lambda>_. Presenting)(0 := u, 1 := v)\<rparr>"
  have "rotation_step h (?p ss Presenting Presenting) (?p ss (Accepted x) Presenting)"
    using rotation_step.accept [of "?p ss Presenting Presenting" 0 h x n] x by (simp add: fun_upd_twist)
  moreover have "rotation_step h (?p ss (Accepted x) Presenting) (?p ss (Accepted x) (Accepted x))"
    using rotation_step.accept [of "?p ss (Accepted x) Presenting" 1 h x n] x by simp
  moreover have "rotation_step h (?p ss (Accepted x) (Accepted x)) (?p t1 (Rotated a) (Accepted x))"
    using rotation_step.rotate [of "?p ss (Accepted x) (Accepted x)" 0 x a "ss @ [a]" h n] a
    by (simp add: fun_upd_twist t1_def)
  moreover have "rotation_step h (?p t1 (Rotated a) (Accepted x))
      (?p (modify_row s_id (s_id x) (retire n (s_id b)) (t1 @ [b])) (Rotated a) (Rotated b))"
    using rotation_step.rotate [of "?p t1 (Rotated a) (Accepted x)" 1 x b "t1 @ [b]" h n] b by simp
  moreover have "presenting ss = ?p ss Presenting Presenting" by (simp add: presenting_def fun_upd_idem)
  ultimately show ?thesis by (metis (no_types, lifting) converse_rtranclp_into_rtranclp rtranclp.rtrancl_refl)
qed

text \<open>
  Property C31. Concurrent refreshes fork a family: when two requests present the same live token and
  both read its session before either has written, both are granted. Afterwards both successors
  are live sessions of the one family, so that each holder goes on with a valid token of its own
  and no replay is ever detected.
\<close>

theorem concurrent_rotations_fork:
  assumes wf: "sessions_wf ss" and x: "row_get s_hash h ss = Some x" "live x" "n < s_expires_at x"
    and a: "live a" "s_family a = s_family x" "s_user_id a = s_user_id x"
      "row_insert s_id s_hash a ss = Inr (ss @ [a])"
    and b: "live b" "s_family b = s_family x" "s_user_id b = s_user_id x"
      "row_insert s_id s_hash b (ss @ [a]) = Inr (ss @ [a, b])"
  shows "\<exists>s. rotation_run h (presenting ss) s \<and> stages s 0 = Rotated a \<and> stages s 1 = Rotated b \<and>
    a \<noteq> b \<and> row_get s_hash (s_hash a) (committed s) = Some a \<and>
    row_get s_hash (s_hash b) (committed s) = Some b \<and>
    2 \<le> length (live_in (s_family x) (committed s))"
proof -
  let ?p = "\<lambda>t u v. \<lparr>committed = t, stages = (\<lambda>_. Presenting)(0 := u, 1 := v)\<rparr>"
  define t1 where "t1 = modify_row s_id (s_id x) (retire n (s_id a)) (ss @ [a])"
  define t2 where "t2 = modify_row s_id (s_id x) (retire n (s_id b)) (t1 @ [b])"
  note o1 = rotated_lookup(1,3) [where n = n and i = "s_id a", OF wf x(1) refl a(4), folded t1_def]
    rotated_lookup(2) [OF wf x(1) refl a(4)]
  have gx: "row_get s_id (s_id x) (ss @ [a]) = Some x"
    using sessions.insert_get [OF a(4)] sessions.insert_fresh [OF a(4)] sessions.lookup_get [OF wf x(1)] by auto
  have ib: "row_insert s_id s_hash b t1 = Inr (t1 @ [b])"
    unfolding t1_def using rotated_insert [OF sessions.insert_wf [OF wf a(4)] gx, of b] b(4) by simp
  have y: "row_get s_hash h t1 = Some (retire n (s_id a) x)" "s_id (retire n (s_id a) x) = s_id x"
    using o1(2) by simp_all
  note o2 = rotated_lookup(3) [where n = n and i = "s_id b", OF o1(1) y ib, folded t2_def]
    rotated_lookup(2) [OF o1(1) y ib]
  have "s_hash b \<noteq> s_hash a" using b(4) unfolding row_insert_iff [of _ _ _ "ss @ [a]", simplified] by auto
  then have la: "row_get s_hash (s_hash a) t2 = Some a" and lb: "row_get s_hash (s_hash b) t2 = Some b"
    using o1(2,3) o2 by auto
  have "set [a, b] \<subseteq> set (live_in (s_family x) t2)" "a \<noteq> b"
    using row_get_in [OF la] row_get_in [OF lb] a(1,2) b(1,2) \<open>s_hash b \<noteq> s_hash a\<close> by (auto simp: live_in_def)
  then have two: "2 \<le> length (live_in (s_family x) t2)"
    using card_mono [of "set (live_in (s_family x) t2)" "set [a, b]"]
      card_length [of "live_in (s_family x) t2"] by simp
  have "rotation_run h (presenting ss) (?p t2 (Rotated a) (Rotated b))"
    unfolding t2_def t1_def by (rule fork_run [OF x a b(1-3) ib [unfolded t1_def]])
  then show ?thesis using la lb two \<open>a \<noteq> b\<close>
    by (intro exI [of _ "?p t2 (Rotated a) (Rotated b)"]) simp
qed

theorem concurrent_rotations_fork_witness:
  "\<exists>s. rotation_run (s_hash demo_session) (presenting [demo_session]) s \<and>
     2 \<le> length (live_in 10 (committed s))"
proof -
  let ?a = "demo_session\<lparr>s_id := 12, s_hash := ''x''\<rparr>" and ?b = "demo_session\<lparr>s_id := 13, s_hash := ''y''\<rparr>"
  have i: "s_id demo_session = 9" "s_family demo_session = 10" "s_expires_at demo_session = days 7"
    by (simp_all add: demo_session_def)
  have h: "s_hash demo_session \<noteq> ''x''" "s_hash demo_session \<noteq> ''y''"
    by (simp_all add: demo_session_def hexdigest_def hex_digits_2 hex_char_def)
  have l: "live demo_session" "live ?a" "live ?b" by (simp_all add: live_def demo_session_def)
  have w: "sessions_wf [demo_session]" "row_get s_hash (s_hash demo_session) [demo_session] = Some demo_session"
    by (simp_all add: row_wf_def row_get_def)
  have e: "0 < s_expires_at demo_session" by (simp add: i days_def)
  have "row_insert s_id s_hash ?a [demo_session] = Inr ([demo_session] @ [?a])"
    "row_insert s_id s_hash ?b ([demo_session] @ [?a]) = Inr ([demo_session] @ [?a, ?b])"
    using h by (auto simp: row_insert_def i)
  from concurrent_rotations_fork [OF w l(1) e l(2) _ _ this(1) l(3) _ _ this(2)] show ?thesis
    by (auto simp: i)
qed

end
