(* ===== verification/ConcurrentLogins.thy ===== *)
theory ConcurrentLogins
  imports Accounts Interleaving
begin

text \<open>
  Logins at once. The handler reads the account, checks the lock and the password, and only then
  writes the failure count it computed from the row it had read. \<open>login_step\<close> has the read with its
  checks and the write as separate steps of a thread on the committed accounts; one thread alone
  does what the handler does (\<open>guess_alone\<close>). Interleaved, wrong guesses overwrite each other's
  counts, and the lockout of \<open>lockout_after_failures\<close> does not hold.
\<close>

section \<open>The steps of a login\<close>

datatype guess = Arrived | Rejected user | Accepted user | Counted | Admitted | Refused

record guesses =
  accounts :: "user list"
  turn :: "nat \<Rightarrow> guess"

text \<open>The columns \<open>record_failure\<close> and \<open>record_success\<close> write, with values computed from the row
  \<open>u\<close> that was read, into the row \<open>r\<close> that is there now. SQLAlchemy writes the columns whose value
  differs from the one read.\<close>

definition counted :: "settings \<Rightarrow> user \<Rightarrow> instant \<Rightarrow> instant \<Rightarrow> user \<Rightarrow> user" where
  "counted cfg u n m r =
     (let count = u_failed_login_count u + 1; r' = r\<lparr>u_failed_login_count := count, u_updated_at := m\<rparr> in
      if max_failed_logins cfg \<le> count then r'\<lparr>u_locked_until := Some (n + minutes (lockout_minutes cfg))\<rparr>
      else r')"

definition admitted :: "user \<Rightarrow> instant \<Rightarrow> instant \<Rightarrow> user \<Rightarrow> user" where
  "admitted u n m r =
     r\<lparr>u_failed_login_count := (if u_failed_login_count u = 0 then u_failed_login_count r else 0),
       u_locked_until := (if u_locked_until u = None then u_locked_until r else None),
       u_last_login_at := Some n, u_updated_at := m\<rparr>"

text \<open>Thread \<open>i\<close> tries the password \<open>pw i\<close> for the address \<open>email\<close>.\<close>

inductive login_step :: "lib \<Rightarrow> settings \<Rightarrow> string \<Rightarrow> (nat \<Rightarrow> string) \<Rightarrow> guesses \<Rightarrow> guesses \<Rightarrow> bool"
  for L cfg email pw where
  reject: "turn s i = Arrived \<Longrightarrow> row_get u_email email (accounts s) = Some u \<Longrightarrow> unlocked u n \<Longrightarrow>
    \<not> credentials_ok L u (pw i) \<Longrightarrow>
    login_step L cfg email pw s (s\<lparr>turn := (turn s)(i := Rejected u)\<rparr>)"
| accept: "turn s i = Arrived \<Longrightarrow> row_get u_email email (accounts s) = Some u \<Longrightarrow> unlocked u n \<Longrightarrow>
    credentials_ok L u (pw i) \<Longrightarrow>
    login_step L cfg email pw s (s\<lparr>turn := (turn s)(i := Accepted u)\<rparr>)"
| refuse: "turn s i = Arrived \<Longrightarrow>
    (\<forall>u. row_get u_email email (accounts s) = Some u \<longrightarrow> \<not> unlocked u n) \<Longrightarrow>
    login_step L cfg email pw s (s\<lparr>turn := (turn s)(i := Refused)\<rparr>)"
| count: "turn s i = Rejected u \<Longrightarrow>
    login_step L cfg email pw s (s\<lparr>accounts := modify_row u_id (u_id u) (counted cfg u n m) (accounts s),
      turn := (turn s)(i := Counted)\<rparr>)"
| admit: "turn s i = Accepted u \<Longrightarrow>
    login_step L cfg email pw s (s\<lparr>accounts := modify_row u_id (u_id u) (admitted u n m) (accounts s),
      turn := (turn s)(i := Admitted)\<rparr>)"

inductive_simps login_step_iff: "login_step L cfg email pw s t"

abbreviation login_run :: "lib \<Rightarrow> settings \<Rightarrow> string \<Rightarrow> (nat \<Rightarrow> string) \<Rightarrow> guesses \<Rightarrow> guesses \<Rightarrow> bool" where
  "login_run L cfg email pw \<equiv> (login_step L cfg email pw)\<^sup>*\<^sup>*"

definition arriving :: "user list \<Rightarrow> guesses" where
  "arriving us = \<lparr>accounts = us, turn = (\<lambda>_. Arrived)\<rparr>"

lemma counted_simps [simp]:
  "u_id (counted cfg u n m r) = u_id r" "u_email (counted cfg u n m r) = u_email r"
  "u_status (counted cfg u n m r) = u_status r" "u_password_hash (counted cfg u n m r) = u_password_hash r"
  "u_failed_login_count (counted cfg u n m r) = u_failed_login_count u + 1"
  by (simp_all add: counted_def Let_def)

lemma admitted_simps [simp]:
  "u_id (admitted u n m r) = u_id r" "u_email (admitted u n m r) = u_email r"
  by (simp_all add: admitted_def)

lemma login_step_wf:
  "login_step L cfg email pw s t \<Longrightarrow> row_wf u_id u_email (accounts s) \<Longrightarrow> row_wf u_id u_email (accounts t)"
  by (auto simp: login_step_iff modify_row_wf)

text \<open>One thread alone: read, then write, is what a failed login leaves committed.\<close>

lemma guess_alone:
  assumes "argon2_spec L" "parse_login body = Inr b" "consistent (disk w)"
    "row_get u_email (log_email b) (t_users (disk w)) = Some u"
    "unlocked u (wall w (ticks w))" "\<not> credentials_ok L u (log_password b)"
  shows "login_run L cfg (log_email b) (\<lambda>_. log_password b) (arriving (t_users (disk w)))
    \<lparr>accounts = t_users (after L cfg (Login body req) w), turn = (\<lambda>_. Arrived)(0 := Counted)\<rparr>"
proof -
  obtain m where m: "disk (snd (serve L cfg (Login body req) w)) = (disk w)\<lparr>t_users := row_update u_id
        (after_failure cfg u (wall w (ticks w + lock_ticks u)) m) (t_users (disk w))\<rparr>"
    using failed_login_effect [OF assms, of cfg req] by auto
  let ?n = "wall w (ticks w + lock_ticks u)"
  let ?s0 = "arriving (t_users (disk w))" and ?s1 = "\<lparr>accounts = t_users (disk w), turn = (\<lambda>_. Arrived)(0 := Rejected u)\<rparr>"
  have "login_step L cfg (log_email b) (\<lambda>_. log_password b) ?s0 ?s1"
    using login_step.reject [of ?s0 0 "log_email b" u "wall w (ticks w)" L "\<lambda>_. log_password b" cfg] assms(4-6)
    by (simp add: arriving_def)
  moreover have "counted cfg u ?n m u = after_failure cfg u ?n m"
    by (simp add: counted_def after_failure_def Let_def)
  then have "modify_row u_id (u_id u) (counted cfg u ?n m) (t_users (disk w)) = t_users (after L cfg (Login body req) w)"
    using user_by_email [OF assms(3,4)] m by (simp add: modify_row_def after_def del: serve.simps)
  then have "login_step L cfg (log_email b) (\<lambda>_. log_password b) ?s1
      \<lparr>accounts = t_users (after L cfg (Login body req) w), turn = (\<lambda>_. Arrived)(0 := Counted)\<rparr>"
    using login_step.count [of ?s1 0 u L cfg "log_email b" "\<lambda>_. log_password b" ?n m] by simp
  ultimately show ?thesis by (meson converse_rtranclp_into_rtranclp r_into_rtranclp)
qed

section \<open>Lost counts\<close>

text \<open>All threads up to \<open>N\<close> read before any writes.\<close>

lemma all_rejected:
  assumes "row_get u_email email us = Some u" "unlocked u n" "\<forall>i < N. \<not> credentials_ok L u (pw i)"
  shows "login_run L cfg email pw (arriving us) \<lparr>accounts = us, turn = (\<lambda>i. if i < N then Rejected u else Arrived)\<rparr>"
proof -
  let ?mk = "\<lambda>st. \<lparr>accounts = us, turn = st\<rparr>"
  have "login_step L cfg email pw (?mk st) (?mk (st(i := Rejected u)))" if "i < N" "st i = Arrived" for i st
    using login_step.reject [of "\<lparr>accounts = us, turn = st\<rparr>" i email u n L pw cfg] assms that by simp
  then show ?thesis using sweep [of N "\<lambda>_. True" Arrived "login_step L cfg email pw" ?mk "Rejected u" "\<lambda>_. Arrived"]
    by (simp add: arriving_def)
qed

text \<open>The account after any number of those writes.\<close>

definition miscounted :: "user \<Rightarrow> user \<Rightarrow> bool" where
  "miscounted u r \<longleftrightarrow>
     u_id r = u_id u \<and> u_email r = u_email u \<and> u_status r = u_status u \<and>
     u_password_hash r = u_password_hash u \<and> u_locked_until r = u_locked_until u \<and>
     u_failed_login_count r = u_failed_login_count u + 1"

lemma count_again:
  assumes "row_wf u_id u_email us" "row_get u_id (u_id u) us = Some r" "u_email r = u_email u" "u_status r = u_status u"
    "u_password_hash r = u_password_hash u" "u_locked_until r = u_locked_until u"
    "u_failed_login_count u + 1 < max_failed_logins cfg"
  shows "row_get u_id (u_id u) (modify_row u_id (u_id u) (counted cfg u n m) us) = Some (counted cfg u n m r) \<and>
    miscounted u (counted cfg u n m r)"
proof -
  have "u_id r = u_id u" using row_get_in [OF assms(2)] by simp
  then show ?thesis using assms users.update_get [of "u_id u" "counted cfg u n m r" us]
    by (simp add: modify_row_def miscounted_def) (simp add: counted_def Let_def)
qed

lemma all_counted:
  assumes "row_wf u_id u_email us" "row_get u_id (u_id u) us = Some u" "u_failed_login_count u + 1 < max_failed_logins cfg"
    and "k \<le> N" "0 < k"
  shows "\<exists>s r. login_run L cfg email pw \<lparr>accounts = us, turn = (\<lambda>i. if i < N then Rejected u else Arrived)\<rparr> s \<and>
    turn s = (\<lambda>i. if i < k then Counted else if i < N then Rejected u else Arrived) \<and>
    row_wf u_id u_email (accounts s) \<and> row_get u_id (u_id u) (accounts s) = Some r \<and> miscounted u r"
  using assms(4,5)
proof (induction k)
  case (Suc k)
  let ?s0 = "\<lparr>accounts = us, turn = (\<lambda>i. if i < N then Rejected u else Arrived)\<rparr>"
  obtain s r where s: "login_run L cfg email pw ?s0 s"
    "turn s = (\<lambda>i. if i < k then Counted else if i < N then Rejected u else Arrived)"
    "row_wf u_id u_email (accounts s)" "row_get u_id (u_id u) (accounts s) = Some r"
    and r: "u_email r = u_email u" "u_status r = u_status u" "u_password_hash r = u_password_hash u"
      "u_locked_until r = u_locked_until u"
  proof (cases "k = 0")
    case True
    then show thesis using that [of ?s0 u] assms(1,2) by simp
  next
    case False
    then show thesis using Suc that by (auto simp: miscounted_def)
  qed
  let ?t = "s\<lparr>accounts := modify_row u_id (u_id u) (counted cfg u 0 0) (accounts s), turn := (turn s)(k := Counted)\<rparr>"
  have step: "login_step L cfg email pw s ?t"
    by (rule login_step.count) (use s(2) Suc.prems in auto)
  have "turn ?t = (\<lambda>i. if i < Suc k then Counted else if i < N then Rejected u else Arrived)"
    using s(2) by auto
  then show ?case
    using rtranclp.rtrancl_into_rtrancl [OF s(1) step] login_step_wf [OF step s(3)]
      count_again [OF s(3,4) r assms(3), of 0 0]
    by (intro exI [of _ ?t]) simp
qed simp

text \<open>
  Property C33. Concurrent guesses are counted once. However many requests try wrong passwords for an
  unlocked account with at least two failures left, they can be interleaved so that each has its
  password checked and is recorded as a failure, and yet the account's count has only grown by one:
  it is as unlocked as before and as open to the right password.
\<close>

theorem concurrent_guesses_counted_once:
  assumes "row_wf u_id u_email us" "row_get u_email email us = Some u" "unlocked u n"
    "u_failed_login_count u + 1 < max_failed_logins cfg" "0 < N" "\<forall>i < N. \<not> credentials_ok L u (pw i)"
  shows "\<exists>s u'. login_run L cfg email pw (arriving us) s \<and> (\<forall>i < N. turn s i = Counted) \<and>
    row_get u_email email (accounts s) = Some u' \<and> u_failed_login_count u' = u_failed_login_count u + 1 \<and>
    u_locked_until u' = u_locked_until u \<and> (\<forall>p. credentials_ok L u' p = credentials_ok L u p)"
proof -
  have e: "u_email u = email" "row_get u_id (u_id u) us = Some u"
    using users.lookup_uniq [OF assms(2)] users.lookup_get [OF assms(1,2)] by simp_all
  obtain s r where s: "login_run L cfg email pw \<lparr>accounts = us, turn = (\<lambda>i. if i < N then Rejected u else Arrived)\<rparr> s"
    "turn s = (\<lambda>i. if i < N then Counted else if i < N then Rejected u else Arrived)"
    "row_wf u_id u_email (accounts s)" "row_get u_id (u_id u) (accounts s) = Some r" "miscounted u r"
    using all_counted [OF assms(1) e(2) assms(4) HOL.refl [THEN eq_refl] assms(5)] by blast
  have "row_get u_email (u_email r) (accounts s) = Some r"
    using users.lookup_iff_get [OF s(3), of r] s(4,5) by (simp add: miscounted_def)
  then show ?thesis
    using rtranclp_trans [OF all_rejected [OF assms(2,3,6), of cfg] s(1)] s(2,5) e(1)
    by (intro exI [of _ s] exI [of _ r]) (simp add: miscounted_def credentials_ok_def)
qed

theorem concurrent_guesses_counted_once_witness:
  "\<exists>s u'. login_run demo_lib default_settings ''a@b.c'' (\<lambda>_. ''wrong'') (arriving [demo_user]) s \<and>
     (\<forall>i < 1000. turn s i = Counted) \<and> row_get u_email ''a@b.c'' (accounts s) = Some u' \<and>
     u_failed_login_count u' = 1 \<and> u_locked_until u' = None"
proof -
  have "demo_argon2 [] demo_pass \<noteq> demo_argon2 [] (text_of ''wrong'')" by code_simp
  then have "\<not> credentials_ok demo_lib demo_user ''wrong''"
    by (simp add: credentials_ok_def demo_defs verify_password_def demo_lib_def demo_argon2_verify_def)
  then have wrong: "\<forall>i < 1000 :: nat. \<not> credentials_ok demo_lib demo_user ''wrong''" by simp
  have u: "row_wf u_id u_email [demo_user]" "row_get u_email ''a@b.c'' [demo_user] = Some demo_user"
    "unlocked demo_user 0" "u_failed_login_count demo_user + 1 < max_failed_logins default_settings"
    "u_failed_login_count demo_user = 0" "u_locked_until demo_user = None"
    by (simp_all add: row_wf_def row_get_def demo_defs unlocked_def default_settings_def)
  from concurrent_guesses_counted_once [OF u(1-4) _ wrong] show ?thesis
    unfolding u(5,6) by (metis add_0 zero_less_numeral)
qed

section \<open>Counts and locks in every interleaving\<close>

text \<open>\<open>N\<close> requests have arrived. Waiting for a database lock is not modelled: each access is a step
  that is always possible.\<close>

definition arriving_first :: "nat \<Rightarrow> user list \<Rightarrow> guesses" where
  "arriving_first N us = \<lparr>accounts = us, turn = first_threads N Arrived Refused\<rparr>"

fun steps_left :: "guess \<Rightarrow> nat" where
  "steps_left Arrived = 2"
| "steps_left (Rejected u) = 1"
| "steps_left (Accepted u) = 1"
| "steps_left g = 0"

fun_cases steps_left_doneE: "steps_left g = 0"

lemma steps_left_done [simp]: "steps_left g = 0 \<longleftrightarrow> g \<in> {Counted, Admitted, Refused}"
  by (auto elim!: steps_left_doneE)

lemma login_step_turn:
  "login_step L cfg email pw s t \<Longrightarrow>
     \<exists>i g. turn t = (turn s)(i := g) \<and> steps_left g < steps_left (turn s i)"
  unfolding login_step_iff by fastforce

lemma login_can_step:
  assumes "steps_left (turn s i) \<noteq> 0"
  shows "\<exists>t. login_step L cfg email pw s t"
proof (cases "turn s i")
  case Arrived
  show ?thesis
  proof (cases "\<exists>u. row_get u_email email (accounts s) = Some u \<and> unlocked u 0")
    case True
    then show ?thesis using Arrived login_step.accept login_step.reject by metis
  next
    case False
    then show ?thesis using login_step.refuse [OF Arrived, of email 0] by blast
  qed
next
  case (Rejected u)
  then show ?thesis using login_step.count by blast
next
  case (Accepted u)
  then show ?thesis using login_step.admit by blast
qed (use assms in simp_all)

interpretation logins: threads "login_step L cfg email pw" turn steps_left for L cfg email pw
  by unfold_locales (rule login_step_turn login_can_step; assumption)+

text \<open>A row of the account \<open>u\<close> when \<open>k\<close> failures have been recorded; \<open>W\<close> tells that all the guesses
  are wrong.\<close>

definition tracks :: "settings \<Rightarrow> user \<Rightarrow> bool \<Rightarrow> nat \<Rightarrow> user \<Rightarrow> bool" where
  "tracks cfg u W k r \<longleftrightarrow>
     u_id r = u_id u \<and> u_email r = u_email u \<and> u_status r = u_status u \<and>
     u_password_hash r = u_password_hash u \<and>
     u_failed_login_count r \<le> u_failed_login_count u + int k \<and>
     (u_locked_until r \<noteq> None \<longrightarrow> max_failed_logins cfg \<le> u_failed_login_count u + int k) \<and>
     (W \<longrightarrow> u_failed_login_count u \<le> u_failed_login_count r)"

fun turn_ok :: "settings \<Rightarrow> user \<Rightarrow> bool \<Rightarrow> nat \<Rightarrow> bool \<Rightarrow> guess \<Rightarrow> bool" where
  "turn_ok cfg u W k right Arrived = True"
| "turn_ok cfg u W k right (Rejected x) = (\<not> right \<and> tracks cfg u W k x)"
| "turn_ok cfg u W k right (Accepted x) = (right \<and> tracks cfg u W k x)"
| "turn_ok cfg u W k right Counted = (\<not> right)"
| "turn_ok cfg u W k right Admitted = right"
| "turn_ok cfg u W k right Refused = (max_failed_logins cfg \<le> u_failed_login_count u + int k)"

definition counts :: "nat \<Rightarrow> guesses \<Rightarrow> nat" where
  "counts N s = card {i. i < N \<and> turn s i = Counted}"

definition all_wrong :: "lib \<Rightarrow> (nat \<Rightarrow> string) \<Rightarrow> user \<Rightarrow> nat \<Rightarrow> bool" where
  "all_wrong L pw u N \<longleftrightarrow> (\<forall>i < N. \<not> credentials_ok L u (pw i))"

definition login_inv :: "lib \<Rightarrow> settings \<Rightarrow> (nat \<Rightarrow> string) \<Rightarrow> user \<Rightarrow> nat \<Rightarrow> guesses \<Rightarrow> bool" where
  "login_inv L cfg pw u N s \<longleftrightarrow>
     row_wf u_id u_email (accounts s) \<and>
     (\<exists>r. row_get u_id (u_id u) (accounts s) = Some r \<and> tracks cfg u (all_wrong L pw u N) (counts N s) r \<and>
       (all_wrong L pw u N \<and> 0 < counts N s \<longrightarrow> u_failed_login_count u + 1 \<le> u_failed_login_count r)) \<and>
     (\<forall>i < N. turn_ok cfg u (all_wrong L pw u N) (counts N s) (credentials_ok L u (pw i)) (turn s i)) \<and>
     (\<forall>i \<ge> N. turn s i = Refused)"

lemma tracks_mono: "tracks cfg u W k r \<Longrightarrow> k \<le> l \<Longrightarrow> tracks cfg u W l r"
  by (auto simp: tracks_def)

lemma turn_ok_mono: "turn_ok cfg u W k b g \<Longrightarrow> k \<le> l \<Longrightarrow> turn_ok cfg u W l b g"
  by (cases g) (auto intro: tracks_mono)

lemma tracks_credentials: "tracks cfg u W k r \<Longrightarrow> credentials_ok L r p = credentials_ok L u p"
  by (simp add: tracks_def credentials_ok_def)

lemma tracks_counted:
  "tracks cfg u W k x \<Longrightarrow> tracks cfg u W k r \<Longrightarrow> tracks cfg u W (Suc k) (counted cfg x n m r)"
  by (auto simp: tracks_def counted_def Let_def)

lemma tracks_admitted:
  "tracks cfg u False k x \<Longrightarrow> tracks cfg u False k r \<Longrightarrow> 0 \<le> u_failed_login_count u \<Longrightarrow>
     tracks cfg u False k (admitted x n m r)"
  by (auto simp: tracks_def admitted_def)

lemma counts_step:
  assumes "turn t = (turn s)(i := g)" "turn s i \<noteq> Counted" "i < N"
  shows "counts N t = (if g = Counted then Suc (counts N s) else counts N s)"
proof -
  have "{j. j < N \<and> turn t j = Counted} =
      (if g = Counted then insert i {j. j < N \<and> turn s j = Counted} else {j. j < N \<and> turn s j = Counted})"
    using assms by auto
  then show ?thesis using assms(2) by (simp add: counts_def)
qed

text \<open>One thread moves to \<open>g\<close>, with at least the count and a row that keeps track.\<close>

lemma login_inv_move:
  assumes "login_inv L cfg pw u N s" "turn t = (turn s)(i := g)" "i < N" "counts N s \<le> counts N t"
    "row_wf u_id u_email (accounts t)" "row_get u_id (u_id u) (accounts t) = Some r"
    "tracks cfg u (all_wrong L pw u N) (counts N t) r"
    "all_wrong L pw u N \<Longrightarrow> 0 < counts N t \<Longrightarrow> u_failed_login_count u + 1 \<le> u_failed_login_count r"
    "turn_ok cfg u (all_wrong L pw u N) (counts N t) (credentials_ok L u (pw i)) g"
  shows "login_inv L cfg pw u N t"
proof -
  have "turn_ok cfg u (all_wrong L pw u N) (counts N t) (credentials_ok L u (pw j)) (turn t j)" if "j < N" for j
  proof (cases "j = i")
    case False
    moreover have "turn_ok cfg u (all_wrong L pw u N) (counts N s) (credentials_ok L u (pw j)) (turn s j)"
      using assms(1) that unfolding login_inv_def by blast
    ultimately show ?thesis using turn_ok_mono [OF _ assms(4)] assms(2) by simp
  qed (use assms(2,9) in simp)
  moreover have "turn t j = Refused" if "j \<ge> N" for j
    using assms(1-3) that unfolding login_inv_def by simp
  ultimately show ?thesis unfolding login_inv_def
    by (intro conjI exI [of _ r] allI impI assms(5-7)) (simp_all add: assms(8))
qed

lemma login_inv_step:
  assumes "login_step L cfg (u_email u) pw s t" "login_inv L cfg pw u N s" "0 \<le> u_failed_login_count u"
  shows "login_inv L cfg pw u N t"
proof -
  let ?W = "all_wrong L pw u N"
  obtain r where r: "row_get u_id (u_id u) (accounts s) = Some r" "tracks cfg u ?W (counts N s) r"
    "?W \<Longrightarrow> 0 < counts N s \<Longrightarrow> u_failed_login_count u + 1 \<le> u_failed_login_count r"
    using assms(2) unfolding login_inv_def by blast
  have wf: "row_wf u_id u_email (accounts s)" "row_wf u_id u_email (accounts t)"
    using assms(2) login_step_wf [OF assms(1)] unfolding login_inv_def by blast+
  have "u_email r = u_email u" "u_id r = u_id u" using r(2) by (simp_all add: tracks_def)
  then have email: "row_get u_email (u_email u) (accounts s) = Some r"
    using users.lookup_iff_get [OF wf(1), of r] r(1) by simp
  have below: "i < N" if "turn s i \<noteq> Refused" for i
    using assms(2) that unfolding login_inv_def by (meson not_le)
  have ok: "turn_ok cfg u ?W (counts N s) (credentials_ok L u (pw i)) (turn s i)" if "turn s i \<noteq> Refused" for i
    using assms(2) below [OF that] unfolding login_inv_def by blast
  have written: "row_get u_id (u_id u) (modify_row u_id (u_id u) f (accounts s)) = Some (f r)"
    if "u_id (f r) = u_id r" for f
    using that r(1) users.update_get [of "u_id u" "f r" "accounts s"] \<open>u_id r = u_id u\<close>
    by (simp add: modify_row_def)
  from assms(1) show ?thesis
  proof cases
    case (reject i x n)
    then have "x = r" using email by simp
    have same: "counts N t = counts N s" using counts_step [of t s i "Rejected x" N] reject below [of i] by simp
    show ?thesis
      by (rule login_inv_move [OF assms(2), of t i "Rejected x" r])
        (use reject r wf(1) below [of i] same \<open>x = r\<close> tracks_credentials [OF r(2)] in simp_all)
  next
    case (accept i x n)
    then have "x = r" using email by simp
    have same: "counts N t = counts N s" using counts_step [of t s i "Accepted x" N] accept below [of i] by simp
    show ?thesis
      by (rule login_inv_move [OF assms(2), of t i "Accepted x" r])
        (use accept r wf(1) below [of i] same \<open>x = r\<close> tracks_credentials [OF r(2)] in simp_all)
  next
    case (refuse i n)
    then have "u_locked_until r \<noteq> None" using email by (auto simp: unlocked_def)
    then have full: "max_failed_logins cfg \<le> u_failed_login_count u + int (counts N s)"
      using r(2) by (simp add: tracks_def)
    have same: "counts N t = counts N s" using counts_step [of t s i Refused N] refuse below [of i] by simp
    show ?thesis
      by (rule login_inv_move [OF assms(2), of t i Refused r])
        (use refuse r wf(1) below [of i] same full in simp_all)
  next
    case (count i x n m)
    have x: "tracks cfg u ?W (counts N s) x" "\<not> credentials_ok L u (pw i)" using ok [of i] count by simp_all
    then have "u_id x = u_id u" by (simp add: tracks_def)
    have more: "counts N t = Suc (counts N s)" using counts_step [of t s i Counted N] count below [of i] by simp
    show ?thesis
      by (rule login_inv_move [OF assms(2), of t i Counted "counted cfg x n m r"])
        (use count wf(2) below [of i] more x tracks_counted [OF x(1) r(2)] written \<open>u_id x = u_id u\<close>
          in \<open>simp_all add: tracks_def\<close>)
  next
    case (admit i x n m)
    have x: "tracks cfg u ?W (counts N s) x" "credentials_ok L u (pw i)" using ok [of i] admit by simp_all
    then have W: "\<not> ?W" "u_id x = u_id u" using below [of i] admit(2) by (auto simp: tracks_def all_wrong_def)
    have same: "counts N t = counts N s" using counts_step [of t s i Admitted N] admit below [of i] by simp
    have "tracks cfg u ?W (counts N s) (admitted x n m r)"
      using tracks_admitted [of cfg u "counts N s" x r n m] x(1) r(2) W(1) assms(3) by simp
    then show ?thesis
      by (intro login_inv_move [OF assms(2), of t i Admitted "admitted x n m r"])
        (use admit wf(2) below [of i] same x(2) W written in simp_all)
  qed
qed

text \<open>
  Property C34. What every interleaving of logins keeps. Let \<open>N\<close> requests try passwords for the
  account \<open>u\<close>, which is not locked, all at once, in any order of their accesses. At every moment of the
  run, with \<open>k\<close> failures recorded so far: a request is recorded as a failure only if its password is
  wrong and admitted only if it is right; the account's count is at most \<open>k\<close> above the one it
  started from, and at least one above it as soon as a failure is recorded and all the passwords
  are wrong; the account is locked, or a request refused for a lock, only if the starting count
  plus \<open>k\<close> has reached \<^verbatim>\<open>max_failed_logins\<close>. So the race can only delay a lock, never cause one early.
  The run ends, after at most \<open>2 * N\<close> steps, with every request answered.
\<close>

theorem concurrent_logins_bounded:
  assumes us: "row_wf u_id u_email us" "row_get u_email (u_email u) us = Some u"
    and u: "u_locked_until u = None" "0 \<le> u_failed_login_count u"
    and run: "(login_step L cfg (u_email u) pw ^^ l) (arriving_first N us) s"
  defines "k \<equiv> card {i. i < N \<and> turn s i = Counted}"
  shows "(\<forall>i < N. (turn s i = Counted \<longrightarrow> \<not> credentials_ok L u (pw i)) \<and>
        (turn s i = Admitted \<longrightarrow> credentials_ok L u (pw i)) \<and>
        (turn s i = Refused \<longrightarrow> max_failed_logins cfg \<le> u_failed_login_count u + int k)) \<and>
    (\<exists>r. row_get u_email (u_email u) (accounts s) = Some r \<and> u_id r = u_id u \<and>
      u_failed_login_count r \<le> u_failed_login_count u + int k \<and>
      (0 < k \<and> (\<forall>i < N. \<not> credentials_ok L u (pw i)) \<longrightarrow> u_failed_login_count u + 1 \<le> u_failed_login_count r) \<and>
      (u_locked_until r \<noteq> None \<longrightarrow> max_failed_logins cfg \<le> u_failed_login_count u + int k)) \<and>
    l \<le> 2 * N \<and>
    ((\<nexists>t. login_step L cfg (u_email u) pw s t) \<longleftrightarrow> (\<forall>i < N. turn s i \<in> {Counted, Admitted, Refused}))"
proof -
  have "login_inv L cfg pw u N (arriving_first N us)"
    using us u users.lookup_get [OF us] by (auto simp: login_inv_def arriving_first_def tracks_def counts_def)
  with run have inv: "login_inv L cfg pw u N s"
    by (induction l arbitrary: s) (auto intro: login_inv_step u(2))
  then obtain r where r: "row_get u_id (u_id u) (accounts s) = Some r" "tracks cfg u (all_wrong L pw u N) k r"
    "all_wrong L pw u N \<Longrightarrow> 0 < k \<Longrightarrow> u_failed_login_count u + 1 \<le> u_failed_login_count r"
    and wf: "row_wf u_id u_email (accounts s)"
    and turns: "\<forall>i < N. turn_ok cfg u (all_wrong L pw u N) k (credentials_ok L u (pw i)) (turn s i)"
    unfolding login_inv_def counts_def k_def by blast
  have "u_email r = u_email u" "u_id r = u_id u" using r(2) by (simp_all add: tracks_def)
  then have "row_get u_email (u_email u) (accounts s) = Some r"
    using users.lookup_iff_get [OF wf, of r] r(1) by simp
  moreover have "(turn s i = Counted \<longrightarrow> \<not> credentials_ok L u (pw i)) \<and>
        (turn s i = Admitted \<longrightarrow> credentials_ok L u (pw i)) \<and>
        (turn s i = Refused \<longrightarrow> max_failed_logins cfg \<le> u_failed_login_count u + int k)" if "i < N" for i
    using turns that by (cases "turn s i") auto
  ultimately show ?thesis
    using r(2,3) logins.terminates [OF run, of N Arrived Refused]
    by (auto simp: arriving_first_def tracks_def all_wrong_def)
qed

text \<open>A single wrong guess, through both of its accesses.\<close>

theorem concurrent_logins_bounded_witness:
  "\<exists>s r. (login_step demo_lib default_settings ''a@b.c'' (\<lambda>_. ''wrong'') ^^ 2) (arriving_first 1 [demo_user]) s \<and>
     turn s 0 = Counted \<and> row_get u_email ''a@b.c'' (accounts s) = Some r \<and>
     u_failed_login_count r = 1 \<and> u_locked_until r = None"
proof -
  have "demo_argon2 [] demo_pass \<noteq> demo_argon2 [] (text_of ''wrong'')" by code_simp
  then have wrong: "\<not> credentials_ok demo_lib demo_user ''wrong''"
    by (simp add: credentials_ok_def demo_defs verify_password_def demo_lib_def demo_argon2_verify_def)
  have e: "u_email demo_user = ''a@b.c''" "u_failed_login_count demo_user = 0" "u_locked_until demo_user = None"
    by (simp_all add: demo_user_def)
  have us: "row_wf u_id u_email [demo_user]" "row_get u_email (u_email demo_user) [demo_user] = Some demo_user"
    by (simp_all add: row_wf_def row_get_def)
  let ?step = "login_step demo_lib default_settings (u_email demo_user) (\<lambda>_. ''wrong'')"
  let ?s0 = "arriving_first 1 [demo_user]"
  let ?s1 = "?s0\<lparr>turn := (turn ?s0)(0 := Rejected demo_user)\<rparr>"
  let ?s2 = "?s1\<lparr>accounts := modify_row u_id (u_id demo_user) (counted default_settings demo_user 0 0) (accounts ?s1),
      turn := (turn ?s1)(0 := Counted)\<rparr>"
  have "?step ?s0 ?s1"
    by (rule login_step.reject [of _ _ _ _ 0]) (use us wrong e in \<open>simp_all add: arriving_first_def unlocked_def\<close>)
  moreover have "?step ?s1 ?s2" by (rule login_step.count) simp
  ultimately have run: "(?step ^^ 2) ?s0 ?s2" by (auto simp: numeral_2_eq_2)
  have one: "{i. i < 1 \<and> turn ?s2 i = Counted} = {0}" by auto
  from concurrent_logins_bounded [OF us e(3) _ run, unfolded one] obtain r where
    "row_get u_email (u_email demo_user) (accounts ?s2) = Some r" "u_failed_login_count r \<le> 1"
    "1 \<le> u_failed_login_count r" "u_locked_until r \<noteq> None \<longrightarrow> max_failed_logins default_settings \<le> 1"
    using wrong e by auto
  then show ?thesis using run unfolding e(1)
    by (intro exI [of _ ?s2] exI [of _ r]) (simp add: default_settings_def)
qed

end
