(* ===== verification/ConcurrentRegistrations.thy ===== *)
theory ConcurrentRegistrations
  imports Onboarding Interleaving
begin

text \<open>
  Registrations at once, for one address. The handler looks the address up, and only later, after
  hashing the password, inserts the row and commits; \<open>signup_step\<close> has the two accesses as separate
  steps of a thread. One thread alone does what the handler does (\<open>signup_alone\<close>). The unique column
  still lets only one of them through, but a loser that had found the address free gets the
  database's error, which no handler catches, instead of the conflict.
\<close>

section \<open>The steps of a registration\<close>

datatype signup = Asking | Cleared | Opened user | Conflicting | Clashed

record signups =
  members :: "user list"
  phase :: "nat \<Rightarrow> signup"

inductive signup_step :: "string \<Rightarrow> signups \<Rightarrow> signups \<Rightarrow> bool" for email where
  taken: "phase s i = Asking \<Longrightarrow> row_get u_email email (members s) = Some u \<Longrightarrow>
    signup_step email s (s\<lparr>phase := (phase s)(i := Conflicting)\<rparr>)"
| free: "phase s i = Asking \<Longrightarrow> row_get u_email email (members s) = None \<Longrightarrow>
    signup_step email s (s\<lparr>phase := (phase s)(i := Cleared)\<rparr>)"
| store: "phase s i = Cleared \<Longrightarrow> row_insert u_id u_email (new_account email h k c m) (members s) = Inr us \<Longrightarrow>
    signup_step email s (s\<lparr>members := us, phase := (phase s)(i := Opened (new_account email h k c m))\<rparr>)"
| clash: "phase s i = Cleared \<Longrightarrow> row_insert u_id u_email (new_account email h k c m) (members s) = Inl e \<Longrightarrow>
    signup_step email s (s\<lparr>phase := (phase s)(i := Clashed)\<rparr>)"

inductive_simps signup_step_iff: "signup_step email s t"

abbreviation signup_run :: "string \<Rightarrow> signups \<Rightarrow> signups \<Rightarrow> bool" where
  "signup_run email \<equiv> (signup_step email)\<^sup>*\<^sup>*"

definition asking :: "user list \<Rightarrow> signups" where
  "asking us = \<lparr>members = us, phase = (\<lambda>_. Asking)\<rparr>"

text \<open>One thread alone: look-up, then insertion, is what a successful registration leaves committed.\<close>

lemma signup_alone:
  assumes "argon2_spec L" "parse_register cfg body = Inr r"
    "fst (serve L cfg (Register body) w) = Inr x"
  shows "\<exists>u. signup_run (reg_email r) (asking (t_users (disk w)))
    \<lparr>members = t_users (after L cfg (Register body) w), phase = (\<lambda>_. Asking)(0 := Opened u)\<rparr>"
proof -
  let ?w = "w\<lparr>db := disk w\<rparr>" and ?us = "t_users (disk w)" and ?e = "reg_email r"
  have run: "post_register L cfg body w =
      (fst (register L r ?w), (snd (register L r ?w))\<lparr>db := disk (snd (register L r ?w))\<rparr>)"
    using assms(2) by (simp add: post_register_def with_db_run validated_def bindM_def)
  obtain s where "fst (register L r ?w) = Inr s"
    using assms(3) by (cases "fst (register L r ?w)") (simp_all add: answer_with_result run)
  then obtain u where row: "row_insert u_id u_email u (t_users (db ?w)) = Inr (t_users (db ?w) @ [u])"
    "disk (snd (register L r ?w)) = (db ?w)\<lparr>t_users := t_users (db ?w) @ [u]\<rparr>"
    "\<exists>h i c m. u = new_account ?e h i c m"
    by (rule register_Inr [OF assms(1)])
  then obtain h i c m where u: "row_insert u_id u_email u ?us = Inr (?us @ [u])" "u = new_account ?e h i c m"
    "disk (snd (register L r ?w)) = (disk w)\<lparr>t_users := ?us @ [u]\<rparr>" by auto
  have f: "row_get u_email ?e ?us = None" using users.insert_fresh [OF u(1)] u(2) by simp
  let ?s = "\<lparr>members = ?us, phase = (\<lambda>_. Asking)(0 := Cleared)\<rparr>"
  have "signup_step ?e (asking ?us) ?s"
    using signup_step.free [of "asking ?us" 0 ?e] f by (simp add: asking_def)
  moreover have "signup_step ?e ?s \<lparr>members = ?us @ [u], phase = (\<lambda>_. Asking)(0 := Opened u)\<rparr>"
    using signup_step.store [of ?s 0 ?e h i c m] u(1,2) by simp
  moreover have "t_users (after L cfg (Register body) w) = ?us @ [u]"
    using u(3) by (simp add: after_def run)
  ultimately show ?thesis by (metis converse_rtranclp_into_rtranclp r_into_rtranclp)
qed

section \<open>One account\<close>

text \<open>Nobody has been let through and the table is as it was, or exactly one thread has, and its
  account, an ordinary one, is all that was added.\<close>

definition one_account :: "string \<Rightarrow> user list \<Rightarrow> signups \<Rightarrow> bool" where
  "one_account email us s \<longleftrightarrow>
     members s = us \<and> (\<forall>i. phase s i \<in> {Asking, Cleared, Clashed}) \<or>
     (\<exists>i u. members s = us @ [u] \<and> u_email u = email \<and> u_role u = ROLE_USER \<and> phase s i = Opened u \<and>
        (\<forall>j. j \<noteq> i \<longrightarrow> phase s j \<in> {Asking, Cleared, Conflicting, Clashed}))"

lemma row_insert_taken: "u \<in> set us \<Longrightarrow> u_email u = email \<Longrightarrow>
    row_insert u_id u_email (new_account email h k c m) us = Inl IntegrityError"
  by (auto simp: row_insert_def)

lemma one_account_move:
  assumes "one_account email us s" "phase s i \<in> {Asking, Cleared}"
    "q \<in> {Cleared, Clashed} \<or> q = Conflicting \<and> members s \<noteq> us"
  shows "one_account email us (s\<lparr>phase := (phase s)(i := q)\<rparr>)"
  using assms(1) [unfolded one_account_def]
proof (elim disjE exE conjE)
  fix j v
  assume "members s = us @ [v]" "u_email v = email" "u_role v = ROLE_USER" "phase s j = Opened v"
    "\<forall>k. k \<noteq> j \<longrightarrow> phase s k \<in> {Asking, Cleared, Conflicting, Clashed}"
  then show ?thesis
    using assms(2,3) unfolding one_account_def by (intro disjI2 exI [of _ j] exI [of _ v]) auto
qed (use assms(2,3) in \<open>auto simp: one_account_def\<close>)

lemma signup_step_one:
  assumes "signup_step email s t" "one_account email us s" "row_get u_email email us = None"
  shows "one_account email us t"
  using assms
proof (induction rule: signup_step.induct)
  case (store s i h k c m vs)
  have "members s = us"
  proof (rule ccontr)
    assume "members s \<noteq> us"
    then have "\<exists>u \<in> set (members s). u_email u = email"
      using store.prems(1) by (auto simp: one_account_def)
    then obtain u where "u \<in> set (members s)" "u_email u = email" by blast
    from row_insert_taken [OF this] store.hyps(2) show False by simp
  qed
  then have "\<forall>j. phase s j \<in> {Asking, Cleared, Clashed}" "vs = us @ [new_account email h k c m]"
    using store.prems(1) row_insert_set [OF store.hyps(2)] by (auto simp: one_account_def)
  then show ?case unfolding one_account_def by (intro disjI2 exI [of _ i]) auto
next
  case (taken s i u)
  then have "members s \<noteq> us" by auto
  with taken show ?case by (intro one_account_move) auto
qed (intro one_account_move; simp)+

lemma signup_run_one:
  "signup_run email s t \<Longrightarrow> one_account email us s \<Longrightarrow> row_get u_email email us = None \<Longrightarrow> one_account email us t"
  by (induction rule: rtranclp_induct) (auto intro: signup_step_one)

lemma signup_run_wf:
  "signup_run email s t \<Longrightarrow> row_wf u_id u_email (members s) \<Longrightarrow> row_wf u_id u_email (members t)"
  by (induction rule: rtranclp_induct) (auto simp: signup_step_iff dest: row_insert_wf)

section \<open>The losers\<close>

text \<open>All look the address up before any inserts; the first to insert wins, the others clash.\<close>

lemma losers_clash:
  assumes "row_get u_email email us = None" "row_insert u_id u_email (new_account email h k c m) us = Inr us'"
    and "0 < N"
  shows "\<exists>s. signup_run email (asking us) s \<and> phase s 0 = Opened (new_account email h k c m) \<and>
    (\<forall>j. 0 < j \<and> j < N \<longrightarrow> phase s j = Clashed)"
proof -
  let ?u = "new_account email h k c m"
  let ?mk = "\<lambda>vs st. \<lparr>members = vs, phase = st\<rparr>"
  let ?all = "\<lambda>i. if i < N then Cleared else Asking"
  have "signup_step email (?mk us st) (?mk us (st(i := Cleared)))" if "st i = Asking" for i st
    using signup_step.free [of "?mk us st" i email] that assms(1) by simp
  then have 1: "signup_run email (asking us) (?mk us ?all)"
    using sweep [of N "\<lambda>_. True" Asking "signup_step email" "?mk us" Cleared "\<lambda>_. Asking"]
    by (simp add: asking_def)
  have 2: "signup_step email (?mk us ?all) (?mk us' (?all(0 := Opened ?u)))"
    using signup_step.store [of "?mk us ?all" 0 email h k c m us'] assms(2,3) by simp
  have "?u \<in> set us'" using row_insert_set [OF assms(2)] by simp
  then have "signup_step email (?mk us' st) (?mk us' (st(i := Clashed)))" if "st i = Cleared" for i st
    using signup_step.clash [of "?mk us' st" i email h k c m] row_insert_taken [of ?u us' email] that by simp
  then have 3: "signup_run email (?mk us' (?all(0 := Opened ?u)))
      (?mk us' (\<lambda>i. if i < N \<and> 0 < i then Clashed else (?all(0 := Opened ?u)) i))"
    using sweep [of N "\<lambda>i. 0 < i" Cleared "signup_step email" "?mk us'" Clashed "?all(0 := Opened ?u)"]
    by simp
  show ?thesis
    by (rule exI [of _ "?mk us' (\<lambda>i. if i < N \<and> 0 < i then Clashed else (?all(0 := Opened ?u)) i)"])
      (use rtranclp_trans [OF rtranclp.rtrancl_into_rtrancl [OF 1 2] 3] in simp)
qed

text \<open>
  Property C35. Concurrent registrations open one account. However any number of registrations of a
  free address are interleaved, the table of accounts stays well formed, and all that is ever
  added is the one ordinary account of the one registration that succeeds. But a loser need not get
  the conflict: all others can end in the database's integrity error.
\<close>

theorem concurrent_registrations_one_account:
  assumes "row_wf u_id u_email us" "row_get u_email email us = None" "k \<notin> u_id ` set us" "0 < N"
  shows "(\<forall>s. signup_run email (asking us) s \<longrightarrow> row_wf u_id u_email (members s) \<and> one_account email us s) \<and>
    (\<exists>s. signup_run email (asking us) s \<and> phase s 0 = Opened (new_account email h k c m) \<and>
      (\<forall>j. 0 < j \<and> j < N \<longrightarrow> phase s j = Clashed))"
proof -
  have one: "one_account email us s" if "signup_run email (asking us) s" for s
    by (rule signup_run_one [OF that _ assms(2)]) (simp add: one_account_def asking_def)
  moreover have "row_wf u_id u_email (members s)" if "signup_run email (asking us) s" for s
    using signup_run_wf [OF that] assms(1) by (simp add: asking_def)
  moreover have "row_insert u_id u_email (new_account email h k c m) us = Inr (us @ [new_account email h k c m])"
    using assms(2,3) by (auto simp: row_insert_def row_get_def find_None_iff)
  ultimately show ?thesis using losers_clash [OF assms(2) _ assms(4)] by blast
qed

theorem concurrent_registrations_one_account_witness:
  "\<exists>s. signup_run ''new@b.c'' (asking [demo_user]) s \<and> phase s 0 = Opened (new_account ''new@b.c'' ''h'' 12 0 0) \<and>
     phase s 1 = Clashed \<and> phase s 2 = Clashed"
proof -
  have "row_wf u_id u_email [demo_user]" "row_get u_email ''new@b.c'' [demo_user] = None"
    "12 \<notin> u_id ` set [demo_user]"
    by (simp_all add: row_wf_def row_get_def demo_user_def)
  from concurrent_registrations_one_account [OF this, of 3 "''h''" 0 0] obtain s where
    "signup_run ''new@b.c'' (asking [demo_user]) s" "phase s 0 = Opened (new_account ''new@b.c'' ''h'' 12 0 0)"
    "\<forall>j. 0 < j \<and> j < 3 \<longrightarrow> phase s j = Clashed" by auto
  then show ?thesis by (intro exI [of _ s]) simp
qed

section \<open>Registrations always finish\<close>

fun waits :: "signup \<Rightarrow> nat" where
  "waits Asking = 2"
| "waits Cleared = 1"
| "waits p = 0"

lemma signup_step_moves:
  "signup_step email s t \<Longrightarrow> \<exists>i p. phase t = (phase s)(i := p) \<and> waits p < waits (phase s i)"
  unfolding signup_step_iff by fastforce

lemma signup_can_step:
  assumes "waits (phase s i) \<noteq> 0"
  shows "\<exists>t. signup_step email s t"
proof (cases "phase s i")
  case Asking
  then show ?thesis
    using signup_step.taken [OF Asking, of email] signup_step.free [OF Asking, of email]
    by (cases "row_get u_email email (members s)") blast+
next
  case Cleared
  then show ?thesis
    using signup_step.store [OF Cleared, of email] signup_step.clash [OF Cleared, of email]
    by (cases "row_insert u_id u_email (new_account email [] 0 0 0) (members s)") blast+
qed (use assms in simp_all)

interpretation signing: threads "signup_step email" phase waits for email
  by unfold_locales (rule signup_step_moves signup_can_step; assumption)+

text \<open>\<open>N\<close> registrations are answered after at most \<open>2 * N\<close> accesses.\<close>

lemma registrations_terminate:
  assumes "(signup_step email ^^ k) \<lparr>members = us, phase = first_threads N Asking Clashed\<rparr> s"
  shows "k \<le> 2 * N \<and> ((\<nexists>t. signup_step email s t) \<longleftrightarrow> (\<forall>i < N. waits (phase s i) = 0))"
  using signing.terminates [OF assms, of N Asking Clashed] by simp

end
