(* ===== verification/Routing.thy ===== *)
theory Routing
  imports System
begin

text \<open>
  The route table: the decorators of \<^verbatim>\<open>api/v1/\<close> and \<^verbatim>\<open>app/main.py\<close> and the prefixes of
  \<^verbatim>\<open>include_router\<close>, and the dispatch of an HTTP request over it: the first route that matches
  names the Python function, which runs on the parts of the request it declares. How a path template
  matches a path is FastAPI's: a parameter \<open>matches\<close> with its documented law. The theorem says
  that this dispatch and \<open>serve\<close> agree: what \<open>serve\<close> does with a call is what the routed
  function does with the call's request, and every routed request is one of the calls.
\<close>

section \<open>The table\<close>

record route =
  http_method :: string
  path_template :: string
  endpoint :: string
  success_status :: nat

text \<open>A decorator: method, template, the decorated function and the status code of its answers (200 where
  the decorator gives none).\<close>

definition route :: "string \<Rightarrow> string \<Rightarrow> string \<Rightarrow> nat \<Rightarrow> route" where
  "route m p e n = \<lparr>http_method = m, path_template = p, endpoint = e, success_status = n\<rparr>"

text \<open>\<^verbatim>\<open>app/api/v1/auth.py\<close>\<close>

definition register_route :: route where "register_route = route ''POST'' ''/register'' ''register'' 201"
definition login_route :: route where "login_route = route ''POST'' ''/login'' ''login'' 200"
definition refresh_route :: route where "refresh_route = route ''POST'' ''/refresh'' ''refresh'' 200"
definition logout_route :: route where "logout_route = route ''POST'' ''/logout'' ''logout'' 204"
definition me_route :: route where "me_route = route ''GET'' ''/me'' ''me'' 200"
definition delete_me_route :: route where "delete_me_route = route ''DELETE'' ''/me'' ''delete_me'' 204"
definition list_sessions_route :: route where "list_sessions_route = route ''GET'' ''/sessions'' ''list_sessions'' 200"
definition revoke_one_route :: route where "revoke_one_route = route ''DELETE'' ''/sessions/{session_id}'' ''revoke_one'' 204"

definition auth_routes :: "route list" where
  "auth_routes = [register_route, login_route, refresh_route, logout_route, me_route, delete_me_route, list_sessions_route, revoke_one_route]"

text \<open>\<^verbatim>\<open>app/api/v1/jobs.py\<close>\<close>

definition embed_route :: route where "embed_route = route ''POST'' ''/embed'' ''embed'' 200"
definition extract_route :: route where "extract_route = route ''POST'' ''/extract'' ''extract'' 200"
definition verify_route :: route where "verify_route = route ''POST'' ''/verify'' ''verify_endpoint'' 200"
definition list_jobs_route :: route where "list_jobs_route = route ''GET'' '''' ''list_jobs'' 200"
definition get_job_route :: route where "get_job_route = route ''GET'' ''/{job_id}'' ''get_job'' 200"
definition delete_job_route :: route where "delete_job_route = route ''DELETE'' ''/{job_id}'' ''delete_job'' 204"

definition jobs_routes :: "route list" where
  "jobs_routes = [embed_route, extract_route, verify_route, list_jobs_route, get_job_route, delete_job_route]"

text \<open>\<^verbatim>\<open>app/api/v1/admin.py\<close>\<close>

definition list_users_route :: route where "list_users_route = route ''GET'' ''/users'' ''list_users'' 200"
definition set_status_route :: route where "set_status_route = route ''PATCH'' ''/users/{user_id}/status'' ''set_status'' 200"
definition list_all_jobs_route :: route where "list_all_jobs_route = route ''GET'' ''/jobs'' ''list_all_jobs'' 200"

definition admin_routes :: "route list" where
  "admin_routes = [list_users_route, set_status_route, list_all_jobs_route]"

text \<open>\<^verbatim>\<open>app/main.py\<close>\<close>

definition health_live_route :: route where "health_live_route = route ''GET'' ''/health/live'' ''health_live'' 200"
definition health_ready_route :: route where "health_ready_route = route ''GET'' ''/health/ready'' ''health_ready'' 200"
definition metrics_route :: route where "metrics_route = route ''GET'' ''/metrics'' ''get_metrics'' 200"

definition app_routes :: "route list" where
  "app_routes = [health_live_route, health_ready_route, metrics_route]"

lemmas route_defs = route_def
  register_route_def login_route_def refresh_route_def logout_route_def me_route_def delete_me_route_def list_sessions_route_def revoke_one_route_def
  embed_route_def extract_route_def verify_route_def list_jobs_route_def get_job_route_def delete_job_route_def
  list_users_route_def set_status_route_def list_all_jobs_route_def
  health_live_route_def health_ready_route_def metrics_route_def
  auth_routes_def jobs_routes_def admin_routes_def app_routes_def

definition include_router :: "string \<Rightarrow> route list \<Rightarrow> route list" where
  "include_router prefix rs = map (\<lambda>r. r\<lparr>path_template := prefix @ path_template r\<rparr>) rs"

definition routes :: "route list" where
  "routes =
     app_routes @ include_router ''/api/v1/auth'' auth_routes @
     include_router ''/api/v1/jobs'' jobs_routes @ include_router ''/api/v1/admin'' admin_routes"

section \<open>Dispatch\<close>

text \<open>The segments of a path between its slashes; a template's parameters are segments in braces.\<close>

fun segments :: "string \<Rightarrow> string list" where
  "segments [] = [[]]"
| "segments (c # s) =
     (if c = CHR ''/'' then [] # segments s
      else case segments s of [] \<Rightarrow> [[c]] | x # xs \<Rightarrow> (c # x) # xs)"

definition is_parameter :: "string \<Rightarrow> bool" where
  "is_parameter s \<longleftrightarrow> take 1 s = ''{''"

text \<open>FastAPI: a path matches a template segment by segment; a parameter takes any segment that is not
  empty. The first route of the table whose method and template match handles the request.\<close>

definition matches_spec :: "(string \<Rightarrow> string \<Rightarrow> bool) \<Rightarrow> bool" where
  "matches_spec matches \<longleftrightarrow>
     (\<forall>t p. matches t p \<longleftrightarrow>
        list_all2 (\<lambda>ts ps. if is_parameter ts then ps \<noteq> [] else ts = ps) (segments t) (segments p))"

definition matching_route :: "(string \<Rightarrow> string \<Rightarrow> bool) \<Rightarrow> string \<Rightarrow> string \<Rightarrow> route option" where
  "matching_route matches m p = find (\<lambda>r. http_method r = m \<and> matches (path_template r) p) routes"

text \<open>The parameters of a path, by the names the template gives them.\<close>

definition parameter_name :: "string \<Rightarrow> string" where
  "parameter_name s = butlast (tl s)"

definition path_parameters :: "string \<Rightarrow> string \<Rightarrow> (string \<times> string) list" where
  "path_parameters t p =
     map (\<lambda>(ts, ps). (parameter_name ts, ps)) (filter (\<lambda>(ts, ps). is_parameter ts) (zip (segments t) (segments p)))"

definition argument :: "string \<Rightarrow> (string \<times> string) list \<Rightarrow> string" where
  "argument name ps = (case map_of ps name of Some v \<Rightarrow> v | None \<Rightarrow> [])"

text \<open>A request with every part some function declares: the \<^verbatim>\<open>Authorization\<close> header, the JSON
  body, the form fields \<^verbatim>\<open>image\<close>, \<^verbatim>\<open>passphrase\<close> and \<^verbatim>\<open>payload\<close>, the
  query parameter \<^verbatim>\<open>new_status\<close> and what \<^verbatim>\<open>Request\<close> tells of the client.\<close>

record http_request =
  rq_method :: string
  rq_path :: string
  rq_auth :: auth
  rq_json :: body
  rq_image :: upload
  rq_passphrase :: pystr
  rq_payload :: pystr
  rq_new_status :: string
  rq_client :: request

text \<open>The decorated functions, by name, each on the parameters it declares.\<close>

definition run_endpoint ::
  "lib \<Rightarrow> settings \<Rightarrow> string \<Rightarrow> (string \<times> string) list \<Rightarrow> http_request \<Rightarrow> (world, answer) py" where
  "run_endpoint L cfg f ps q =
     (if f = ''register'' then answer_with Status (post_register L cfg (rq_json q))
      else if f = ''login'' then answer_with Tokens_answer (post_login L cfg (rq_json q) (rq_client q))
      else if f = ''refresh'' then answer_with Tokens_answer (post_refresh L cfg (rq_json q))
      else if f = ''logout'' then answer_with (\<lambda>_. No_content) (post_logout L (rq_json q))
      else if f = ''me'' then answer_with Me_answer (get_me L cfg (rq_auth q))
      else if f = ''delete_me'' then answer_with (\<lambda>_. No_content) (del_me L cfg (rq_auth q))
      else if f = ''list_sessions'' then answer_with Session_list (get_sessions L cfg (rq_auth q))
      else if f = ''revoke_one''
      then answer_with (\<lambda>_. No_content) (del_session L cfg (rq_auth q) (argument ''session_id'' ps))
      else if f = ''embed''
      then answer_with File_answer (post_embed L cfg (rq_auth q) (rq_image q) (rq_passphrase q) (rq_payload q))
      else if f = ''extract''
      then answer_with File_answer (post_extract L cfg (rq_auth q) (rq_image q) (rq_passphrase q))
      else if f = ''verify_endpoint'' then answer_with Verify_answer (post_verify L cfg (rq_auth q) (rq_image q))
      else if f = ''list_jobs'' then answer_with Job_list (get_jobs L cfg (rq_auth q))
      else if f = ''get_job''
      then answer_with Job_answer (get_one_job L cfg (rq_auth q) (argument ''job_id'' ps))
      else if f = ''delete_job''
      then answer_with (\<lambda>_. No_content) (del_job L cfg (rq_auth q) (argument ''job_id'' ps))
      else if f = ''list_users'' then answer_with User_list (get_users L cfg (rq_auth q))
      else if f = ''set_status''
      then answer_with Status_change (patch_status L cfg (rq_auth q) (argument ''user_id'' ps) (rq_new_status q))
      else if f = ''list_all_jobs'' then answer_with All_jobs (get_all_jobs L cfg (rq_auth q))
      else if f = ''get_metrics'' then answer_with Metrics_answer (get_metrics L cfg (rq_auth q))
      else if f = ''health_live'' then answer_with Status health_live
      else answer_with Status health_ready)"

text \<open>What the application does with a request: the status code of a success and the function to
  run, or nothing when no route matches (FastAPI's own 404 and 405).\<close>

definition route_request ::
  "(string \<Rightarrow> string \<Rightarrow> bool) \<Rightarrow> lib \<Rightarrow> settings \<Rightarrow> http_request \<Rightarrow> (nat \<times> (world, answer) py) option" where
  "route_request matches L cfg q =
     map_option (\<lambda>r. (success_status r,
         run_endpoint L cfg (endpoint r) (path_parameters (path_template r) (rq_path q)) q))
       (matching_route matches (rq_method q) (rq_path q))"

text \<open>The request of each call of the model; \<open>q\<close> supplies the parts it does not determine.\<close>

fun http_of :: "http_request \<Rightarrow> call \<Rightarrow> http_request" where
  "http_of q (Register b) = q\<lparr>rq_method := ''POST'', rq_path := ''/api/v1/auth/register'', rq_json := b\<rparr>"
| "http_of q (Login b r) = q\<lparr>rq_method := ''POST'', rq_path := ''/api/v1/auth/login'', rq_json := b, rq_client := r\<rparr>"
| "http_of q (Refresh b) = q\<lparr>rq_method := ''POST'', rq_path := ''/api/v1/auth/refresh'', rq_json := b\<rparr>"
| "http_of q (Logout b) = q\<lparr>rq_method := ''POST'', rq_path := ''/api/v1/auth/logout'', rq_json := b\<rparr>"
| "http_of q (Me a) = q\<lparr>rq_method := ''GET'', rq_path := ''/api/v1/auth/me'', rq_auth := a\<rparr>"
| "http_of q (DeleteMe a) = q\<lparr>rq_method := ''DELETE'', rq_path := ''/api/v1/auth/me'', rq_auth := a\<rparr>"
| "http_of q (ListSessions a) = q\<lparr>rq_method := ''GET'', rq_path := ''/api/v1/auth/sessions'', rq_auth := a\<rparr>"
| "http_of q (RevokeSession a i) = q\<lparr>rq_method := ''DELETE'', rq_path := ''/api/v1/auth/sessions/'' @ i, rq_auth := a\<rparr>"
| "http_of q (Embed a f p d) = q\<lparr>rq_method := ''POST'', rq_path := ''/api/v1/jobs/embed'', rq_auth := a,
     rq_image := f, rq_passphrase := p, rq_payload := d\<rparr>"
| "http_of q (Extract a f p) = q\<lparr>rq_method := ''POST'', rq_path := ''/api/v1/jobs/extract'', rq_auth := a,
     rq_image := f, rq_passphrase := p\<rparr>"
| "http_of q (Verify a f) = q\<lparr>rq_method := ''POST'', rq_path := ''/api/v1/jobs/verify'', rq_auth := a, rq_image := f\<rparr>"
| "http_of q (ListJobs a) = q\<lparr>rq_method := ''GET'', rq_path := ''/api/v1/jobs'', rq_auth := a\<rparr>"
| "http_of q (GetJob a i) = q\<lparr>rq_method := ''GET'', rq_path := ''/api/v1/jobs/'' @ i, rq_auth := a\<rparr>"
| "http_of q (DeleteJob a i) = q\<lparr>rq_method := ''DELETE'', rq_path := ''/api/v1/jobs/'' @ i, rq_auth := a\<rparr>"
| "http_of q (ListUsers a) = q\<lparr>rq_method := ''GET'', rq_path := ''/api/v1/admin/users'', rq_auth := a\<rparr>"
| "http_of q (SetStatus a i s) = q\<lparr>rq_method := ''PATCH'', rq_path := ''/api/v1/admin/users/'' @ i @ ''/status'',
     rq_auth := a, rq_new_status := s\<rparr>"
| "http_of q (ListAllJobs a) = q\<lparr>rq_method := ''GET'', rq_path := ''/api/v1/admin/jobs'', rq_auth := a\<rparr>"
| "http_of q (GetMetrics a) = q\<lparr>rq_method := ''GET'', rq_path := ''/metrics'', rq_auth := a\<rparr>"
| "http_of q HealthLive = q\<lparr>rq_method := ''GET'', rq_path := ''/health/live''\<rparr>"
| "http_of q HealthReady = q\<lparr>rq_method := ''GET'', rq_path := ''/health/ready''\<rparr>"

text \<open>The status code of an answer: 201 for a new account, 204 where the answer has no body.\<close>

fun status_of :: "call \<Rightarrow> nat" where
  "status_of (Register b) = 201"
| "status_of (Logout b) = 204"
| "status_of (DeleteMe a) = 204"
| "status_of (RevokeSession a i) = 204"
| "status_of (DeleteJob a i) = 204"
| "status_of c = 200"

text \<open>The identifier in the path of a call, where there is one: a non-empty segment.\<close>

fun path_argument :: "call \<Rightarrow> string option" where
  "path_argument (RevokeSession a i) = Some i"
| "path_argument (GetJob a i) = Some i"
| "path_argument (DeleteJob a i) = Some i"
| "path_argument (SetStatus a i s) = Some i"
| "path_argument c = None"

definition addressable :: "call \<Rightarrow> bool" where
  "addressable c \<longleftrightarrow> (\<forall>i. path_argument c = Some i \<longrightarrow> i \<noteq> [] \<and> CHR ''/'' \<notin> set i)"

section \<open>Every request line has one route\<close>

lemma segments_nonempty: "segments s \<noteq> []"
  by (cases s) (auto split: list.split)

lemma segments_argument:
  "CHR ''/'' \<notin> set i \<Longrightarrow> segments i = [i]"
  "CHR ''/'' \<notin> set i \<Longrightarrow> segments (i @ CHR ''/'' # s) = i # segments s"
  by (induction i) auto

text \<open>Two templates that some path matches agree in every segment that neither has as a parameter.\<close>

definition overlap :: "route \<Rightarrow> route \<Rightarrow> bool" where
  "overlap r q \<longleftrightarrow> http_method r = http_method q \<and>
     list_all2 (\<lambda>a b. is_parameter a \<or> is_parameter b \<or> a = b)
       (segments (path_template r)) (segments (path_template q))"

lemma routes_apart: "\<forall>r \<in> set routes. \<forall>q \<in> set routes. overlap r q \<longrightarrow> r = q"
  by code_simp

lemma matches_overlap:
  assumes "matches_spec matches" "matches (path_template r) p" "matches (path_template q) p"
    "http_method r = http_method q"
  shows "overlap r q"
proof -
  have "list_all2 (\<lambda>a b. is_parameter a \<or> is_parameter b \<or> a = b) ts us"
    if "list_all2 (\<lambda>ts ps. if is_parameter ts then ps \<noteq> [] else ts = ps) ts ps"
      "list_all2 (\<lambda>ts ps. if is_parameter ts then ps \<noteq> [] else ts = ps) us ps" for ts us ps
    using that by (auto simp: list_all2_conv_all_nth split: if_splits) metis
  then show ?thesis using assms unfolding overlap_def matches_spec_def by blast
qed

lemma one_route:
  assumes "matches_spec matches" "r \<in> set routes" "matches (path_template r) p"
  shows "matching_route matches (http_method r) p = Some r"
proof -
  have only: "q = r" if "q \<in> set routes" "http_method q = http_method r" "matches (path_template q) p" for q
    using matches_overlap [OF assms(1) that(3) assms(3) that(2)] routes_apart that(1) assms(2) by simp
  obtain q where q: "find (\<lambda>x. http_method x = http_method r \<and> matches (path_template x) p) routes = Some q"
    using assms(2,3) by (metis (mono_tags, lifting) find_None_iff not_None_eq)
  then have "q \<in> set routes \<and> http_method q = http_method r \<and> matches (path_template q) p"
    by (auto simp: find_Some_iff)
  then have "q = r" using only by blast
  then show ?thesis using q by (simp add: matching_route_def)
qed

lemmas routing_defs = routes_def route_defs include_router_def is_parameter_def path_parameters_def parameter_name_def
  argument_def run_endpoint_def segments_argument

text \<open>The Python function of each call, and its row of the table.\<close>

fun function_of :: "call \<Rightarrow> string" where
  "function_of (Register b) = ''register''"
| "function_of (Login b r) = ''login''"
| "function_of (Refresh b) = ''refresh''"
| "function_of (Logout b) = ''logout''"
| "function_of (Me a) = ''me''"
| "function_of (DeleteMe a) = ''delete_me''"
| "function_of (ListSessions a) = ''list_sessions''"
| "function_of (RevokeSession a i) = ''revoke_one''"
| "function_of (Embed a f p d) = ''embed''"
| "function_of (Extract a f p) = ''extract''"
| "function_of (Verify a f) = ''verify_endpoint''"
| "function_of (ListJobs a) = ''list_jobs''"
| "function_of (GetJob a i) = ''get_job''"
| "function_of (DeleteJob a i) = ''delete_job''"
| "function_of (ListUsers a) = ''list_users''"
| "function_of (SetStatus a i s) = ''set_status''"
| "function_of (ListAllJobs a) = ''list_all_jobs''"
| "function_of (GetMetrics a) = ''get_metrics''"
| "function_of HealthLive = ''health_live''"
| "function_of HealthReady = ''health_ready''"

lemma row_of_call:
  assumes "matches_spec matches" "addressable c"
  shows "\<exists>r. map_of (map (\<lambda>r. (endpoint r, r)) routes) (function_of c) = Some r \<and>
    http_method r = rq_method (http_of q c) \<and> matches (path_template r) (rq_path (http_of q c)) \<and>
    success_status r = status_of c \<and>
    run_endpoint L cfg (endpoint r) (path_parameters (path_template r) (rq_path (http_of q c))) (http_of q c) =
      serve L cfg c"
  using assms(2)
  by (cases c) (simp_all add: assms(1) [unfolded matches_spec_def] routing_defs addressable_def)

lemma routes_of_calls:
  assumes "matches_spec matches" "addressable c"
  shows "\<exists>r \<in> set routes. http_method r = rq_method (http_of q c) \<and>
    matches (path_template r) (rq_path (http_of q c)) \<and> success_status r = status_of c \<and>
    run_endpoint L cfg (endpoint r) (path_parameters (path_template r) (rq_path (http_of q c))) (http_of q c) =
      serve L cfg c"
  using row_of_call [OF assms, of q L cfg] by (auto dest!: map_of_SomeD)

text \<open>Every request that a route of the table matches is the request of a call.\<close>

fun call_of :: "string \<Rightarrow> (string \<times> string) list \<Rightarrow> http_request \<Rightarrow> call" where
  "call_of f ps q =
     (if f = ''register'' then Register (rq_json q) else if f = ''login'' then Login (rq_json q) (rq_client q)
      else if f = ''refresh'' then Refresh (rq_json q) else if f = ''logout'' then Logout (rq_json q)
      else if f = ''me'' then Me (rq_auth q) else if f = ''delete_me'' then DeleteMe (rq_auth q)
      else if f = ''list_sessions'' then ListSessions (rq_auth q)
      else if f = ''revoke_one'' then RevokeSession (rq_auth q) (argument ''session_id'' ps)
      else if f = ''embed'' then Embed (rq_auth q) (rq_image q) (rq_passphrase q) (rq_payload q)
      else if f = ''extract'' then Extract (rq_auth q) (rq_image q) (rq_passphrase q)
      else if f = ''verify_endpoint'' then Verify (rq_auth q) (rq_image q)
      else if f = ''list_jobs'' then ListJobs (rq_auth q)
      else if f = ''get_job'' then GetJob (rq_auth q) (argument ''job_id'' ps)
      else if f = ''delete_job'' then DeleteJob (rq_auth q) (argument ''job_id'' ps)
      else if f = ''list_users'' then ListUsers (rq_auth q)
      else if f = ''set_status'' then SetStatus (rq_auth q) (argument ''user_id'' ps) (rq_new_status q)
      else if f = ''list_all_jobs'' then ListAllJobs (rq_auth q)
      else if f = ''get_metrics'' then GetMetrics (rq_auth q)
      else if f = ''health_live'' then HealthLive else HealthReady)"

lemma run_endpoint_call: "run_endpoint L cfg f ps q = serve L cfg (call_of f ps q)"
  by (simp add: run_endpoint_def)

lemma segments_no_slash: "s \<in> set (segments p) \<Longrightarrow> CHR ''/'' \<notin> set s"
  by (induction p arbitrary: s rule: segments.induct) (auto split: if_splits list.splits)

lemma matched_parameters:
  assumes "list_all2 (\<lambda>ts ps. if is_parameter ts then ps \<noteq> [] else ts = ps) ts us"
  defines "ps \<equiv> map (\<lambda>(ts, ps). (parameter_name ts, ps)) (filter (\<lambda>(ts, ps). is_parameter ts) (zip ts us))"
  shows "map fst ps = map parameter_name (filter is_parameter ts)" "\<forall>(n, v) \<in> set ps. v \<noteq> [] \<and> v \<in> set us"
  using assms(1) unfolding ps_def by (induction rule: list_all2_induct) auto

lemma matched_argument:
  assumes "matches_spec matches" "matches t p" "n \<in> set (map parameter_name (filter is_parameter (segments t)))"
  shows "argument n (path_parameters t p) \<noteq> [] \<and> CHR ''/'' \<notin> set (argument n (path_parameters t p))"
proof -
  have m: "list_all2 (\<lambda>ts ps. if is_parameter ts then ps \<noteq> [] else ts = ps) (segments t) (segments p)"
    using assms(1,2) unfolding matches_spec_def by blast
  note ps = matched_parameters [OF m, folded path_parameters_def]
  from assms(3) have "n \<in> fst ` set (path_parameters t p)" unfolding ps(1) [symmetric] by simp
  then obtain v where "map_of (path_parameters t p) n = Some v" by (metis dom_map_of_conv_image_fst domD)
  then show ?thesis using ps(2) segments_no_slash by (fastforce simp: argument_def dest: map_of_SomeD)
qed

text \<open>The functions that take a path argument are registered under templates that name it.\<close>

fun declared :: "string \<Rightarrow> string option" where
  "declared f =
     (if f = ''revoke_one'' then Some ''session_id'' else if f = ''get_job'' \<or> f = ''delete_job'' then Some ''job_id''
      else if f = ''set_status'' then Some ''user_id'' else None)"

lemma declared_named:
  "\<forall>r \<in> set routes. \<forall>n \<in> set_option (declared (endpoint r)).
     n \<in> set (map parameter_name (filter is_parameter (segments (path_template r))))"
  by code_simp

lemma path_argument_call: "path_argument (call_of f ps q) = map_option (\<lambda>n. argument n ps) (declared f)"
  by simp

fun declared_status :: "string \<Rightarrow> nat" where
  "declared_status f =
     (if f = ''register'' then 201
      else if f = ''logout'' \<or> f = ''delete_me'' \<or> f = ''revoke_one'' \<or> f = ''delete_job'' then 204 else 200)"

lemma declared_statuses: "\<forall>r \<in> set routes. success_status r = declared_status (endpoint r)"
  by code_simp

lemma status_of_call: "status_of (call_of f ps q) = declared_status f"
  by simp

lemma calls_of_routes:
  assumes "matches_spec matches" "r \<in> set routes" "matches (path_template r) (rq_path q)"
  shows "addressable (call_of (endpoint r) (path_parameters (path_template r) (rq_path q)) q)"
    "success_status r = status_of (call_of (endpoint r) ps q)"
proof -
  show "addressable (call_of (endpoint r) (path_parameters (path_template r) (rq_path q)) q)"
    using declared_named assms(2) matched_argument [OF assms(1,3)]
    unfolding addressable_def path_argument_call by (auto simp del: declared.simps)
  show "success_status r = status_of (call_of (endpoint r) ps q)"
    using declared_statuses assms(2) unfolding status_of_call by blast
qed

text \<open>
  Property C27. The dispatcher is the application's. A call of the model, with a path argument that
  is one non-empty segment, is served exactly as FastAPI serves its HTTP request: the route table
  leads it to a Python function that does, on the parameters it takes from path, header, body, form and query,
  what \<open>serve\<close> does with the call, and a success is answered with the status code of the
  decorator. No other route of the table matches it, so the order in which the routers are included does not
  matter. And nothing is left out: every request that some route matches is served as one of the calls.
\<close>

theorem request_dispatched:
  assumes "matches_spec matches"
  shows "(\<forall>c q. addressable c \<longrightarrow>
      route_request matches L cfg (http_of q c) = Some (status_of c, serve L cfg c) \<and>
      (\<exists>!r. r \<in> set routes \<and> http_method r = rq_method (http_of q c) \<and>
        matches (path_template r) (rq_path (http_of q c)))) \<and>
    (\<forall>q. route_request matches L cfg q = None \<or>
      (\<exists>c. addressable c \<and> route_request matches L cfg q = Some (status_of c, serve L cfg c)))"
proof (intro conjI allI impI)
  fix c q assume c: "addressable c"
  obtain r where r: "r \<in> set routes" "http_method r = rq_method (http_of q c)"
    "matches (path_template r) (rq_path (http_of q c))" "success_status r = status_of c"
    "run_endpoint L cfg (endpoint r) (path_parameters (path_template r) (rq_path (http_of q c))) (http_of q c) =
      serve L cfg c"
    using routes_of_calls [OF assms c, of q L cfg] by blast
  show "route_request matches L cfg (http_of q c) = Some (status_of c, serve L cfg c)"
    using one_route [OF assms r(1,3)] r(2,4,5) by (simp add: route_request_def)
  show "\<exists>!r. r \<in> set routes \<and> http_method r = rq_method (http_of q c) \<and>
      matches (path_template r) (rq_path (http_of q c))"
    using one_route [OF assms] r(1-3) by (metis option.inject)
next
  fix q
  show "route_request matches L cfg q = None \<or>
      (\<exists>c. addressable c \<and> route_request matches L cfg q = Some (status_of c, serve L cfg c))"
  proof (cases "matching_route matches (rq_method q) (rq_path q)")
    case (Some r)
    then have "r \<in> set routes" "http_method r = rq_method q" "matches (path_template r) (rq_path q)"
      by (auto simp: matching_route_def find_Some_iff)
    from calls_of_routes [OF assms this(1,3)] Some show ?thesis
      unfolding route_request_def run_endpoint_call by auto
  qed (simp add: route_request_def)
qed

definition demo_matches :: "string \<Rightarrow> string \<Rightarrow> bool" where
  "demo_matches t p \<longleftrightarrow>
     list_all2 (\<lambda>ts ps. if is_parameter ts then ps \<noteq> [] else ts = ps) (segments t) (segments p)"

definition demo_patch :: http_request where
  "demo_patch =
     \<lparr>rq_method = ''PATCH'', rq_path = ''/api/v1/admin/users/7/status'', rq_auth = Some ''Bearer x'', rq_json = [],
      rq_image = \<lparr>filename = None, file_bytes = []\<rparr>, rq_passphrase = [], rq_payload = [],
      rq_new_status = ''disabled'', rq_client = \<lparr>client_host = None, header_user_agent = None\<rparr>\<rparr>"

theorem request_dispatched_witness:
  "route_request demo_matches demo_lib default_settings demo_patch =
     Some (200, serve demo_lib default_settings (SetStatus (Some ''Bearer x'') ''7'' ''disabled''))"
proof -
  have "matches_spec demo_matches" by (simp add: matches_spec_def demo_matches_def)
  from request_dispatched [OF this, of demo_lib default_settings]
  have "route_request demo_matches demo_lib default_settings
      (http_of demo_patch (SetStatus (Some ''Bearer x'') ''7'' ''disabled'')) =
    Some (status_of (SetStatus (Some ''Bearer x'') ''7'' ''disabled''),
      serve demo_lib default_settings (SetStatus (Some ''Bearer x'') ''7'' ''disabled''))"
    by (auto simp: addressable_def simp del: http_of.simps serve.simps status_of.simps)
  moreover have "http_of demo_patch (SetStatus (Some ''Bearer x'') ''7'' ''disabled'') = demo_patch"
    by (simp add: demo_patch_def)
  ultimately show ?thesis by (simp del: http_of.simps serve.simps)
qed

end
