(* ===== verification/Startup.thy ===== *)
theory Startup
  imports AdminApi
begin

text \<open>
  Start-up: the engine's arguments and the creation of the tables (\<^verbatim>\<open>app/db/session.py\<close>) and
  the application's life span (\<^verbatim>\<open>app/main.py\<close>).
\<close>

section \<open>The engine\<close>

datatype engine_option = Check_same_thread bool | Pool_pre_ping bool

definition engine_kwargs :: "string \<Rightarrow> engine_option list" where
  "engine_kwargs url = (if take 6 url = ''sqlite'' then [Check_same_thread False] else [Pool_pre_ping True])"

text \<open>The option for the thread pool is given exactly to the engines whose datetimes are naive.\<close>

lemma engine_kwargs_sqlite: "engine_kwargs (database_url cfg) = [Check_same_thread False] \<longleftrightarrow> is_sqlite cfg"
  by (simp add: engine_kwargs_def is_sqlite_def)

section \<open>The tables\<close>

text \<open>
  A database server: the tables that exist and their rows. \<^verbatim>\<open>create_all\<close> creates, empty, the
  tables of the metadata that do not exist and leaves the others alone; importing
  \<^verbatim>\<open>app.db.models\<close> is what registers the three tables in it.
\<close>

record server =
  existing :: "string set"
  rows :: tables

definition METADATA :: "string set" where
  "METADATA = {''users'', ''sessions'', ''processing_jobs''}"

definition created :: "string set \<Rightarrow> string \<Rightarrow> 'a list \<Rightarrow> 'a list" where
  "created names name old = (if name \<in> names then old else [])"

definition create_all :: "string set \<Rightarrow> server \<Rightarrow> server" where
  "create_all metadata d =
     \<lparr>existing = existing d \<union> metadata,
      rows = \<lparr>t_users = (if ''users'' \<in> metadata then created (existing d) ''users'' (t_users (rows d)) else t_users (rows d)),
        t_sessions = (if ''sessions'' \<in> metadata then created (existing d) ''sessions'' (t_sessions (rows d)) else t_sessions (rows d)),
        t_jobs = (if ''processing_jobs'' \<in> metadata then created (existing d) ''processing_jobs'' (t_jobs (rows d)) else t_jobs (rows d))\<rparr>\<rparr>"

definition init_db :: "(server, unit) py" where
  "init_db = modify (create_all METADATA)"

definition lifespan_start :: "settings \<Rightarrow> (server, unit) py" where
  "lifespan_start cfg = whenM (app_env cfg = ''local'' \<or> app_env cfg = ''test'') init_db"

text \<open>A row can only be in a table that exists.\<close>

definition server_ok :: "server \<Rightarrow> bool" where
  "server_ok d \<longleftrightarrow>
     (''users'' \<notin> existing d \<longrightarrow> t_users (rows d) = []) \<and> (''sessions'' \<notin> existing d \<longrightarrow> t_sessions (rows d) = []) \<and>
     (''processing_jobs'' \<notin> existing d \<longrightarrow> t_jobs (rows d) = [])"

lemma create_all_keeps: "server_ok d \<Longrightarrow> create_all m d = d\<lparr>existing := existing d \<union> m\<rparr>"
  by (auto simp: create_all_def server_ok_def created_def)

text \<open>Starting the application never touches a row, again and again; it makes the tables in the local
  and test environments and leaves the server alone in any other.\<close>

lemma lifespan_start_run:
  assumes "server_ok d"
  shows "lifespan_start cfg d = (Inr (), if app_env cfg \<in> {''local'', ''test''}
    then d\<lparr>existing := existing d \<union> METADATA\<rparr> else d)"
  using assms by (simp add: lifespan_start_def init_db_def whenM_def skip_def py_simps create_all_keeps)

lemma lifespan_start_ok:
  "server_ok d \<Longrightarrow> server_ok (snd (lifespan_start cfg d)) \<and> rows (snd (lifespan_start cfg d)) = rows d"
  by (auto simp: lifespan_start_run server_ok_def)

end
