(* ===== verification/SmokeTest.thy ===== *)
theory SmokeTest
  imports Engine
begin

unbundle bit_operations_syntax

text \<open>
  \<^verbatim>\<open>scripts/smoke_test.py\<close>: the command-line test of the engine. The script embeds,
  extracts, tampers and verifies real images and reports each check on the console; the theorem
  says which of its checks hold for every correct library, what the others depend on, and that the
  exit status is 0 exactly when they all hold.
\<close>

section \<open>The script\<close>

text \<open>The process: the entropy it draws and the lines it has printed.\<close>

record console =
  random :: entropy
  printed :: "string list"

definition on_random :: "(entropy, 'a) py \<Rightarrow> (console, 'a) py" where
  "on_random m w = (case m (random w) of (r, E) \<Rightarrow> (r, w\<lparr>random := E\<rparr>))"

definition puts :: "string \<Rightarrow> (console, unit) py" where
  "puts s = modify (\<lambda>w. w\<lparr>printed := printed w @ [s]\<rparr>)"

text \<open>\<^verbatim>\<open>str(n)\<close> of a count.\<close>

fun decimal :: "nat \<Rightarrow> string" where
  "decimal n = (if n < 10 then [char_of (48 + n)] else decimal (n div 10) @ [char_of (48 + n mod 10)])"

declare decimal.simps [simp del]

text \<open>
  \<open>noise h w c\<close> are the samples of
  \<^verbatim>\<open>np.random.default_rng(0).integers(0, 256, (h, w, c), dtype=np.uint8)\<close> in row-major
  order; \<open>limit\<close> is Pillow's \<^verbatim>\<open>MAX_IMAGE_PIXELS\<close>, which the script leaves at its default.
\<close>

definition make_image :: "(nat \<Rightarrow> nat \<Rightarrow> nat \<Rightarrow> bytes) \<Rightarrow> nat \<Rightarrow> nat \<Rightarrow> string \<Rightarrow> image" where
  "make_image noise w h mode =
     (let c = (if mode = ''RGBA'' then 4 else 3) in
      \<lparr>img_mode = mode, img_width = w, img_height = h, img_samples = noise h w c\<rparr>)"

text \<open>Pillow opens lazily; the pixels are loaded when they are first read.\<close>

definition reload :: "lib \<Rightarrow> int \<Rightarrow> bytes \<Rightarrow> image res" where
  "reload L limit png = bindR (pil_open L limit png) (\<lambda>_. pil_load L limit png)"

definition check :: "string \<Rightarrow> bool \<Rightarrow> (console, bool) py" where
  "check name ok =
     thenM (puts (''  ['' @ (if ok then ''PASS'' else ''FAIL'') @ ''] '' @ name)) (ret ok)"

text \<open>A \<^verbatim>\<open>try\<close> whose body should raise an exception that \<open>expected\<close> names.\<close>

definition check_rejected ::
  "string \<Rightarrow> (exn \<Rightarrow> bool) \<Rightarrow> (console, 'a) py \<Rightarrow> (console, bool) py" where
  "check_rejected name expected m =
     catchM (thenM m (check name False)) (\<lambda>e. if expected e then check name True else raise e)"

fun is_extraction_error :: "exn \<Rightarrow> bool" where
  "is_extraction_error (ExtractionError m) = True"
| "is_extraction_error e = False"

fun is_capacity_error :: "exn \<Rightarrow> bool" where
  "is_capacity_error (CapacityError m) = True"
| "is_capacity_error e = False"

text \<open>
  \<^verbatim>\<open>arr[20:236, 20:236, :] ^= 1\<close> on the samples of an RGB image, and
  \<^verbatim>\<open>Image.fromarray(arr, "RGB")\<close>.
\<close>

definition in_square :: "nat \<Rightarrow> nat \<Rightarrow> bool" where
  "in_square width i \<longleftrightarrow>
     (let row = i div (3 * width); column = i div 3 mod width in
      20 \<le> row \<and> row < 236 \<and> 20 \<le> column \<and> column < 236)"

definition tamper :: "image \<Rightarrow> image" where
  "tamper im =
     im\<lparr>img_mode := ''RGB'',
        img_samples := map (\<lambda>i. if in_square (img_width im) i then img_samples im ! i XOR 1 else img_samples im ! i)
          [0..<length (img_samples im)]\<rparr>"

definition MSG :: pystr where
  "MSG = text_of ''the secret is buried under the third oak''"

definition round_trip_check :: "lib \<Rightarrow> int \<Rightarrow> bytes \<Rightarrow> bytes \<Rightarrow> (console, bool) py" where
  "round_trip_check L limit stego msg =
     bindM (liftR (bindR (reload L limit stego) (\<lambda>im. extract_payload L im (text_of ''hunter2''))))
       (\<lambda>x. check ''round trip recovers payload'' (x = msg))"

definition wrong_passphrase_check :: "lib \<Rightarrow> int \<Rightarrow> bytes \<Rightarrow> (console, bool) py" where
  "wrong_passphrase_check L limit stego =
     check_rejected ''wrong passphrase rejected'' is_extraction_error
       (liftR (bindR (reload L limit stego) (\<lambda>im. extract_payload L im (text_of ''wrong''))))"

definition tamper_check :: "lib \<Rightarrow> int \<Rightarrow> bytes \<Rightarrow> (console, bool) py" where
  "tamper_check L limit stego =
     bindM (liftR (reload L limit stego)) (\<lambda>im.
     check_rejected ''tampered artifact rejected'' is_extraction_error
       (liftR (extract_payload L (tamper (pil_convert L im ''RGB'')) (text_of ''hunter2''))))"

definition oversized_check :: "lib \<Rightarrow> image \<Rightarrow> (console, bool) py" where
  "oversized_check L small =
     check_rejected ''oversized payload rejected'' is_capacity_error
       (on_random (embed_payload L small (replicate (nat (max_payload_bytes small + 1)) 0x78) (text_of ''pw'')))"

definition nondeterminism_check :: "lib \<Rightarrow> image \<Rightarrow> (console, bool) py" where
  "nondeterminism_check L img =
     bindM (on_random (embed_payload L img (ascii ''same'') (text_of ''pw''))) (\<lambda>a.
     bindM (on_random (embed_payload L img (ascii ''same'') (text_of ''pw''))) (\<lambda>b.
     check ''identical inputs produce different output'' (a \<noteq> b)))"

definition verify_stego_check :: "lib \<Rightarrow> int \<Rightarrow> bytes \<Rightarrow> (console, bool) py" where
  "verify_stego_check L limit stego =
     bindM (liftR (bindR (reload L limit stego) (verify L))) (\<lambda>r.
     check ''verify detects embedded structure'' (compatible_payload_detected r))"

definition verify_clean_check :: "lib \<Rightarrow> image \<Rightarrow> (console, bool) py" where
  "verify_clean_check L img =
     bindM (liftR (verify L img)) (\<lambda>r.
     check ''verify finds nothing in clean image'' (\<not> compatible_payload_detected r))"

definition passed :: "bool list \<Rightarrow> nat" where
  "passed results = length (filter (\<lambda>ok. ok) results)"

definition conclude :: "bool list \<Rightarrow> (console, int) py" where
  "conclude results =
     thenM (puts [])
       (thenM (puts (decimal (passed results) @ ''/'' @ decimal (length results) @ '' checks passed''))
         (ret (if passed results = length results then 0 else 1)))"

definition smoke_main :: "lib \<Rightarrow> (nat \<Rightarrow> nat \<Rightarrow> nat \<Rightarrow> bytes) \<Rightarrow> int \<Rightarrow> (console, int) py" where
  "smoke_main L noise limit =
     (let img = make_image noise 256 256 ''RGB''; small = make_image noise 64 64 ''RGB'' in
      bindM (liftR (utf8_encode MSG)) (\<lambda>msg.
      bindM (on_random (embed_payload L img msg (text_of ''hunter2''))) (\<lambda>stego.
      bindM (round_trip_check L limit stego msg) (\<lambda>r1.
      bindM (wrong_passphrase_check L limit stego) (\<lambda>r2.
      bindM (tamper_check L limit stego) (\<lambda>r3.
      bindM (oversized_check L small) (\<lambda>r4.
      bindM (nondeterminism_check L img) (\<lambda>r5.
      bindM (verify_stego_check L limit stego) (\<lambda>r6.
      bindM (verify_clean_check L img) (\<lambda>r7.
      conclude [r1, r2, r3, r4, r5, r6, r7]))))))))))"

section \<open>What the script relies on\<close>

text \<open>numpy's generator fills the shape it is asked for; converting an image to the mode it has
  copies it.\<close>

definition noise_spec :: "(nat \<Rightarrow> nat \<Rightarrow> nat \<Rightarrow> bytes) \<Rightarrow> bool" where
  "noise_spec noise \<longleftrightarrow> (\<forall>h w c. length (noise h w c) = h * w * c)"

definition convert_same :: "lib \<Rightarrow> bool" where
  "convert_same L \<longleftrightarrow> (\<forall>im. colour_image im \<longrightarrow> pil_convert L im (img_mode im) = im)"

lemma make_image_simps [simp]:
  "img_mode (make_image noise w h m) = m" "img_width (make_image noise w h m) = w"
  "img_height (make_image noise w h m) = h"
  by (simp_all add: make_image_def Let_def)

lemma make_image_colour:
  assumes "noise_spec noise" "0 < w" "0 < h"
  shows "colour_image (make_image noise w h ''RGB'')" "decoded_image (make_image noise w h ''RGB'')"
  using assms by (simp_all add: decoded_image_def colour_image_def noise_spec_def mode_channels_def)
    (simp_all add: make_image_def noise_spec_def mult_ac)

lemma big_room: "n \<le> 20000 \<Longrightarrow> has_room (make_image noise 256 256 ''RGB'') n"
  by (simp add: has_room_def total_capacity_bytes_def channel_count_def GCM_TAG_BYTES_def)

lemma small_max: "max_payload_bytes (make_image noise 64 64 ''RGB'') = 1474"
  by (simp add: max_payload_bytes_def total_capacity_bytes_def channel_count_def GCM_TAG_BYTES_def)

definition MSG_BYTES :: bytes where
  "MSG_BYTES = ascii ''the secret is buried under the third oak''"

lemma MSG_encoded: "utf8_encode MSG = Inr MSG_BYTES" "length MSG_BYTES = 40"
  by (simp_all add: MSG_def MSG_BYTES_def text_of_def utf8_char_def ascii_def)

section \<open>Running the checks\<close>

definition report_line :: "string \<Rightarrow> bool \<Rightarrow> string" where
  "report_line name ok = ''  ['' @ (if ok then ''PASS'' else ''FAIL'') @ ''] '' @ name"

lemma check_run: "check name ok w = (Inr ok, w\<lparr>printed := printed w @ [report_line name ok]\<rparr>)"
  by (simp add: check_def puts_def report_line_def py_simps)

lemma check_rejected_run:
  "check_rejected name expected (liftR r) w =
     (case r of Inr x \<Rightarrow> check name False w
      | Inl e \<Rightarrow> if expected e then check name True w else (Inl e, w))"
  by (simp add: check_rejected_def check_run py_simps split: sum.split)

lemma reload_saved:
  "png_spec L \<Longrightarrow> colour_image im \<Longrightarrow> int (img_width im * img_height im) \<le> limit \<Longrightarrow>
     reload L limit (png_save L im) = Inr im"
  by (simp add: reload_def png_spec_def)

text \<open>An extraction with a header of the engine's own either opens the ciphertext or fails with the
  generic error.\<close>

lemma extract_default:
  assumes "aead_spec L"
    and "bindR (read_header_region L im) parse_header = Inr (header_of (default_envelope s n c))"
    and "read_ciphertext_region L im (s @ n) (int (length c)) = Inr c'"
    and "derive_key L pw s SCRYPT_N SCRYPT_R SCRYPT_P = Inr k"
  shows "extract_payload L im pw =
    (case decrypt L k n c' of Inr x \<Rightarrow> Inr x | Inl _ \<Rightarrow> Inl (ExtractionError GENERIC_MESSAGE))"
  using assms(2-4) decrypt_Inl [OF assms(1), of k n c']
  by (cases "decrypt L k n c'")
    (simp_all add: extract_payload_def extract_stego_def Let_def header_of_def default_envelope_def)

lemma extraction_check:
  assumes "aead_spec L"
    and "bindR (read_header_region L im) parse_header = Inr (header_of (default_envelope s n c))"
    and "read_ciphertext_region L im (s @ n) (int (length c)) = Inr c'"
    and "derive_key L pw s SCRYPT_N SCRYPT_R SCRYPT_P = Inr k"
  shows "check_rejected name is_extraction_error (liftR (extract_payload L im pw)) w =
    check name (\<nexists>x. aesgcm_encrypt L k n x = Inr c') w"
  unfolding extract_default [OF assms] check_rejected_run decrypt_Inr_iff [OF assms(1), symmetric]
  by (cases "decrypt L k n c'") simp_all

text \<open>The tampering spares the rows that hold the header.\<close>

lemma tamper_simps [simp]:
  "img_mode (tamper im) = ''RGB''" "img_width (tamper im) = img_width im"
  "img_height (tamper im) = img_height im" "length (img_samples (tamper im)) = length (img_samples im)"
  by (simp_all add: tamper_def)

lemma tamper_colour: "colour_image im \<Longrightarrow> img_mode im = ''RGB'' \<Longrightarrow> colour_image (tamper im)"
  by (simp add: colour_image_def)

lemma tamper_header:
  assumes "colour_image im" "img_mode im = ''RGB''" "256 \<le> img_width im"
  shows "read_header_region L (tamper im) = read_header_region L im"
proof -
  have "take HEADER_BITS (img_samples (tamper im)) = take HEADER_BITS (img_samples im)"
    using assms(3) by (intro nth_equalityI) (auto simp: tamper_def in_square_def HEADER_BITS_eq Let_def)
  then show ?thesis
    using assms(1) tamper_colour [OF assms(1,2)] by (simp add: read_header_region_def to_channels_colour Let_def)
qed

lemma read_ciphertext_total:
  assumes "permutation_spec L" "colour_image im" "HEADER_BITS + 8 * n \<le> length (img_samples im)"
  shows "\<exists>c. read_ciphertext_region L im key (int n) = Inr c"
proof -
  define order where "order = permuted_positions L key [HEADER_BITS..<length (img_samples im)]"
  have len: "length order = length (img_samples im) - HEADER_BITS"
    unfolding order_def by (rule permuted_props [OF assms(1)])
  have "\<forall>t \<in> set (take (8 * n) order). t < length (img_samples im)"
    using permuted_take(3) [OF assms(1), of "8 * n"] assms(3) unfolding order_def by force
  moreover have "py_prefix (int n * 8) order = take (8 * n) order"
    by (simp add: py_prefix_def nat_mult_distrib mult.commute)
  ultimately show ?thesis
    using len assms(2,3) unfolding read_ciphertext_region_def Let_def
    by (auto simp: to_channels_colour order_def [symmetric] get_lsbs_def not_le [symmetric])
qed

text \<open>What an embedding into the script's image leaves, for the readers of the later checks.\<close>

lemma smoke_stego:
  assumes "engine_spec L" "noise_spec noise" "encodable pw" "length x \<le> 20000"
  obtains im k c where
    "embed_payload L (make_image noise 256 256 ''RGB'') x pw E = (Inr (png_save L im), E\<lparr>cursor := cursor E + 28\<rparr>)"
    "colour_image im" "img_mode im = ''RGB''" "img_width im = 256" "img_height im = 256"
    "length c = length x + 16" "aesgcm_encrypt L k (window E (cursor E + 16) 12) x = Inr c"
    "derive_key L pw (window E (cursor E) 16) SCRYPT_N SCRYPT_R SCRYPT_P = Inr k"
    "bindR (read_header_region L im) parse_header =
       Inr (header_of (default_envelope (window E (cursor E) 16) (window E (cursor E + 16) 12) c))"
    "read_ciphertext_region L im (window E (cursor E) 16 @ window E (cursor E + 16) 12) (int (length c)) = Inr c"
proof -
  let ?im = "make_image noise 256 256 ''RGB''"
  note col = make_image_colour [OF assms(2), of 256 256, simplified]
  have car: "carrier L ?im = ?im" using col(1) by simp
  have "length x < 2 ^ 31" using assms(4) by simp
  then obtain k c out where o:
    "embed_payload L ?im x pw E = (Inr (png_save L (with_samples ?im out)), E\<lparr>cursor := cursor E + 28\<rparr>)"
    "length out = length (img_samples ?im)" "embedded L E pw x k c out"
    using embed_payload_ok [OF assms(1) col(2) assms(3) _ big_room [OF assms(4)], of E] unfolding car by metis
  let ?o = "with_samples ?im out"
  have oc: "colour_image ?o" by (rule colour_with_samples [OF col(1) o(2)])
  have len: "length out = 196608" using o(2) col(1) by (simp add: colour_image_def mode_channels_def)
  have c: "length c = length x + 16" using o(3) by (simp add: embedded_def Let_def)
  have room: "HEADER_BITS + 8 * length c \<le> length out" using len c assms(4) by (simp add: HEADER_BITS_eq)
  have so: "img_samples ?o = out" by (simp add: with_samples_def)
  note h = embedded_header [OF o(3) oc so] and t = embedded_ciphertext [OF engine_specD(1) [OF assms(1)] o(3) oc so room]
  show thesis
  proof (rule that [OF o(1) oc _ _ _ c])
    show "bindR (read_header_region L ?o) parse_header =
       Inr (header_of (default_envelope (window E (cursor E) 16) (window E (cursor E + 16) 12) c))"
      by (rule h) (use room in simp)
    show "read_ciphertext_region L ?o (window E (cursor E) 16 @ window E (cursor E + 16) 12) (int (length c)) = Inr c"
      using t by (simp add: header_of_def default_envelope_def)
  qed (use o(3) in \<open>simp_all add: embedded_def Let_def with_samples_def\<close>)
qed

text \<open>Two embeddings of one payload differ exactly when they draw different salt and nonce.\<close>

lemma smoke_distinct:
  assumes "engine_spec L" "png_spec L" "noise_spec noise" "encodable pw" "length x \<le> 20000"
  shows "fst (embed_payload L (make_image noise 256 256 ''RGB'') x pw E) =
      fst (embed_payload L (make_image noise 256 256 ''RGB'') x pw F) \<longleftrightarrow>
    window E (cursor E) 28 = window F (cursor F) 28"
proof -
  have split: "window G i 28 = window G i 16 @ window G (i + 16) 12" for G i
    unfolding window_def map_append [symmetric] using upt_add_eq_append [of i "i + 16" 12]
    by (simp add: add.commute)
  let ?im = "make_image noise 256 256 ''RGB''"
  have len: "length x < 2 ^ 31" "fits ?im (length x)"
    using assms(5) has_room_fits [OF big_room [OF assms(5)]] by simp_all
  obtain a ka ca where a: "embed_payload L ?im x pw E = (Inr (png_save L a), E\<lparr>cursor := cursor E + 28\<rparr>)"
      "colour_image a" "img_mode a = ''RGB''" "img_width a = 256" "img_height a = 256"
      "bindR (read_header_region L a) parse_header =
        Inr (header_of (default_envelope (window E (cursor E) 16) (window E (cursor E + 16) 12) ca))"
    using smoke_stego [OF assms(1,3,4,5), of E] by metis
  obtain b kb cb where b: "embed_payload L ?im x pw F = (Inr (png_save L b), F\<lparr>cursor := cursor F + 28\<rparr>)"
      "colour_image b" "img_mode b = ''RGB''" "img_width b = 256" "img_height b = 256"
      "bindR (read_header_region L b) parse_header =
        Inr (header_of (default_envelope (window F (cursor F) 16) (window F (cursor F + 16) 12) cb))"
    using smoke_stego [OF assms(1,3,4,5), of F] by metis
  show ?thesis
  proof
    assume "fst (embed_payload L ?im x pw E) = fst (embed_payload L ?im x pw F)"
    then have "png_save L a = png_save L b" using a(1) b(1) by simp
    moreover have "reload L 65536 (png_save L a) = Inr a" "reload L 65536 (png_save L b) = Inr b"
      using a(2,4,5) b(2,4,5) by (auto intro!: reload_saved [OF assms(2)])
    ultimately have "a = b" by (metis sum.inject(2))
    then show "window E (cursor E) 28 = window F (cursor F) 28"
      using a(6) b(6) by (simp add: split header_of_def default_envelope_def)
  next
    assume "window E (cursor E) 28 = window F (cursor F) 28"
    then have w: "window E (cursor E) 16 = window F (cursor F) 16" "window E (cursor E + 16) 12 = window F (cursor F + 16) 12"
      by (simp_all add: split)
    obtain k c where e: "derive_key L pw (window E (cursor E) 16) SCRYPT_N SCRYPT_R SCRYPT_P = Inr k"
      "aesgcm_encrypt L k (window E (cursor E + 16) 12) x = Inr c"
      "fst (embed_payload L ?im x pw E) =
        embed L ?im (default_envelope (window E (cursor E) 16) (window E (cursor E + 16) 12) c)"
      using embed_payload_prefix [OF assms(1,4) len, of E] by (metis fst_conv)
    obtain k' c' where f: "derive_key L pw (window F (cursor F) 16) SCRYPT_N SCRYPT_R SCRYPT_P = Inr k'"
      "aesgcm_encrypt L k' (window F (cursor F + 16) 12) x = Inr c'"
      "fst (embed_payload L ?im x pw F) =
        embed L ?im (default_envelope (window F (cursor F) 16) (window F (cursor F + 16) 12) c')"
      using embed_payload_prefix [OF assms(1,4) len, of F] by (metis fst_conv)
    show "fst (embed_payload L ?im x pw E) = fst (embed_payload L ?im x pw F)"
      using e f w by simp
  qed
qed

lemma on_random_run:
  "on_random m w = (fst (m (random w)), w\<lparr>random := snd (m (random w))\<rparr>)"
  by (simp add: on_random_def case_prod_beta)

lemma entropy_cursor: "cursor (E\<lparr>cursor := n\<rparr>) = n" "E\<lparr>cursor := m, cursor := n\<rparr> = E\<lparr>cursor := n\<rparr>"
  by simp_all

lemma oversized_run:
  "oversized_check L (make_image noise 64 64 ''RGB'') w = check ''oversized payload rejected'' True w"
proof -
  have "\<not> fits (make_image noise 64 64 ''RGB'') 1475" by (simp add: fits_def small_max)
  then show ?thesis
    by (simp add: oversized_check_def small_max check_rejected_def embed_payload_def on_random_run py_simps)
qed

lemma nondeterminism_run:
  assumes "engine_spec L" "png_spec L" "noise_spec noise"
  shows "nondeterminism_check L (make_image noise 256 256 ''RGB'') w =
    check ''identical inputs produce different output''
      (window (random w) (cursor (random w)) 28 \<noteq> window (random w) (cursor (random w) + 28) 28)
      (w\<lparr>random := (random w)\<lparr>cursor := cursor (random w) + 56\<rparr>\<rparr>)"
proof -
  let ?run = "embed_payload L (make_image noise 256 256 ''RGB'') (ascii ''same'') (text_of ''pw'')"
  have small: "length (ascii ''same'') \<le> 20000" by (simp add: ascii_def)
  have r: "\<exists>p. ?run E = (Inr p, E\<lparr>cursor := cursor E + 28\<rparr>)" for E
    using smoke_stego [OF assms(1,3) encodable_text small, of "''pw''" E] by metis
  let ?E = "random w" and ?F = "(random w)\<lparr>cursor := cursor (random w) + 28\<rparr>"
  obtain a where a: "?run ?E = (Inr a, ?F)" using r by blast
  obtain b where b: "?run ?F = (Inr b, ?F\<lparr>cursor := cursor ?F + 28\<rparr>)" using r by blast
  have "a = b \<longleftrightarrow> window ?E (cursor ?E) 28 = window ?F (cursor ?F) 28"
    using smoke_distinct [OF assms encodable_text small, of "''pw''" ?E ?F] a b by simp
  then show ?thesis by (simp add: nondeterminism_check_def on_random_run py_simps a b add.commute [of _ 56])
qed

lemma verify_compatible:
  assumes "verify L im = Inr r"
  shows "compatible_payload_detected r \<longleftrightarrow> (\<exists>h. bindR (read_header_region L im) parse_header = Inr h)"
  using assms by (auto simp: verify_def Let_def split: sum.splits if_splits)

lemma verify_returns: "\<exists>r. verify L im = Inr r"
proof (cases "bindR (read_header_region L im) parse_header")
  case (Inl e)
  then show ?thesis using header_stage_Inl [OF Inl] by (auto simp: verify_def)
qed (simp add: verify_def Let_def)

lemma verify_clean_run:
  "verify_clean_check L im w = check ''verify finds nothing in clean image''
     (\<nexists>h. bindR (read_header_region L im) parse_header = Inr h) w"
proof -
  obtain r where "verify L im = Inr r" using verify_returns by blast
  with verify_compatible [OF this] show ?thesis by (simp add: verify_clean_check_def py_simps)
qed

lemma passed_all: "passed rs = length rs \<longleftrightarrow> list_all (\<lambda>ok. ok) rs"
proof -
  have "passed rs = length rs \<longleftrightarrow> (\<forall>ok \<in> set rs. ok)"
    unfolding passed_def by (metis filter_id_conv length_filter_less less_irrefl)
  then show ?thesis by (simp add: list_all_iff)
qed

lemma summary_run:
  "conclude rs w = (Inr (if list_all (\<lambda>ok. ok) rs then 0 else 1), w\<lparr>printed := printed w @
     [[], decimal (passed rs) @ ''/'' @ decimal (length rs) @ '' checks passed'']\<rparr>)"
  by (simp add: conclude_def puts_def py_simps passed_all)

text \<open>The checks that read the saved image.\<close>

lemma stego_checks:
  assumes "aead_spec L" "reload L limit stego = Inr im" "pil_convert L im ''RGB'' = im"
    and h: "bindR (read_header_region L im) parse_header = Inr (header_of (default_envelope s n c))"
      "bindR (read_header_region L (tamper im)) parse_header = Inr (header_of (default_envelope s n c))"
    and c: "read_ciphertext_region L im (s @ n) (int (length c)) = Inr c"
      "read_ciphertext_region L (tamper im) (s @ n) (int (length c)) = Inr c'"
    and k: "derive_key L (text_of ''hunter2'') s SCRYPT_N SCRYPT_R SCRYPT_P = Inr k"
      "derive_key L (text_of ''wrong'') s SCRYPT_N SCRYPT_R SCRYPT_P = Inr k'"
    and m: "aesgcm_encrypt L k n msg = Inr c"
  shows "round_trip_check L limit stego msg v = check ''round trip recovers payload'' True v"
    "wrong_passphrase_check L limit stego v =
       check ''wrong passphrase rejected'' (\<nexists>x. aesgcm_encrypt L k' n x = Inr c) v"
    "tamper_check L limit stego v =
       check ''tampered artifact rejected'' (\<nexists>x. aesgcm_encrypt L k n x = Inr c') v"
    "verify_stego_check L limit stego v = check ''verify detects embedded structure'' True v"
proof -
  obtain r where "verify L im = Inr r" using verify_returns by blast
  with verify_compatible [OF this] h(1)
  show "verify_stego_check L limit stego v = check ''verify detects embedded structure'' True v"
    by (simp add: verify_stego_check_def assms(2) py_simps)
  show "round_trip_check L limit stego msg v = check ''round trip recovers payload'' True v"
    using extract_default [OF assms(1) h(1) c(1) k(1)] m decrypt_Inr_iff [OF assms(1), of k n c msg]
    by (simp add: round_trip_check_def assms(2) py_simps)
  show "wrong_passphrase_check L limit stego v =
       check ''wrong passphrase rejected'' (\<nexists>x. aesgcm_encrypt L k' n x = Inr c) v"
    using extraction_check [OF assms(1) h(1) c(1) k(2)] by (simp add: wrong_passphrase_check_def assms(2))
  show "tamper_check L limit stego v =
       check ''tampered artifact rejected'' (\<nexists>x. aesgcm_encrypt L k n x = Inr c') v"
    using extraction_check [OF assms(1) h(2) c(2) k(1)] by (simp add: tamper_check_def assms(2,3) py_simps)
qed

section \<open>The outcome of the script\<close>

definition CHECKS :: "string list" where
  "CHECKS = [''round trip recovers payload'', ''wrong passphrase rejected'', ''tampered artifact rejected'',
     ''oversized payload rejected'', ''identical inputs produce different output'',
     ''verify detects embedded structure'', ''verify finds nothing in clean image'']"

definition report :: "bool list \<Rightarrow> string list" where
  "report results = map2 report_line CHECKS results @
     [[], decimal (passed results) @ ''/'' @ decimal (length results) @ '' checks passed'']"

lemma never_eight: "length rs = 7 \<Longrightarrow> ''8/8 checks passed'' \<notin> set (report rs)"
proof
  assume "length rs = 7" "''8/8 checks passed'' \<in> set (report rs)"
  moreover have "decimal 7 = ''7''" by code_simp
  moreover have "''8/8 checks passed'' \<noteq> report_line name ok" for name ok
    by (simp add: report_line_def)
  moreover have "''8/8 checks passed'' \<noteq> d @ ''/7 checks passed''" for d
    by (rule notI) (drule arg_cong [of _ _ rev], simp)
  ultimately show False by (auto simp: report_def set_zip)
qed

text \<open>The stego image of the test, what it holds, and what its tampered copy does.\<close>

lemma smoke_image:
  assumes spec: "engine_spec L" "png_spec L" "noise_spec noise" "65536 \<le> limit"
  obtains im k k' c c' where
    "embed_payload L (make_image noise 256 256 ''RGB'') MSG_BYTES (text_of ''hunter2'') E =
      (Inr (png_save L im), E\<lparr>cursor := cursor E + 28\<rparr>)"
    "colour_image im" "img_mode im = ''RGB''" "img_width im = 256" "img_height im = 256"
    "aesgcm_encrypt L k (window E (cursor E + 16) 12) MSG_BYTES = Inr c"
    "derive_key L (text_of ''hunter2'') (window E (cursor E) 16) SCRYPT_N SCRYPT_R SCRYPT_P = Inr k"
    "derive_key L (text_of ''wrong'') (window E (cursor E) 16) SCRYPT_N SCRYPT_R SCRYPT_P = Inr k'"
    "bindR (read_header_region L im) parse_header =
      Inr (header_of (default_envelope (window E (cursor E) 16) (window E (cursor E + 16) 12) c))"
    "bindR (read_header_region L (tamper im)) parse_header =
      Inr (header_of (default_envelope (window E (cursor E) 16) (window E (cursor E + 16) 12) c))"
    "read_ciphertext_region L im (window E (cursor E) 16 @ window E (cursor E + 16) 12) (int (length c)) = Inr c"
    "read_ciphertext_region L (tamper im) (window E (cursor E) 16 @ window E (cursor E + 16) 12) (int (length c)) = Inr c'"
    "reload L limit (png_save L im) = Inr im"
proof -
  let ?img = "make_image noise 256 256 ''RGB''" and ?s = "window E (cursor E) 16" and ?n = "window E (cursor E + 16) 12"
  have small: "length MSG_BYTES \<le> 20000" "40 + 16 = (56 :: nat)" by (simp_all add: MSG_encoded)
  obtain im k c where st: "embed_payload L ?img MSG_BYTES (text_of ''hunter2'') E =
        (Inr (png_save L im), E\<lparr>cursor := cursor E + 28\<rparr>)"
    "colour_image im" "img_mode im = ''RGB''" "img_width im = 256" "img_height im = 256" "length c = 56"
    "aesgcm_encrypt L k ?n MSG_BYTES = Inr c" "derive_key L (text_of ''hunter2'') ?s SCRYPT_N SCRYPT_R SCRYPT_P = Inr k"
    "bindR (read_header_region L im) parse_header = Inr (header_of (default_envelope ?s ?n c))"
    "read_ciphertext_region L im (?s @ ?n) (int (length c)) = Inr c"
    using smoke_stego [OF spec(1,3) encodable_text, of MSG_BYTES "''hunter2''" E]
    by (metis MSG_encoded(2) small)
  obtain k' where k': "derive_key L (text_of ''wrong'') ?s SCRYPT_N SCRYPT_R SCRYPT_P = Inr k'"
    using derive_key_default [OF engine_specD(3) [OF spec(1)] length_window encodable_text] by blast
  have tc: "colour_image (tamper im)" "length (img_samples (tamper im)) = 196608"
    using tamper_colour [OF st(2,3)] st(2-5) by (simp_all add: colour_image_def mode_channels_def)
  obtain c' where c': "read_ciphertext_region L (tamper im) (?s @ ?n) (int (length c)) = Inr c'"
    using read_ciphertext_total [OF engine_specD(1) [OF spec(1)] tc(1), of "length c"] tc(2) st(6)
    by (auto simp: HEADER_BITS_eq)
  have th: "bindR (read_header_region L (tamper im)) parse_header = Inr (header_of (default_envelope ?s ?n c))"
    using tamper_header [OF st(2,3)] st(4,9) by simp
  have re: "reload L limit (png_save L im) = Inr im"
    by (rule reload_saved [OF spec(2) st(2)]) (use st(4,5) spec(4) in simp)
  show thesis by (rule that [OF st(1-5,7,8) k' st(9) th st(10) c' re])
qed

text \<open>
  Property C8. What the smoke test establishes. It always runs to its end, prints one line per check
  and the count, and exits with 0 exactly when all seven checks pass. Three of them, the round trip,
  the refusal of an oversized payload and the detection of an embedded structure, pass with every
  library that keeps to its documentation. The others are exactly these facts: the key of the wrong
  passphrase opens the ciphertext of the message to nothing; the ciphertext read from the tampered
  image opens to nothing; the random bytes for the salts and nonces of two embeddings differ; and
  the unused image does not start with a header. The script makes seven checks: whatever their
  results, the line \<^verbatim>\<open>8/8 checks passed\<close> that \<^verbatim>\<open>docs/PHASE1-STATUS.md\<close> tells
  the reader to expect is never printed.
\<close>

theorem smoke_outcome:
  assumes spec: "engine_spec L" "png_spec L" "convert_same L" "noise_spec noise" "65536 \<le> limit"
    and E: "random w = E"
  shows "\<exists>im k k' c c'. let s = window E (cursor E) 16; n = window E (cursor E + 16) 12;
      results = [True, \<nexists>x. aesgcm_encrypt L k' n x = Inr c, \<nexists>x. aesgcm_encrypt L k n x = Inr c', True,
        window E (cursor E + 28) 28 \<noteq> window E (cursor E + 56) 28, True,
        \<nexists>h. bindR (read_header_region L (make_image noise 256 256 ''RGB'')) parse_header = Inr h]
    in
      fst (embed_payload L (make_image noise 256 256 ''RGB'') MSG_BYTES (text_of ''hunter2'') E) = Inr (png_save L im) \<and>
      colour_image im \<and> img_mode im = ''RGB'' \<and> img_width im = 256 \<and> img_height im = 256 \<and>
      read_ciphertext_region L im (s @ n) (int (length c)) = Inr c \<and>
      derive_key L (text_of ''hunter2'') s SCRYPT_N SCRYPT_R SCRYPT_P = Inr k \<and>
      derive_key L (text_of ''wrong'') s SCRYPT_N SCRYPT_R SCRYPT_P = Inr k' \<and>
      aesgcm_encrypt L k n MSG_BYTES = Inr c \<and>
      read_ciphertext_region L (tamper im) (s @ n) (int (length c)) = Inr c' \<and>
      smoke_main L noise limit w =
        (Inr (if list_all (\<lambda>ok. ok) results then 0 else 1),
         w\<lparr>random := E\<lparr>cursor := cursor E + 84\<rparr>, printed := printed w @ report results\<rparr>) \<and>
      ''8/8 checks passed'' \<notin> set (report results)"
proof -
  let ?img = "make_image noise 256 256 ''RGB''" and ?s = "window E (cursor E) 16" and ?n = "window E (cursor E + 16) 12"
  obtain im k k' c c' where st: "embed_payload L ?img MSG_BYTES (text_of ''hunter2'') E =
        (Inr (png_save L im), E\<lparr>cursor := cursor E + 28\<rparr>)" "colour_image im" "img_mode im = ''RGB''"
      "img_width im = 256" "img_height im = 256"
    and c: "aesgcm_encrypt L k ?n MSG_BYTES = Inr c"
    and k: "derive_key L (text_of ''hunter2'') ?s SCRYPT_N SCRYPT_R SCRYPT_P = Inr k"
    and k': "derive_key L (text_of ''wrong'') ?s SCRYPT_N SCRYPT_R SCRYPT_P = Inr k'"
    and h: "bindR (read_header_region L im) parse_header = Inr (header_of (default_envelope ?s ?n c))"
    and th: "bindR (read_header_region L (tamper im)) parse_header = Inr (header_of (default_envelope ?s ?n c))"
    and r: "read_ciphertext_region L im (?s @ ?n) (int (length c)) = Inr c"
    and c': "read_ciphertext_region L (tamper im) (?s @ ?n) (int (length c)) = Inr c'"
    and re: "reload L limit (png_save L im) = Inr im"
    by (rule smoke_image [OF spec(1,2,4,5)])
  have conv: "pil_convert L im ''RGB'' = im" using spec(3) st(2,3) unfolding convert_same_def by metis
  note checks = stego_checks [OF engine_specD(2) [OF spec(1)] re conv h th r c' k k' c]
  have e: "cursor E + 28 + 28 = cursor E + 56" "cursor E + 28 + 56 = cursor E + 84" by simp_all
  have r5: "nondeterminism_check L ?img v = check ''identical inputs produce different output''
      (window E (cursor E + 28) 28 \<noteq> window E (cursor E + 56) 28) (v\<lparr>random := E\<lparr>cursor := cursor E + 84\<rparr>\<rparr>)"
    if "random v = E\<lparr>cursor := cursor E + 28\<rparr>" for v
    unfolding nondeterminism_run [OF spec(1,2,4)] that by (simp only: entropy_cursor window_cursor e)
  have run: "on_random (embed_payload L ?img MSG_BYTES (text_of ''hunter2'')) w =
      (Inr (png_save L im), w\<lparr>random := E\<lparr>cursor := cursor E + 28\<rparr>\<rparr>)"
    by (simp add: on_random_run E st(1))
  have "smoke_main L noise limit w =
      (Inr (if list_all (\<lambda>ok. ok) rs then 0 else 1),
         w\<lparr>random := E\<lparr>cursor := cursor E + 84\<rparr>, printed := printed w @ report rs\<rparr>)"
    if "rs = [True, \<nexists>x. aesgcm_encrypt L k' ?n x = Inr c, \<nexists>x. aesgcm_encrypt L k ?n x = Inr c', True,
        window E (cursor E + 28) 28 \<noteq> window E (cursor E + 56) 28, True,
        \<nexists>h. bindR (read_header_region L ?img) parse_header = Inr h]" for rs
    unfolding that smoke_main_def Let_def
    by (simp add: py_simps MSG_encoded(1) run checks r5 check_run oversized_run verify_clean_run
        summary_run report_def CHECKS_def)
  note main = this
  have "fst (embed_payload L ?img MSG_BYTES (text_of ''hunter2'') E) = Inr (png_save L im)" using st(1) by simp
  note facts = this st(2-5) r k k' c c' main [OF HOL.refl] never_eight
  show ?thesis unfolding Let_def
    by (intro exI [of _ im] exI [of _ k] exI [of _ k'] exI [of _ c] exI [of _ c'] conjI) (rule facts; simp)+
qed

lemma demo_convert_same: "convert_same demo_lib"
  by (simp add: convert_same_def demo_lib_def demo_convert_def)

text \<open>
  The demonstration library scatters the ciphertext over the last samples of the image, which the
  script's square does not reach: of the seven checks, the one of the tampered image fails.
\<close>

lemma last_positions:
  fixes t :: nat
  assumes "t \<in> set (take n (rev [a..<b]))" shows "b - n \<le> t \<and> t < b"
  using assms by (auto simp: take_rev)

lemma tamper_elsewhere:
  assumes "\<forall>t \<in> set ts. \<not> in_square (img_width im) t"
  shows "get_lsbs (img_samples (tamper im)) ts = get_lsbs (img_samples im) ts"
  using assms by (auto simp: get_lsbs_def tamper_def)

lemma demo_positions:
  assumes "colour_image im" "img_mode im = ''RGB''" "img_width im = 256" "img_height im = 256"
  shows "read_ciphertext_region demo_lib (tamper im) key 56 = read_ciphertext_region demo_lib im key 56"
proof -
  have len: "length (img_samples im) = 196608" using assms by (simp add: colour_image_def mode_channels_def)
  have far: "\<not> in_square 256 t" if "196160 \<le> t" "t < 196608" for t
  proof -
    have "236 \<le> t div 768" using div_le_mono [OF that(1), of 768] by simp
    then show ?thesis by (simp add: in_square_def Let_def)
  qed
  have "t \<in> set (take 448 (rev [HEADER_BITS..<196608])) \<Longrightarrow> 196160 \<le> t \<and> t < 196608" for t
    using last_positions [of t 448 HEADER_BITS 196608] by simp
  then have "get_lsbs (img_samples (tamper im)) (take 448 (rev [HEADER_BITS..<196608])) =
      get_lsbs (img_samples im) (take 448 (rev [HEADER_BITS..<196608]))"
    by (intro tamper_elsewhere ballI) (use far assms(3) in simp)
  moreover have "length (img_samples (tamper im)) = 196608"
    unfolding len [symmetric] by (simp add: tamper_def)
  ultimately show ?thesis
    using to_channels_colour [OF assms(1)] to_channels_colour [OF tamper_colour [OF assms(1,2)]] len
    by (simp add: read_ciphertext_region_def py_prefix_def permuted_positions_def demo_lib_def)
qed

theorem smoke_outcome_witness:
  "\<exists>w. smoke_main demo_lib (\<lambda>h w c. replicate (h * w * c) 7) 89478485
      \<lparr>random = demo_entropy, printed = []\<rparr> = (Inr 1, w) \<and> cursor (random w) = 84 \<and>
    printed w = report [True, True, False, True, True, True, True] \<and> last (printed w) = ''6/7 checks passed''"
proof -
  let ?noise = "\<lambda>h w c. replicate (h * w * c) (7 :: byte)"
  have "noise_spec ?noise" by (simp add: noise_spec_def)
  from smoke_outcome [OF demo_engine demo_png demo_convert_same this, of 89478485
      "\<lparr>random = demo_entropy, printed = []\<rparr>" demo_entropy]
  obtain im k k' c c' rs w where
    im: "colour_image im" "img_mode im = ''RGB''" "img_width im = 256" "img_height im = 256"
    and r: "read_ciphertext_region demo_lib im (window demo_entropy 0 16 @ window demo_entropy 16 12) (int (length c)) = Inr c"
      "read_ciphertext_region demo_lib (tamper im) (window demo_entropy 0 16 @ window demo_entropy 16 12) (int (length c)) = Inr c'"
    and k: "derive_key demo_lib (text_of ''hunter2'') (window demo_entropy 0 16) SCRYPT_N SCRYPT_R SCRYPT_P = Inr k"
      "derive_key demo_lib (text_of ''wrong'') (window demo_entropy 0 16) SCRYPT_N SCRYPT_R SCRYPT_P = Inr k'"
    and c: "aesgcm_encrypt demo_lib k (window demo_entropy 16 12) MSG_BYTES = Inr c"
    and rs: "rs = [True, \<nexists>x. aesgcm_encrypt demo_lib k' (window demo_entropy 16 12) x = Inr c,
        \<nexists>x. aesgcm_encrypt demo_lib k (window demo_entropy 16 12) x = Inr c', True,
        window demo_entropy 28 28 \<noteq> window demo_entropy 56 28, True,
        \<nexists>h. bindR (read_header_region demo_lib (make_image ?noise 256 256 ''RGB'')) parse_header = Inr h]"
    and main: "smoke_main demo_lib ?noise 89478485 \<lparr>random = demo_entropy, printed = []\<rparr> =
      (Inr (if list_all (\<lambda>ok. ok) rs then 0 else 1), w)" "cursor (random w) = 84" "printed w = report rs"
    by (auto simp: Let_def demo_entropy_def)
  have "length c = 56" using c MSG_encoded(2) by (auto simp: demo_lib_def demo_encrypt_def)
  then have same: "c' = c" using r demo_positions [OF im] by simp
  have "utf8_encode (text_of ''hunter2'') = Inr [104, 117, 110, 116, 101, 114, 50]"
    "utf8_encode (text_of ''wrong'') = Inr [119, 114, 111, 110, 103]" by code_simp+
  then have "hd (demo_tag k) = 104" "hd (demo_tag k') = 119"
    using k by (auto simp: derive_key_def demo_lib_def demo_scrypt_init_def demo_scrypt_derive_def SCRYPT_N_def
        SCRYPT_R_def SCRYPT_P_def KEY_BYTES_def demo_tag_def)
  then have "demo_tag k' \<noteq> demo_tag k" by auto
  then have r2: "\<nexists>x. aesgcm_encrypt demo_lib k' (window demo_entropy 16 12) x = Inr c"
    using c by (auto simp: demo_lib_def demo_encrypt_def)
  have r5: "window demo_entropy 28 28 \<noteq> window demo_entropy 56 28"
    by (simp add: window_def demo_entropy_def upt_rec)
  have "read_header_region demo_lib (make_image ?noise 256 256 ''RGB'') =
      Inr (packbits (replicate 368 1))"
    using make_image_colour [of ?noise 256 256] \<open>noise_spec ?noise\<close>
    by (simp add: read_header_region_def to_channels_colour HEADER_BITS_eq bits_to_bytes_def)
      (simp add: make_image_def get_lsb_def HEADER_BITS_eq bits_to_bytes_def)
  moreover have "unpack_byte 0xFF = replicate 8 1" by code_simp
  then have "unpackbits (replicate n 0xFF) = replicate (8 * n) 1" for n
    by (induction n) (simp_all add: unpackbits_def replicate_add [symmetric])
  from packbits_unpackbits [of "replicate 46 0xFF", unfolded this]
  have "packbits (replicate 368 1) = replicate 46 0xFF" by simp
  moreover have "slice 0 4 (replicate 46 (0xFF :: byte)) \<noteq> MAGIC" by code_simp
  then have "isl (parse_header (replicate 46 0xFF))" by (simp add: parse_header_def struct_unpack_def)
  ultimately have r7: "\<nexists>h. bindR (read_header_region demo_lib (make_image ?noise 256 256 ''RGB'')) parse_header = Inr h"
    by (auto simp: isl_def)
  have "rs = [True, True, False, True, True, True, True]"
    unfolding rs same using r2 r5 r7 c by auto
  moreover have "last (report [True, True, False, True, True, True, True]) = ''6/7 checks passed''" by code_simp
  ultimately show ?thesis using main by simp
qed

end
