(* ===== verification/Spec2Isabelle.thy ===== *)
theory Spec2Isabelle
  imports Workflows AccountLock Responses Columns Concurrency ConcurrentLogins ConcurrentRegistrations
    Routing Startup SmokeTest
begin

text \<open>
  Verification of the Secure Steganography Platform (\<^verbatim>\<open>app/\<close>): a FastAPI service that
  hides an encrypted payload in the least significant bits of a PNG, with accounts, rotating
  refresh tokens, job records and an administrator interface.

  \<^bold>\<open>The program.\<close> The engine turns a passphrase and a payload into an
  AES-GCM envelope (\<^verbatim>\<open>crypto/\<close>), writes the envelope's header into the first samples of
  the image and scatters the ciphertext over the rest (\<^verbatim>\<open>steganography/\<close>,
  \<^verbatim>\<open>services/\<close>). Uploads go through a validator first (\<^verbatim>\<open>files/validators.py\<close>).
  Around it, requests authenticate with a JWT (\<^verbatim>\<open>auth/jwt.py\<close>,
  \<^verbatim>\<open>auth/dependencies.py\<close>), renew it with a refresh token
  (\<^verbatim>\<open>auth/refresh_tokens.py\<close>), and read and write three tables (\<^verbatim>\<open>db/\<close>)
  through the routes of \<^verbatim>\<open>api/v1/\<close> and \<^verbatim>\<open>main.py\<close>. Events are counted by
  \<^verbatim>\<open>core/metrics.py\<close>.

  \<^bold>\<open>The model.\<close> A Python operation is a function of type \<open>('s, 'a) py\<close> (\<open>Prelude\<close>): from a
  state to a result, an exception (\<open>Inl\<close>) or a value (\<open>Inr\<close>), and the state it leaves;
  \<open>bindM\<close>, \<open>catchM\<close> and \<open>finallyM\<close> are sequencing, \<^verbatim>\<open>try/except\<close> and
  \<^verbatim>\<open>try/finally\<close>. The engine's state is the operating system's entropy, the
  validator's is Pillow's global pixel limit, a request's is \<open>world\<close>: the tables as the request's
  transaction sees them (\<open>db\<close>), as committed (\<open>disk\<close>), the metric counters, the clocks, the
  entropy and the pixel limit.

  \<^item> \<open>Prelude\<close>, \<open>ByteCodec\<close>, \<open>Uuid\<close>, \<open>Runtime\<close>: exceptions and the monad; big-endian fields, bit
    packing and the locale of exact codecs; \<^verbatim>\<open>uuid.UUID\<close> parsing and printing; UTF-8,
    entropy, images, and the record \<open>lib\<close> of third-party functions with one predicate
    \<open>..._spec\<close> per library for what its documentation promises. \<open>Demo\<close>, \<open>DemoWorld\<close>: concrete
    instances that satisfy all of them, for the witnesses.
  \<^item> \<open>Envelope\<close> (\<^verbatim>\<open>crypto/envelope.py\<close>), \<open>Crypto\<close> (\<^verbatim>\<open>kdf.py\<close>,
    \<^verbatim>\<open>aead.py\<close>), \<open>Lsb\<close> (\<^verbatim>\<open>capacity.py\<close>, \<^verbatim>\<open>pixel_permutation.py\<close>),
    \<open>LsbPng\<close> (\<^verbatim>\<open>lsb_png.py\<close>), \<open>Stego\<close> (\<^verbatim>\<open>embed_service.py\<close>,
    \<^verbatim>\<open>extract_service.py\<close>, \<^verbatim>\<open>extractor.py\<close>, \<^verbatim>\<open>verifier.py\<close>),
    and \<open>Engine\<close> with the engine's theorems: round trip, exact outcome, authenticity, generic
    failure and the one exception that escapes it (key derivation with the cost parameters of an unauthenticated
    header), what is changed, what verification claims.
  \<^item> \<open>Validators\<close> (\<^verbatim>\<open>files/validators.py\<close>): exactly what is accepted, the rejection codes,
    the global limit, alone and under concurrent validations, each a call with its own data and limits.
  \<^item> \<open>Models\<close> (\<^verbatim>\<open>core/config.py\<close>, \<^verbatim>\<open>db/models.py\<close>): settings, rows, and the
    locale \<open>keyed_table\<close> of what the code relies on in a table, interpreted for the three tables.
    \<open>World\<close> (\<^verbatim>\<open>core/metrics.py\<close>, \<^verbatim>\<open>db/session.py\<close>): counters, transactions,
    the storage operations, and the rules that carry properties of these to whole requests.
  \<^item> \<open>Tokens\<close> (\<^verbatim>\<open>auth/refresh_tokens.py\<close>), \<open>AuthCore\<close> (\<^verbatim>\<open>auth/jwt.py\<close>,
    \<^verbatim>\<open>passwords.py\<close>, \<^verbatim>\<open>permissions.py\<close>, \<^verbatim>\<open>dependencies.py\<close>),
    \<open>Schemas\<close> (\<^verbatim>\<open>schemas/auth.py\<close>), \<open>AuthApi\<close> (\<^verbatim>\<open>api/v1/auth.py\<close>),
    \<open>JobsApi\<close> (\<^verbatim>\<open>api/v1/jobs.py\<close>, \<^verbatim>\<open>schemas/jobs.py\<close>), \<open>AdminApi\<close>
    (\<^verbatim>\<open>api/v1/admin.py\<close>, \<^verbatim>\<open>main.py\<close>): one definition per handler, and one per
    route for the request around it.
  \<^item> \<open>System\<close>: the route table \<open>serve\<close>, and the locales \<open>owner_order\<close> and \<open>app_order\<close>, which list
    the changes to tables that handlers make: a relation that admits them holds across every
    request. Each interpretation is an invariant of the service: \<open>Invariants\<close> (consistency of
    the tables, no privilege escalation, permanence of revocation, over the inductive relation
    \<open>reachable\<close>), \<open>Isolation\<close> (on the routes behind \<^verbatim>\<open>get_current_user\<close> a caller changes only its own rows, and
    learns nothing of others' jobs), \<open>Renewal\<close> (one live token per family), \<open>TokenMachine\<close> (refinement).
  \<^item> \<open>Accounts\<close> (login and lockout: which clock reading a lock runs from, and what holds before and after its end), \<open>AccountLock\<close> (the abstract lock that logins implement),
    \<open>Renewal\<close> (refreshing, and what a second use of a token does), \<open>TokenMachine\<close> (the abstract
    token store that rotation and the service implement, with the order in which tokens age),
    \<open>Lifecycle\<close> (logout, account deletion, the administrator gate, disabling), \<open>Onboarding\<close> (registration and the use of fresh tokens),
    \<open>Workflows\<close> (embedding and extraction over HTTP), \<open>Responses\<close> (which requests end in a
    response, with its request ID, and which exceptions reach the server): the behaviour of whole
    requests and of sequences of them.
  \<^item> \<open>Columns\<close> (the declared lengths in \<^verbatim>\<open>db/models.py\<close>): no request writes a text that is too
    long for its column. It is the interpretation of \<open>app_order\<close> that asks for \<open>limits\<close>, the lengths
    of the rows the handlers build.
  \<^item> \<open>Interleaving\<close>: the locale \<open>threads\<close> of step relations in which a handler's reads and writes are
    separate steps of a thread: a run of \<open>N\<close> threads is bounded, and stops only when all are
    answered. It is interpreted for the accesses of \<open>Validators\<close> to the global limit, \<open>Concurrency\<close>
    (rotations of one token: two can both succeed,
    but the first write spends the token for all who present it later, and the table still evolves
    by the steps of the token machine), \<open>ConcurrentLogins\<close> (any number of wrong guesses can be
    counted as one) and \<open>ConcurrentRegistrations\<close> (one account is opened, but the losers can end in
    the database's error instead of the conflict). For logins the count and the lock are bounded in every
    interleaving. A step of these relations is always possible: waiting for a lock of the
    database is not modelled, so what they say of termination is the number of accesses.
  \<^item> \<open>Routing\<close>: the route table as the decorators and \<^verbatim>\<open>include_router\<close> build it, the dispatch of
    an HTTP request over it to the Python function, and its agreement with \<open>serve\<close>, in both directions. \<open>Startup\<close>: the engine's arguments, \<^verbatim>\<open>init_db\<close> and the life span.
  \<^item> \<open>SmokeTest\<close> (\<^verbatim>\<open>scripts/smoke_test.py\<close>): the console test of the engine, and what its exit
    status says.

  \<^bold>\<open>Bounds.\<close> No definition uses fuel: the code's loops are over finite sequences. Payloads are
  below \<open>2 ^ 31\<close> bytes where AES-GCM is used, as the library demands; header fields are checked
  against their 4 bytes as \<^verbatim>\<open>struct.pack\<close> does; identifiers are below \<open>2 ^ 128\<close>. Where
  fresh random identifiers could repeat, the unique constraints' \<^verbatim>\<open>IntegrityError\<close> is
  one of the outcomes.

  \<^bold>\<open>Simplifications.\<close> E-mail addresses, passwords in JSON, headers and tokens are Latin-1 texts;
  passphrases, payloads and file names are arbitrary code points. The order of the rows of a query
  is insertion order (the code asks for none). \<^verbatim>\<open>datetime\<close> values are microseconds with
  no upper limit and \<^verbatim>\<open>isoformat\<close> texts are the value they show; performance counters
  are whole nanoseconds. A request runs alone: requests on the same rows are interleaved only in
  \<open>Concurrency\<close>, for rotations of one token, \<open>ConcurrentLogins\<close>, for logins to one account, and
  \<open>ConcurrentRegistrations\<close>, for registrations of one address, and validations only in \<open>Validators\<close>, for the accesses to the global limit.

  \<^verbatim>\<open>Image.convert\<close> returns an image: it has no documented exception for what a PNG decodes to. In the
  interleavings of validations Pillow's decoding is one step, which reads the limit once.

  \<^bold>\<open>Not modelled.\<close> FastAPI's path matching (a parameter with its documented law) and multipart
  decoding, the framework's own error bodies, SQLAlchemy's SQL, reading settings from the
  environment, the bytes of Pillow, numpy, cryptography, argon2 and PyJWT
  (parameters), timing. The modules \<^verbatim>\<open>audit/\<close>, \<^verbatim>\<open>cli/\<close>,
  \<^verbatim>\<open>auth/mfa.py\<close>, \<^verbatim>\<open>crypto/signatures.py\<close>,
  \<^verbatim>\<open>core/rate_limiting.py\<close>, \<^verbatim>\<open>core/security_headers.py\<close>,
  \<^verbatim>\<open>core/logging.py\<close>, \<^verbatim>\<open>core/request_ids.py\<close>,
  \<^verbatim>\<open>core/exceptions.py\<close>, \<^verbatim>\<open>files/storage.py\<close>,
  \<^verbatim>\<open>files/metadata.py\<close>, \<^verbatim>\<open>files/cleanup.py\<close>,
  \<^verbatim>\<open>api/v1/health.py\<close>, \<^verbatim>\<open>services/job_service.py\<close> and
  \<^verbatim>\<open>services/verify_service.py\<close> hold no code at this commit;
  \<^verbatim>\<open>schemas/errors.py\<close> (two records in \<open>Schemas\<close>) is used by no route. The other scripts are stubs.
\<close>

end
